theory Spec2Isabelle
  imports Complex_Main
begin

section \<open>Python values and exceptions\<close>

text \<open>
  The parameter mapping of a run is a Python \<^verbatim>\<open>dict\<close> from names to values that come
  from a configuration module: numbers, booleans, strings, \<^verbatim>\<open>None\<close>, lists and tuples.
  A float is kept as far as the code looks at it: its sign, whether it is zero, and the
  three special values. Rounding plays no part in any function modelled here.
\<close>

datatype pyfloat = Fin rat | PosInf | NegInf | NaN

datatype pyval =
    PNone
  | PBool bool
  | PInt int
  | PFloat pyfloat
  | PStr string
  | PList "pyval list"
  | PTuple "pyval list"

datatype exc =
    TypeError
  | ValueError
  | OverflowError
  | IndexError
  | OSError
  | KeyError string
  | FileNotFoundError string
  | RuntimeError string
  | OtherError string

type_synonym params = "string \<rightharpoonup> pyval"

text \<open>\<^verbatim>\<open>params.get(key, default)\<close>.\<close>

definition get :: "params \<Rightarrow> string \<Rightarrow> pyval \<Rightarrow> pyval" where
  "get ps k d = (case ps k of None \<Rightarrow> d | Some v \<Rightarrow> v)"

text \<open>Sequencing of computations that may raise: the first exception ends the sequence.\<close>

definition and_then :: "exc + 'a \<Rightarrow> ('a \<Rightarrow> exc + 'b) \<Rightarrow> exc + 'b" where
  "and_then m f = (case m of Inl e \<Rightarrow> Inl e | Inr x \<Rightarrow> f x)"

text \<open>\<^verbatim>\<open>a or b\<close> on booleans: \<^verbatim>\<open>b\<close> is evaluated only when \<^verbatim>\<open>a\<close> is false.\<close>

definition py_or :: "exc + bool \<Rightarrow> exc + bool \<Rightarrow> exc + bool" where
  "py_or a b = (case a of Inl e \<Rightarrow> Inl e | Inr True \<Rightarrow> Inr True | Inr False \<Rightarrow> b)"

fun float_gt0 :: "pyfloat \<Rightarrow> bool" where
  "float_gt0 (Fin r) = (0 < r)"
| "float_gt0 PosInf = True"
| "float_gt0 NegInf = False"
| "float_gt0 NaN = False"

fun float_ne0 :: "pyfloat \<Rightarrow> bool" where
  "float_ne0 (Fin r) = (r \<noteq> 0)"
| "float_ne0 PosInf = True"
| "float_ne0 NegInf = True"
| "float_ne0 NaN = True"

text \<open>\<^verbatim>\<open>v > 0\<close>: defined on numbers (a bool is an int), a \<^verbatim>\<open>TypeError\<close> on anything else.\<close>

fun py_gt0 :: "pyval \<Rightarrow> exc + bool" where
  "py_gt0 (PBool b) = Inr b"
| "py_gt0 (PInt i) = Inr (0 < i)"
| "py_gt0 (PFloat f) = Inr (float_gt0 f)"
| "py_gt0 PNone = Inl TypeError"
| "py_gt0 (PStr s) = Inl TypeError"
| "py_gt0 (PList xs) = Inl TypeError"
| "py_gt0 (PTuple xs) = Inl TypeError"

text \<open>\<^verbatim>\<open>v != 0\<close>: defined on every value; a value that is no number differs from 0.\<close>

fun py_ne0 :: "pyval \<Rightarrow> bool" where
  "py_ne0 (PBool b) = b"
| "py_ne0 (PInt i) = (i \<noteq> 0)"
| "py_ne0 (PFloat f) = float_ne0 f"
| "py_ne0 PNone = True"
| "py_ne0 (PStr s) = True"
| "py_ne0 (PList xs) = True"
| "py_ne0 (PTuple xs) = True"

text \<open>The truth value of a value, as \<^verbatim>\<open>if v:\<close> takes it.\<close>

fun truthy :: "pyval \<Rightarrow> bool" where
  "truthy PNone = False"
| "truthy (PBool b) = b"
| "truthy (PInt i) = (i \<noteq> 0)"
| "truthy (PFloat f) = float_ne0 f"
| "truthy (PStr s) = (s \<noteq> [])"
| "truthy (PList xs) = (xs \<noteq> [])"
| "truthy (PTuple xs) = (xs \<noteq> [])"

text \<open>\<^verbatim>\<open>for v in x\<close>: the elements of a list or tuple, the characters of a string, a
  \<^verbatim>\<open>TypeError\<close> for a value that is not iterable.\<close>

fun py_iter :: "pyval \<Rightarrow> exc + pyval list" where
  "py_iter (PList xs) = Inr xs"
| "py_iter (PTuple xs) = Inr xs"
| "py_iter (PStr s) = Inr (map (\<lambda>c. PStr [c]) s)"
| "py_iter PNone = Inl TypeError"
| "py_iter (PBool b) = Inl TypeError"
| "py_iter (PInt i) = Inl TypeError"
| "py_iter (PFloat f) = Inl TypeError"

text \<open>\<^verbatim>\<open>any(v > 0 for v in xs)\<close> stops at the first element that is positive, and raises
  when an element before it cannot be compared.\<close>

fun any_gt0 :: "pyval list \<Rightarrow> exc + bool" where
  "any_gt0 [] = Inr False"
| "any_gt0 (v # vs) = py_or (py_gt0 v) (any_gt0 vs)"

definition any_gt0_in :: "pyval \<Rightarrow> exc + bool" where
  "any_gt0_in x = and_then (py_iter x) any_gt0"

text \<open>\<^verbatim>\<open>any(v != 0 for v in x)\<close>.\<close>

definition any_ne0_in :: "pyval \<Rightarrow> exc + bool" where
  "any_ne0_in x = and_then (py_iter x) (\<lambda>xs. Inr (list_ex py_ne0 xs))"

subsection \<open>Decimal text of an integer\<close>

definition digit_char :: "nat \<Rightarrow> char" where
  "digit_char d = ''0123456789'' ! d"

fun str_nat :: "nat \<Rightarrow> string" where
  "str_nat n = (if n < 10 then [digit_char n] else str_nat (n div 10) @ [digit_char (n mod 10)])"

declare str_nat.simps [simp del]

definition str_int :: "int \<Rightarrow> string" where
  "str_int i = (if i < 0 then CHR ''-'' # str_nat (nat (- i)) else str_nat (nat i))"

text \<open>
  \<^verbatim>\<open>str(v)\<close>, which an f-string applies to a value. The text of a float, a list or a
  tuple is the interpreter's business: the function \<open>other\<close> stands for it.
\<close>

fun py_str :: "(pyval \<Rightarrow> string) \<Rightarrow> pyval \<Rightarrow> string" where
  "py_str other PNone = ''None''"
| "py_str other (PBool b) = (if b then ''True'' else ''False'')"
| "py_str other (PInt i) = str_int i"
| "py_str other (PStr s) = s"
| "py_str other v = other v"

text \<open>\<^verbatim>\<open>sep.join(xs)\<close>.\<close>

fun join :: "string \<Rightarrow> string list \<Rightarrow> string" where
  "join sep [] = []"
| "join sep [x] = x"
| "join sep (x # y # ys) = x @ sep @ join sep (y # ys)"

section \<open>naming.py: the category of a run\<close>

text \<open>
  \<^verbatim>\<open>determine_category\<close> collects the tokens of the active features in the list
  \<^verbatim>\<open>active_features\<close>, one block of the function after the other, and then builds the
  category from the list. Each block is a function from the list so far to the list after
  it, or to the exception the block raises.
\<close>

definition spiral_active :: "params \<Rightarrow> exc + bool" where
  "spiral_active ps =
     py_or (py_gt0 (get ps ''h_spiral_amp'' (PInt 0))) (py_gt0 (get ps ''sig_spiral_amp'' (PInt 0)))"

definition spiral_token :: "(pyval \<Rightarrow> string) \<Rightarrow> params \<Rightarrow> exc + string" where
  "spiral_token other ps =
     (let n_arms = get ps ''n_arms'' (PInt 0) in
      and_then (py_gt0 n_arms)
        (\<lambda>arms. if arms then Inr (''spiral_'' @ py_str other n_arms @ ''arms'') else Inr ''spiral''))"

definition check_spiral :: "(pyval \<Rightarrow> string) \<Rightarrow> params \<Rightarrow> string list \<Rightarrow> exc + string list" where
  "check_spiral other ps active_features =
     and_then (spiral_active ps)
       (\<lambda>spiral. if spiral then
           and_then (spiral_token other ps) (\<lambda>token. Inr (active_features @ [token]))
         else Inr active_features)"

definition is_list_or_tuple :: "pyval \<Rightarrow> bool" where
  "is_list_or_tuple v = (case v of PList xs \<Rightarrow> True | PTuple xs \<Rightarrow> True | _ \<Rightarrow> False)"

definition has_vortex :: "params \<Rightarrow> exc + bool" where
  "has_vortex ps =
     (let vortex_h = get ps ''h_vortex_amp'' (PList [PFloat (Fin 0), PFloat (Fin 0)]);
          vortex_sig = get ps ''sig_vortex_amp'' (PList [PFloat (Fin 0), PFloat (Fin 0)])
      in if is_list_or_tuple vortex_h then py_or (any_gt0_in vortex_h) (any_gt0_in vortex_sig)
         else py_or (py_gt0 vortex_h) (py_gt0 vortex_sig))"

definition check_vortex :: "params \<Rightarrow> string list \<Rightarrow> exc + string list" where
  "check_vortex ps active_features =
     and_then (has_vortex ps)
       (\<lambda>v. if v then Inr (active_features @ [''vortex'']) else Inr active_features)"

definition zeros5 :: pyval where
  "zeros5 = PList [PFloat (Fin 0), PFloat (Fin 0), PFloat (Fin 0), PFloat (Fin 0), PFloat (Fin 0)]"

definition has_fourier :: "params \<Rightarrow> exc + bool" where
  "has_fourier ps =
     (let fourier_h_a = get ps ''h_fourier_aj'' zeros5;
          fourier_h_b = get ps ''h_fourier_bj'' zeros5;
          fourier_sig_a = get ps ''sig_fourier_aj'' zeros5;
          fourier_sig_b = get ps ''sig_fourier_bj'' zeros5
      in py_or (any_ne0_in fourier_h_a)
          (py_or (any_ne0_in fourier_h_b)
            (py_or (any_ne0_in fourier_sig_a) (any_ne0_in fourier_sig_b))))"

definition check_fourier :: "params \<Rightarrow> string list \<Rightarrow> exc + string list" where
  "check_fourier ps active_features =
     and_then (has_fourier ps)
       (\<lambda>f. if f then Inr (active_features @ [''fourier'']) else Inr active_features)"

text \<open>The three flags: \<^verbatim>\<open>if params.get(key, False): active_features.append(token)\<close>.\<close>

definition check_flag :: "params \<Rightarrow> string \<Rightarrow> string \<Rightarrow> string list \<Rightarrow> string list" where
  "check_flag ps key token active_features =
     (if truthy (get ps key (PBool False)) then active_features @ [token] else active_features)"

definition category_of :: "string list \<Rightarrow> string" where
  "category_of active_features =
     (if length active_features = 0 then ''baseline''
      else if length active_features = 1 then active_features ! 0
      else ''combined_'' @ join ''_'' active_features)"

definition determine_category :: "(pyval \<Rightarrow> string) \<Rightarrow> params \<Rightarrow> exc + string" where
  "determine_category other ps =
     and_then (check_spiral other ps [])
       (\<lambda>f1. and_then (check_vortex ps f1)
         (\<lambda>f2. and_then (check_fourier ps f2)
           (\<lambda>f3. Inr (category_of
              (check_flag ps ''use_radial_damping'' ''damping''
                (check_flag ps ''use_inner_edge_shadow'' ''inner_edge''
                  (check_flag ps ''enable_warp'' ''warp'' f3)))))))"

subsection \<open>The composition rule and the expected types, as the specification words them\<close>

text \<open>
  The specification describes the category by a table of tokens in a fixed order, each with
  the truth value of its predicate: the tokens whose predicate holds are kept, in the order
  of the table, and composed.
\<close>

definition spec_category :: "(string \<times> bool) list \<Rightarrow> string" where
  "spec_category table =
     (case map fst (filter snd table) of
        [] \<Rightarrow> ''baseline''
      | [t] \<Rightarrow> t
      | t # u # ts \<Rightarrow> ''combined_'' @ join ''_'' (t # u # ts))"

text \<open>
  The types the function is written for: a number where it compares with \<^verbatim>\<open>> 0\<close>,
  two sequences of numbers or two numbers for the amplitudes of the vortex, an iterable
  for each vector of Fourier coefficients. A parameter that is absent has its default.
\<close>

definition is_number :: "pyval \<Rightarrow> bool" where
  "is_number v = (case v of PBool b \<Rightarrow> True | PInt i \<Rightarrow> True | PFloat f \<Rightarrow> True | _ \<Rightarrow> False)"

definition is_number_seq :: "pyval \<Rightarrow> bool" where
  "is_number_seq v =
     (case v of PList xs \<Rightarrow> list_all is_number xs | PTuple xs \<Rightarrow> list_all is_number xs | _ \<Rightarrow> False)"

definition is_iterable :: "pyval \<Rightarrow> bool" where
  "is_iterable v = (case v of PList xs \<Rightarrow> True | PTuple xs \<Rightarrow> True | PStr s \<Rightarrow> True | _ \<Rightarrow> False)"

definition expected_types :: "params \<Rightarrow> bool" where
  "expected_types ps =
     (let vortex_h = get ps ''h_vortex_amp'' (PList [PFloat (Fin 0), PFloat (Fin 0)]);
          vortex_sig = get ps ''sig_vortex_amp'' (PList [PFloat (Fin 0), PFloat (Fin 0)])
      in is_number (get ps ''h_spiral_amp'' (PInt 0))
       \<and> is_number (get ps ''sig_spiral_amp'' (PInt 0))
       \<and> is_number (get ps ''n_arms'' (PInt 0))
       \<and> (is_number_seq vortex_h \<and> is_number_seq vortex_sig
            \<or> is_number vortex_h \<and> is_number vortex_sig)
       \<and> is_iterable (get ps ''h_fourier_aj'' zeros5)
       \<and> is_iterable (get ps ''h_fourier_bj'' zeros5)
       \<and> is_iterable (get ps ''sig_fourier_aj'' zeros5)
       \<and> is_iterable (get ps ''sig_fourier_bj'' zeros5))"

section \<open>Effects: the trace of a run, the world, the environment\<close>

text \<open>
  Text is a list of bytes (UTF-8). The few characters outside ASCII that the messages of
  the program use are written as their bytes.
\<close>

definition newline :: string where
  "newline = [CHR 0x0A]"

definition arrow :: string where
  "arrow = [CHR 0xE2, CHR 0x86, CHR 0x92]"

definition check_mark :: string where
  "check_mark = [CHR 0xE2, CHR 0x9C, CHR 0x93]"

definition ballot_x :: string where
  "ballot_x = [CHR 0xE2, CHR 0x9C, CHR 0x97]"

definition micro :: string where
  "micro = [CHR 0xC2, CHR 0xB5]"

definition quote :: string where
  "quote = [CHR 0x27]"

text \<open>
  Everything a run does to the outside is an event of its trace, in the order in which it
  happens: a method call that the tracker receives, a line printed with \<^verbatim>\<open>print\<close>, a
  renderable handed to the console of the \<^verbatim>\<open>rich\<close> library, a record of the \<^verbatim>\<open>logging\<close>
  module (the persistent log of the run), the start and the exit of a solver process, a
  call into a library that works in this process, a write to a file, and a system call
  on the table of file descriptors.
\<close>

datatype level = INFO | ERROR

datatype tracker_op =
    OpStart
  | OpStop
  | OpStartPhase string
  | OpCompletePhase string
  | OpLog string
  | OpSetPhaseTotal int
  | OpUpdateProgress int
  | OpPrintSummary

datatype fd_op = FdOpen string nat | FdDup nat nat | FdDup2 nat nat | FdClose nat

datatype event =
    Call tracker_op
  | Print string
  | ConsolePrint string
  | ConsoleTable "(string \<times> string) list"
  | Logging level string
  | ProgressStart
  | ProgressStop
  | Spawn "string list" bool
  | Passthrough "string list"
  | Exit int
  | LibCall string
  | FileWrite string string
  | Sys fd_op

text \<open>A task of a \<^verbatim>\<open>rich.progress.Progress\<close> display.\<close>

record task =
  task_description :: string
  task_total :: "int option"
  task_completed :: int
  task_visible :: bool

text \<open>The fields of an \<^verbatim>\<open>AdvancedPhaseTracker\<close> of \<^verbatim>\<open>terminal_ui.py\<close>.\<close>

record adv =
  phases :: "string list"
  estimated_times :: "string \<rightharpoonup> pyval"
  current_phase_idx :: int
  start_time :: rat
  phase_start_time :: "rat option"
  phase_times :: "string \<rightharpoonup> rat"
  overall_task :: task
  phase_task :: task

datatype tracker = RawTracker | AdvancedPhaseTracker adv

text \<open>
  The table of file descriptors of the process: entry \<open>fd\<close> is the file that descriptor
  \<open>fd\<close> is open on, or \<open>None\<close>.
\<close>

type_synonym fdtable = "string option list"

record world =
  events :: "event list"
  fds :: fdtable
  ticks :: nat
  tracker :: tracker

text \<open>
  What a run reads from outside the program: the clock (the value of the \<open>k\<close>-th reading),
  the text of a time stamp, of a float, of any other value and of an exception, the working
  directory, the splitting of a command line by \<^verbatim>\<open>shlex.split\<close>, the search path, the
  output lines and the exit status of a solver process, the parsing of a float from a
  string, and the outcome of each library call that works in this process.
\<close>

record env =
  time_at :: "nat \<Rightarrow> rat"
  strftime :: "nat \<Rightarrow> string"
  fmt_fixed :: "nat \<Rightarrow> rat \<Rightarrow> string"
  str_other :: "pyval \<Rightarrow> string"
  exc_text :: "exc \<Rightarrow> string"
  getcwd :: string
  shlex_split :: "string \<Rightarrow> exc + string list"
  which :: "string \<Rightarrow> bool"
  subprocess :: "string list \<Rightarrow> string list \<times> int"
  parse_float :: "string \<Rightarrow> pyfloat option"
  lib :: "string \<Rightarrow> exc option"
  path_exists :: "string \<Rightarrow> bool"
  getsize :: "string \<Rightarrow> nat"

text \<open>
  A statement is a function from the world to the exception it raises, if any, and the
  world after it. A list of statements runs until the first exception.
\<close>

type_synonym step = "world \<Rightarrow> exc option \<times> world"

fun run_steps :: "step list \<Rightarrow> step" where
  "run_steps [] w = (None, w)"
| "run_steps (s # ss) w = (case s w of (Some e, w') \<Rightarrow> (Some e, w') | (None, w') \<Rightarrow> run_steps ss w')"

text \<open>A statement that cannot raise.\<close>

definition pure :: "(world \<Rightarrow> world) \<Rightarrow> step" where
  "pure f w = (None, f w)"

text \<open>\<^verbatim>\<open>try: body finally: cleanup\<close>: an exception of the clean-up replaces the one of
  the body.\<close>

definition try_finally :: "step \<Rightarrow> step \<Rightarrow> step" where
  "try_finally body cleanup w =
     (case body w of (r, w1) \<Rightarrow>
        (case cleanup w1 of (Some e, w2) \<Rightarrow> (Some e, w2) | (None, w2) \<Rightarrow> (r, w2)))"

definition emit :: "event \<Rightarrow> world \<Rightarrow> world" where
  "emit e w = w\<lparr>events := events w @ [e]\<rparr>"

text \<open>\<^verbatim>\<open>print(text)\<close> writes the text and a newline.\<close>

definition py_print :: "string \<Rightarrow> world \<Rightarrow> world" where
  "py_print text = emit (Print (text @ newline))"

definition console_print :: "string \<Rightarrow> world \<Rightarrow> world" where
  "console_print markup = emit (ConsolePrint markup)"

definition logging :: "level \<Rightarrow> string \<Rightarrow> world \<Rightarrow> world" where
  "logging lvl msg = emit (Logging lvl msg)"

text \<open>\<^verbatim>\<open>time.time()\<close>: one more reading of the clock.\<close>

definition time_time :: "env \<Rightarrow> world \<Rightarrow> rat \<times> world" where
  "time_time env w = (time_at env (ticks w), w\<lparr>ticks := Suc (ticks w)\<rparr>)"

text \<open>\<^verbatim>\<open>time.strftime("%Y-%m-%d %H:%M:%S")\<close>: the text of one more reading.\<close>

definition time_strftime :: "env \<Rightarrow> world \<Rightarrow> string \<times> world" where
  "time_strftime env w = (strftime env (ticks w), w\<lparr>ticks := Suc (ticks w)\<rparr>)"

text \<open>A call into a library that works in this process, and may raise.\<close>

definition lib_call :: "env \<Rightarrow> string \<Rightarrow> step" where
  "lib_call env name w = (lib env name, emit (LibCall name) w)"

text \<open>\<^verbatim>\<open>params[key]\<close> raises a \<^verbatim>\<open>KeyError\<close> for a key that is absent.\<close>

definition require_key :: "params \<Rightarrow> string \<Rightarrow> step" where
  "require_key ps k w = (case ps k of None \<Rightarrow> (Some (KeyError k), w) | Some v \<Rightarrow> (None, w))"

text \<open>\<^verbatim>\<open>int(x)\<close> of a float cuts the fraction off.\<close>

definition trunc :: "rat \<Rightarrow> int" where
  "trunc r = (if 0 \<le> r then \<lfloor>r\<rfloor> else \<lceil>r\<rceil>)"

section \<open>The tracker of the raw mode (single_run.py)\<close>

text \<open>
  The eight methods of \<^verbatim>\<open>RawTracker\<close>. Six have the body \<^verbatim>\<open>pass\<close>; the two phase
  methods print one f-string each.
\<close>

definition raw_start :: "world \<Rightarrow> world" where
  "raw_start w = w"

definition raw_stop :: "world \<Rightarrow> world" where
  "raw_stop w = w"

definition raw_start_phase :: "string \<Rightarrow> world \<Rightarrow> world" where
  "raw_start_phase name w = py_print (newline @ ''>>> Starting Phase: '' @ name) w"

definition raw_complete_phase :: "string \<Rightarrow> world \<Rightarrow> world" where
  "raw_complete_phase name w = py_print (''>>> Completed Phase: '' @ name @ newline) w"

definition raw_log :: "string \<Rightarrow> world \<Rightarrow> world" where
  "raw_log msg w = w"

definition raw_set_phase_total :: "int \<Rightarrow> world \<Rightarrow> world" where
  "raw_set_phase_total n w = w"

definition raw_update_progress :: "int \<Rightarrow> world \<Rightarrow> world" where
  "raw_update_progress n w = w"

definition raw_print_summary :: "world \<Rightarrow> world" where
  "raw_print_summary w = w"

section \<open>The tracker of the advanced mode (terminal_ui.py)\<close>

subsection \<open>The progress display of the library\<close>

text \<open>
  \<^verbatim>\<open>Progress.update(task, total=, completed=, description=, visible=)\<close> of \<^verbatim>\<open>rich\<close>
  changes the fields that are given; an argument that is \<^verbatim>\<open>None\<close> (the default) leaves
  its field as it is. \<^verbatim>\<open>Progress.reset(task)\<close> sets the completed count to 0.
  \<^verbatim>\<open>Progress.add_task\<close> makes a task with a completed count of 0.
\<close>

definition progress_update :: "int option \<Rightarrow> int option \<Rightarrow> string option \<Rightarrow> bool option \<Rightarrow> task \<Rightarrow> task" where
  "progress_update new_total completed description visible t =
     (let t1 = (case new_total of None \<Rightarrow> t | Some n \<Rightarrow> t\<lparr>task_total := Some n\<rparr>);
          t2 = (case completed of None \<Rightarrow> t1 | Some c \<Rightarrow> t1\<lparr>task_completed := c\<rparr>);
          t3 = (case description of None \<Rightarrow> t2 | Some d \<Rightarrow> t2\<lparr>task_description := d\<rparr>)
      in (case visible of None \<Rightarrow> t3 | Some v \<Rightarrow> t3\<lparr>task_visible := v\<rparr>))"

definition progress_reset :: "task \<Rightarrow> task" where
  "progress_reset t = t\<lparr>task_completed := 0\<rparr>"

definition add_task :: "string \<Rightarrow> int option \<Rightarrow> bool \<Rightarrow> task" where
  "add_task description new_total visible =
     \<lparr>task_description = description, task_total = new_total, task_completed = 0, task_visible = visible\<rparr>"

subsection \<open>The methods of \<^verbatim>\<open>AdvancedPhaseTracker\<close>\<close>

text \<open>\<^verbatim>\<open>__init__(self, phases, estimated_times)\<close>.\<close>

definition adv_init :: "env \<Rightarrow> string list \<Rightarrow> (string \<rightharpoonup> pyval) \<Rightarrow> world \<Rightarrow> adv \<times> world" where
  "adv_init env phase_names estimates w =
     (case time_time env w of (now, w1) \<Rightarrow>
       (\<lparr>phases = phase_names,
         estimated_times = estimates,
         current_phase_idx = - 1,
         start_time = now,
         phase_start_time = None,
         phase_times = Map.empty,
         overall_task = add_task ''Total'' (Some (int (length phase_names))) True,
         phase_task = add_task ''Waiting...'' None False\<rparr>, w1))"

definition adv_start :: "adv \<Rightarrow> world \<Rightarrow> adv \<times> world" where
  "adv_start self w = (self, emit ProgressStart w)"

definition adv_stop :: "adv \<Rightarrow> world \<Rightarrow> adv \<times> world" where
  "adv_stop self w = (self, emit ProgressStop w)"

text \<open>\<^verbatim>\<open>message.replace("[", "\\[")\<close>: a backslash before every opening bracket.\<close>

definition escape_brackets :: "string \<Rightarrow> string" where
  "escape_brackets message =
     concat (map (\<lambda>c. if c = CHR ''['' then [CHR 0x5C, CHR ''[''] else [c]) message)"

definition adv_log :: "string \<Rightarrow> adv \<Rightarrow> world \<Rightarrow> adv \<times> world" where
  "adv_log message self w =
     (let message1 = (if CHR ''['' \<in> set message \<and> CHR '']'' \<notin> set message
                      then escape_brackets message else message)
      in (self, console_print (''  '' @ message1) w))"

definition adv_set_phase_total :: "int \<Rightarrow> adv \<Rightarrow> world \<Rightarrow> adv \<times> world" where
  "adv_set_phase_total total_steps self w =
     (self\<lparr>phase_task := progress_update (Some total_steps) (Some 0) None None (phase_task self)\<rparr>, w)"

definition adv_update_progress :: "int \<Rightarrow> adv \<Rightarrow> world \<Rightarrow> adv \<times> world" where
  "adv_update_progress step self w =
     (self\<lparr>phase_task := progress_update None (Some step) None None (phase_task self)\<rparr>, w)"

text \<open>\<^verbatim>\<open>xs.index(x)\<close>: the first position of \<open>x\<close>, if it has one.\<close>

fun index_of :: "'a \<Rightarrow> 'a list \<Rightarrow> nat option" where
  "index_of x [] = None"
| "index_of x (y # ys) = (if x = y then Some 0 else map_option Suc (index_of x ys))"

definition adv_start_phase :: "env \<Rightarrow> string \<Rightarrow> adv \<Rightarrow> world \<Rightarrow> exc option \<times> adv \<times> world" where
  "adv_start_phase env phase_name self w =
     (case index_of phase_name (phases self) of
        None \<Rightarrow> (Some ValueError, self, w)
      | Some i \<Rightarrow>
         (case time_time env w of (now, w1) \<Rightarrow>
           (let self1 = self\<lparr>current_phase_idx := int i, phase_start_time := Some now\<rparr>;
                self2 = self1\<lparr>overall_task :=
                          progress_update None (Some (current_phase_idx self1)) None None (overall_task self1)\<rparr>;
                estimated = (case estimated_times self2 phase_name of None \<Rightarrow> PNone | Some v \<Rightarrow> v);
                desc = ''[yellow]'' @ phase_name @ ''[/yellow]''
                       @ (if truthy estimated then '' (~'' @ py_str (str_other env) estimated @ '' min)'' else []);
                self3 = self2\<lparr>phase_task :=
                          progress_update None None (Some desc) (Some True) (progress_reset (phase_task self2))\<rparr>
            in (case adv_log (''[bold bright_green]'' @ arrow @ ''[/bold bright_green] Starting: [bold bright_green]''
                              @ phase_name @ ''[/bold bright_green]'') self3 w1
                of (self4, w2) \<Rightarrow> (None, self4, w2)))))"

definition adv_complete_phase :: "env \<Rightarrow> string \<Rightarrow> adv \<Rightarrow> world \<Rightarrow> adv \<times> world" where
  "adv_complete_phase env phase_name self w =
     (case (case phase_start_time self of
              None \<Rightarrow> (self, w)
            | Some started \<Rightarrow>
                if started = 0 then (self, w)
                else (case time_time env w of (now, w1) \<Rightarrow>
                  (let duration = now - started;
                       self1 = self\<lparr>phase_times := (phase_times self)(phase_name \<mapsto> duration)\<rparr>;
                       duration_str = str_int (trunc duration) @ ''s''
                   in adv_log (''[bold bright_green]'' @ check_mark @ ''[/bold bright_green] Done: [bold]''
                               @ phase_name @ ''[/bold] [bright_green]('' @ duration_str @ '')[/bright_green]'')
                        self1 w1)))
      of (self2, w2) \<Rightarrow>
        (let self3 = self2\<lparr>overall_task :=
                        progress_update None (Some (current_phase_idx self2 + 1)) None None (overall_task self2)\<rparr>;
             self4 = self3\<lparr>phase_task :=
                        progress_update None (Some 100) None None (phase_task self3)\<rparr>
         in (self4, w2)))"

definition adv_print_summary :: "env \<Rightarrow> adv \<Rightarrow> world \<Rightarrow> adv \<times> world" where
  "adv_print_summary env self w =
     (let w1 = console_print (newline @ ''[bold]Summary:[/bold]'') w;
          rows = map (\<lambda>phase. case phase_times self phase of
                                 Some d \<Rightarrow> (phase, fmt_fixed env 1 d @ ''s'')
                               | None \<Rightarrow> (phase, ''skipped''))
                     (phases self)
      in (self, emit (ConsoleTable rows) w1))"

subsection \<open>A call of a method on the tracker of the run\<close>

text \<open>
  The orchestrator and the command runner call the tracker through its eight methods and
  do not know which of the two classes it is. The call is recorded in the trace, then the
  method of the class runs; the tracker of the advanced mode is stored back with its new
  fields.
\<close>

definition raw_method :: "tracker_op \<Rightarrow> world \<Rightarrow> world" where
  "raw_method op w =
     (case op of
        OpStart \<Rightarrow> raw_start w
      | OpStop \<Rightarrow> raw_stop w
      | OpStartPhase name \<Rightarrow> raw_start_phase name w
      | OpCompletePhase name \<Rightarrow> raw_complete_phase name w
      | OpLog msg \<Rightarrow> raw_log msg w
      | OpSetPhaseTotal n \<Rightarrow> raw_set_phase_total n w
      | OpUpdateProgress n \<Rightarrow> raw_update_progress n w
      | OpPrintSummary \<Rightarrow> raw_print_summary w)"

definition adv_method :: "env \<Rightarrow> tracker_op \<Rightarrow> adv \<Rightarrow> world \<Rightarrow> exc option \<times> adv \<times> world" where
  "adv_method env op self w =
     (case op of
        OpStart \<Rightarrow> (None, adv_start self w)
      | OpStop \<Rightarrow> (None, adv_stop self w)
      | OpStartPhase name \<Rightarrow> adv_start_phase env name self w
      | OpCompletePhase name \<Rightarrow> (None, adv_complete_phase env name self w)
      | OpLog msg \<Rightarrow> (None, adv_log msg self w)
      | OpSetPhaseTotal n \<Rightarrow> (None, adv_set_phase_total n self w)
      | OpUpdateProgress n \<Rightarrow> (None, adv_update_progress n self w)
      | OpPrintSummary \<Rightarrow> (None, adv_print_summary env self w))"

definition tracker_call :: "env \<Rightarrow> tracker_op \<Rightarrow> step" where
  "tracker_call env op w =
     (let w1 = emit (Call op) w in
      case tracker w1 of
        RawTracker \<Rightarrow> (None, raw_method op w1)
      | AdvancedPhaseTracker self \<Rightarrow>
          (case adv_method env op self w1 of
             (r, self', w2) \<Rightarrow> (r, w2\<lparr>tracker := AdvancedPhaseTracker self'\<rparr>)))"

section \<open>The scoped suppression of output (single_run.py)\<close>

text \<open>
  The system calls on the table of file descriptors. A new descriptor is the lowest one
  that is free. A call on a descriptor that is not open raises an \<^verbatim>\<open>OSError\<close>.
\<close>

fun alloc_fd :: "string \<Rightarrow> fdtable \<Rightarrow> nat \<times> fdtable" where
  "alloc_fd t [] = (0, [Some t])"
| "alloc_fd t (None # tab) = (0, Some t # tab)"
| "alloc_fd t (Some x # tab) = (case alloc_fd t tab of (n, tab') \<Rightarrow> (Suc n, Some x # tab'))"

definition fd_target :: "fdtable \<Rightarrow> nat \<Rightarrow> string option" where
  "fd_target tab fd = (if fd < length tab then tab ! fd else None)"

definition set_fd :: "nat \<Rightarrow> string option \<Rightarrow> fdtable \<Rightarrow> fdtable" where
  "set_fd fd x tab =
     (if fd < length tab then tab[fd := x] else tab @ replicate (fd - length tab) None @ [x])"

definition os_open :: "string \<Rightarrow> world \<Rightarrow> nat \<times> world" where
  "os_open path w =
     (case alloc_fd path (fds w) of (fd, tab) \<Rightarrow> (fd, emit (Sys (FdOpen path fd)) (w\<lparr>fds := tab\<rparr>)))"

definition os_dup :: "nat \<Rightarrow> world \<Rightarrow> (exc + nat) \<times> world" where
  "os_dup fd w =
     (case fd_target (fds w) fd of
        None \<Rightarrow> (Inl OSError, w)
      | Some t \<Rightarrow> (case alloc_fd t (fds w) of
                    (new, tab) \<Rightarrow> (Inr new, emit (Sys (FdDup fd new)) (w\<lparr>fds := tab\<rparr>))))"

definition os_dup2 :: "nat \<Rightarrow> nat \<Rightarrow> step" where
  "os_dup2 fd fd2 w =
     (case fd_target (fds w) fd of
        None \<Rightarrow> (Some OSError, w)
      | Some t \<Rightarrow> (None, emit (Sys (FdDup2 fd fd2)) (w\<lparr>fds := set_fd fd2 (Some t) (fds w)\<rparr>)))"

definition os_close :: "nat \<Rightarrow> step" where
  "os_close fd w =
     (case fd_target (fds w) fd of
        None \<Rightarrow> (Some OSError, w)
      | Some t \<Rightarrow> (None, emit (Sys (FdClose fd)) (w\<lparr>fds := set_fd fd None (fds w)\<rparr>)))"

text \<open>
  \<^verbatim>\<open>with suppress_output(): body\<close>. The context manager opens the null device, keeps
  copies of the descriptors 1 and 2, points both at the null device, runs the body, and in
  its \<^verbatim>\<open>finally\<close> block points them back and closes the copies; leaving the \<^verbatim>\<open>with\<close> block
  of the null device closes it.
\<close>

definition suppress_output :: "step \<Rightarrow> step" where
  "suppress_output body w =
     (case os_open ''/dev/null'' w of (devnull, w1) \<Rightarrow>
        try_finally
          (\<lambda>w1. case os_dup 1 w1 of
                   (Inl e, w2) \<Rightarrow> (Some e, w2)
                 | (Inr old_stdout, w2) \<Rightarrow>
                    (case os_dup 2 w2 of
                       (Inl e, w3) \<Rightarrow> (Some e, w3)
                     | (Inr old_stderr, w3) \<Rightarrow>
                        try_finally
                          (run_steps [os_dup2 devnull 1, os_dup2 devnull 2, body])
                          (run_steps [os_dup2 old_stdout 1, os_dup2 old_stderr 2,
                                      os_close old_stdout, os_close old_stderr])
                          w3))
          (os_close devnull) w1)"

section \<open>The command runner (single_run.py)\<close>

subsection \<open>Reading the photon count from a line\<close>

text \<open>
  The white space of \<^verbatim>\<open>str.strip()\<close> and of \<^verbatim>\<open>\s\<close>, and the digits of \<^verbatim>\<open>\d\<close>, within
  ASCII (the solver writes ASCII).
\<close>

definition is_space :: "char \<Rightarrow> bool" where
  "is_space c = (c \<in> set [CHR 0x09, CHR 0x0A, CHR 0x0B, CHR 0x0C, CHR 0x0D,
                           CHR 0x1C, CHR 0x1D, CHR 0x1E, CHR 0x1F, CHR 0x20])"

definition is_digit :: "char \<Rightarrow> bool" where
  "is_digit c = (c \<in> set ''0123456789'')"

definition strip :: "string \<Rightarrow> string" where
  "strip s = rev (dropWhile is_space (rev (dropWhile is_space s)))"

text \<open>A word of the pattern, matched without regard to case: each letter is given with
  its capital.\<close>

fun match_word :: "(char \<times> char) list \<Rightarrow> string \<Rightarrow> string option" where
  "match_word [] s = Some s"
| "match_word ((l, u) # ps) [] = None"
| "match_word ((l, u) # ps) (c # cs) = (if c = l \<or> c = u then match_word ps cs else None)"

text \<open>\<^verbatim>\<open>\s+\<close>: one white space character at least, and all that follow.\<close>

definition match_spaces :: "string \<Rightarrow> string option" where
  "match_spaces s = (case s of [] \<Rightarrow> None
                     | c # cs \<Rightarrow> if is_space c then Some (dropWhile is_space cs) else None)"

text \<open>\<^verbatim>\<open>[:.]?\<close>.\<close>

definition match_separator :: "string \<Rightarrow> string" where
  "match_separator s = (case s of [] \<Rightarrow> []
                        | c # cs \<Rightarrow> if c = CHR '':'' \<or> c = CHR ''.'' then cs else c # cs)"

text \<open>\<^verbatim>\<open>(\d+)\<close>: the digits at the head of the text, one at least.\<close>

definition match_digits :: "string \<Rightarrow> string option" where
  "match_digits s = (if takeWhile is_digit s = [] then None else Some (takeWhile is_digit s))"

text \<open>
  The pattern \<^verbatim>\<open>Photon\s+nr[:.]?\s+(\d+)\<close> with \<^verbatim>\<open>re.IGNORECASE\<close>, matched at the head
  of a text. No part of the pattern can give characters back to the next: a letter, a
  separator and a digit are no white space. The result is the text of group 1.
\<close>

definition option_bind :: "'a option \<Rightarrow> ('a \<Rightarrow> 'b option) \<Rightarrow> 'b option" where
  "option_bind m f = (case m of None \<Rightarrow> None | Some x \<Rightarrow> f x)"

definition photon_match :: "string \<Rightarrow> string option" where
  "photon_match s =
     option_bind (match_word [(CHR ''p'', CHR ''P''), (CHR ''h'', CHR ''H''), (CHR ''o'', CHR ''O''),
                              (CHR ''t'', CHR ''T''), (CHR ''o'', CHR ''O''), (CHR ''n'', CHR ''N'')] s)
      (\<lambda>s1. option_bind (match_spaces s1)
        (\<lambda>s2. option_bind (match_word [(CHR ''n'', CHR ''N''), (CHR ''r'', CHR ''R'')] s2)
          (\<lambda>s3. option_bind (match_spaces (match_separator s3)) match_digits)))"

text \<open>\<^verbatim>\<open>photon_pattern.search(line)\<close>: the first position from the left where the pattern
  matches.\<close>

fun photon_search :: "string \<Rightarrow> string option" where
  "photon_search [] = None"
| "photon_search (c # cs) =
     (case photon_match (c # cs) of Some digits \<Rightarrow> Some digits | None \<Rightarrow> photon_search cs)"

text \<open>\<^verbatim>\<open>int(digits)\<close> of a text of digits.\<close>

definition digit_value :: "char \<Rightarrow> int" where
  "digit_value c = (case index_of c ''0123456789'' of None \<Rightarrow> 0 | Some d \<Rightarrow> int d)"

definition int_of_digits :: "string \<Rightarrow> int" where
  "int_of_digits ds = foldl (\<lambda>a c. 10 * a + digit_value c) 0 ds"

subsection \<open>Conversions of the photon total\<close>

text \<open>
  \<^verbatim>\<open>float(x)\<close> and \<^verbatim>\<open>int(f)\<close>. A count of photons is far below the integers that a
  float cannot hold, so the float of an int is the int.
\<close>

fun py_float :: "env \<Rightarrow> pyval \<Rightarrow> exc + pyfloat" where
  "py_float env (PInt i) = Inr (Fin (of_int i))"
| "py_float env (PBool b) = Inr (Fin (if b then 1 else 0))"
| "py_float env (PFloat f) = Inr f"
| "py_float env (PStr s) = (case parse_float env s of None \<Rightarrow> Inl ValueError | Some f \<Rightarrow> Inr f)"
| "py_float env PNone = Inl TypeError"
| "py_float env (PList xs) = Inl TypeError"
| "py_float env (PTuple xs) = Inl TypeError"

fun py_int_of_float :: "pyfloat \<Rightarrow> exc + int" where
  "py_int_of_float (Fin r) = Inr (trunc r)"
| "py_int_of_float PosInf = Inl OverflowError"
| "py_int_of_float NegInf = Inl OverflowError"
| "py_int_of_float NaN = Inl ValueError"

subsection \<open>\<^verbatim>\<open>run_radmc_command\<close>\<close>

definition raise_exc :: "exc \<Rightarrow> step" where
  "raise_exc e w = (Some e, w)"

definition skip :: step where
  "skip w = (None, w)"

text \<open>\<^verbatim>\<open>try: stmt except ValueError: handler\<close>.\<close>

definition except_ValueError :: "step \<Rightarrow> step \<Rightarrow> step" where
  "except_ValueError stmt handler w =
     (case stmt w of (Some ValueError, w1) \<Rightarrow> handler w1 | (r, w1) \<Rightarrow> (r, w1))"

text \<open>\<^verbatim>\<open>log_command(command_str)\<close>, with no working directory given.\<close>

definition log_command :: "env \<Rightarrow> string \<Rightarrow> world \<Rightarrow> world" where
  "log_command env command_str w =
     logging INFO (''[CWD] '' @ getcwd env) (logging INFO (''[CMD] '' @ command_str) w)"

text \<open>The lines that both modes write to the log when the process has ended.\<close>

definition log_return :: "env \<Rightarrow> int \<Rightarrow> rat \<Rightarrow> world \<Rightarrow> world" where
  "log_return env return_code cmd_start_time w =
     (case time_time env w of (now, w1) \<Rightarrow>
       (let cmd_duration = now - cmd_start_time;
            duration_str = (if cmd_duration < 60 then fmt_fixed env 2 cmd_duration @ ''s''
                            else fmt_fixed env 2 (cmd_duration / 60) @ ''min'')
        in logging INFO (''[CMD_DURATION] '' @ duration_str)
             (logging INFO (''[RETURN_CODE] '' @ str_int return_code) w1)))"

text \<open>The raw mode: \<^verbatim>\<open>subprocess.call\<close>; the output of the process goes to the terminal.\<close>

definition raw_mode :: "env \<Rightarrow> string \<Rightarrow> string list \<Rightarrow> rat \<Rightarrow> step" where
  "raw_mode env command_str cmd_args cmd_start_time w =
     (case subprocess env cmd_args of (out, return_code) \<Rightarrow>
       (let w1 = emit (Exit return_code) (emit (Passthrough out) (emit (Spawn cmd_args False) w));
            w2 = log_return env return_code cmd_start_time w1
        in if return_code \<noteq> 0 then
             (Some (RuntimeError (''Command failed: '' @ command_str)),
              logging ERROR (''Command failed with return code '' @ str_int return_code
                             @ '': '' @ command_str) w2)
           else (None, w2)))"

text \<open>The advanced mode, first part: the total of the progress bar.\<close>

definition set_total :: "env \<Rightarrow> pyval \<Rightarrow> step" where
  "set_total env total_photons =
     (if truthy total_photons then
        except_ValueError
          (\<lambda>w. case and_then (py_float env total_photons) py_int_of_float of
                  Inl e \<Rightarrow> (Some e, w)
                | Inr safe_total \<Rightarrow> tracker_call env (OpSetPhaseTotal safe_total) w)
          (tracker_call env
             (OpLog (''[yellow]Warning: Could not parse total_photons '' @ quote
                     @ py_str (str_other env) total_photons @ quote @ ''.[/yellow]'')))
      else skip)"

text \<open>The body of the loop over the lines of the process.\<close>

definition process_line :: "env \<Rightarrow> pyval \<Rightarrow> string \<Rightarrow> step" where
  "process_line env total_photons line =
     (let clean_line = strip line in
      if clean_line \<noteq> [] then
        run_steps
          [tracker_call env (OpLog (''[dim]'' @ clean_line @ ''[/dim]'')),
           (if truthy total_photons then
              (case photon_search clean_line of
                 Some digits \<Rightarrow>
                   except_ValueError
                     (tracker_call env (OpUpdateProgress (int_of_digits digits))) skip
               | None \<Rightarrow> skip)
            else skip)]
      else skip)"

text \<open>
  The advanced mode: \<^verbatim>\<open>subprocess.Popen\<close> with a pipe; \<^verbatim>\<open>iter(readline, '')\<close> ends at
  the first empty read.
\<close>

definition advanced_mode :: "env \<Rightarrow> string \<Rightarrow> string list \<Rightarrow> pyval \<Rightarrow> rat \<Rightarrow> step" where
  "advanced_mode env command_str cmd_args total_photons cmd_start_time =
     (case subprocess env cmd_args of (out, return_code) \<Rightarrow>
        run_steps
          [set_total env total_photons,
           pure (emit (Spawn cmd_args True)),
           run_steps (map (process_line env total_photons) (takeWhile (\<lambda>l. l \<noteq> []) out)),
           pure (emit (Exit return_code)),
           pure (log_return env return_code cmd_start_time),
           (if return_code \<noteq> 0 then
              run_steps
                [tracker_call env
                   (OpLog (''[red bold]Process failed with code '' @ str_int return_code @ ''[/red bold]'')),
                 pure (logging ERROR (''Command failed with return code '' @ str_int return_code
                                      @ '': '' @ command_str)),
                 raise_exc (RuntimeError (''Command failed: '' @ command_str))]
            else skip)])"

definition run_radmc_command :: "env \<Rightarrow> string \<Rightarrow> pyval \<Rightarrow> step" where
  "run_radmc_command env command_str total_photons w =
     (let w1 = log_command env command_str w in
      case time_time env w1 of (cmd_start_time, w2) \<Rightarrow>
       (case shlex_split env command_str of
          Inl e \<Rightarrow> (Some e, w2)
        | Inr cmd_args \<Rightarrow>
           (case cmd_args of
              [] \<Rightarrow> (Some IndexError, w2)
            | exe # rest \<Rightarrow>
               if \<not> which env exe then
                 (Some (FileNotFoundError (''Command not found: '' @ exe)),
                  logging ERROR (''Command not found: '' @ exe)
                    (py_print (''Error: Command '' @ quote @ exe @ quote @ '' not found!'') w2))
               else (case tracker w2 of
                       RawTracker \<Rightarrow> raw_mode env command_str cmd_args cmd_start_time w2
                     | AdvancedPhaseTracker self \<Rightarrow>
                         advanced_mode env command_str cmd_args total_photons cmd_start_time w2))))"

section \<open>The orchestrator (single_run.py)\<close>

subsection \<open>The helpers of the persistent log\<close>

definition log_phase_start :: "env \<Rightarrow> string \<Rightarrow> world \<Rightarrow> rat \<times> world" where
  "log_phase_start env phase_name w =
     (case time_strftime env w of (timestamp, w1) \<Rightarrow>
        time_time env
          (logging INFO (replicate 70 CHR ''='')
            (logging INFO (''[TIMESTAMP] '' @ timestamp)
              (logging INFO (''[PHASE_START] '' @ phase_name)
                (logging INFO (replicate 70 CHR ''='') w1)))))"

definition log_phase_end :: "env \<Rightarrow> string \<Rightarrow> rat \<Rightarrow> world \<Rightarrow> world" where
  "log_phase_end env phase_name started w =
     (case time_time env w of (end_time, w1) \<Rightarrow>
      (case time_strftime env w1 of (timestamp, w2) \<Rightarrow>
        (let duration = end_time - started;
             duration_str =
               (if duration < 60 then fmt_fixed env 2 duration @ '' seconds''
                else if duration < 3600 then
                  fmt_fixed env 2 (duration / 60) @ '' minutes ('' @ fmt_fixed env 1 duration @ '' seconds)''
                else fmt_fixed env 2 (duration / 3600) @ '' hours (''
                     @ fmt_fixed env 1 (duration / 60) @ '' minutes)'')
         in logging INFO []
             (logging INFO (replicate 70 CHR ''-'')
               (logging INFO (''[DURATION] '' @ duration_str)
                 (logging INFO (''[TIMESTAMP] '' @ timestamp)
                   (logging INFO (''[PHASE_END] '' @ phase_name)
                     (logging INFO (replicate 70 CHR ''-'') w2))))))))"

text \<open>\<^verbatim>\<open>print_error\<close> of terminal_ui.py.\<close>

definition print_error :: "string \<Rightarrow> world \<Rightarrow> world" where
  "print_error message = console_print (''[red]'' @ ballot_x @ ''[/red] '' @ message)"

text \<open>\<^verbatim>\<open>str(e)\<close>: the message of the exceptions that the program raises itself, the text
  that the interpreter gives for the others.\<close>

definition exc_str :: "env \<Rightarrow> exc \<Rightarrow> string" where
  "exc_str env e = (case e of RuntimeError m \<Rightarrow> m | FileNotFoundError m \<Rightarrow> m | _ \<Rightarrow> exc_text env e)"

text \<open>The text of a parameter in an f-string.\<close>

definition param_str :: "env \<Rightarrow> params \<Rightarrow> string \<Rightarrow> string" where
  "param_str env ps k = py_str (str_other env) (get ps k PNone)"

subsection \<open>The phases\<close>

text \<open>
  Every phase is written in the same way: \<^verbatim>\<open>tracker.start_phase(name)\<close>,
  \<^verbatim>\<open>phase_start = log_phase_start(name)\<close>, the statements of the phase,
  \<^verbatim>\<open>log_phase_end(name, phase_start)\<close>, \<^verbatim>\<open>tracker.complete_phase(name)\<close>.
\<close>

definition in_phase :: "env \<Rightarrow> string \<Rightarrow> step list \<Rightarrow> step" where
  "in_phase env name body =
     run_steps
       [tracker_call env (OpStartPhase name),
        (\<lambda>w. case log_phase_start env name w of
                (phase_start, w1) \<Rightarrow>
                  run_steps (body @ [pure (log_phase_end env name phase_start),
                                     tracker_call env (OpCompletePhase name)]) w1)]"

text \<open>A call of a set-up routine of the library, silenced in the advanced mode only.\<close>

definition silenced :: "bool \<Rightarrow> step \<Rightarrow> step" where
  "silenced use_silencer call = (if use_silencer then suppress_output call else call)"

definition phase_setup :: "env \<Rightarrow> bool \<Rightarrow> step" where
  "phase_setup env use_silencer =
     in_phase env ''Setup''
       [pure (logging INFO ''Starting RADMC-3D simulation''),
        silenced use_silencer (lib_call env ''analyze.writeDefaultParfile'')]"

text \<open>The parameters that the dictionary \<^verbatim>\<open>dust_setup_args\<close> reads, in its order.\<close>

definition dust_setup_keys :: "string list" where
  "dust_setup_keys =
     [''xbound'', ''nx'', ''ybound'', ''ny'', ''zbound'', ''nz'', ''wbound'', ''nw'',
      ''rstar'', ''mstar'', ''tstar'', ''istar_sphere'', ''mdisk'', ''sig0'', ''rin'',
      ''rdisk'', ''hrdisk'', ''hrpivot'', ''plsig1'', ''plh'', ''sigma_type'',
      ''hpr_prim_rout'', ''prim_rout'', ''srim_rout'', ''srim_plsig'', ''dustkappa'',
      ''gsmax'', ''gsmin'', ''mixabun'', ''nphot'', ''nphot_scat'', ''nphot_spec'',
      ''modified_random_walk'', ''scattering_mode_max'', ''h_fourier_aj'', ''h_fourier_bj'',
      ''sig_fourier_aj'', ''sig_fourier_bj'', ''h_modulation_strength'',
      ''h_asymmetry_factor'', ''sig_asymmetry_factor'', ''sig_modulation_strength'',
      ''h_spiral_amp'', ''sig_spiral_amp'', ''spiral_pitch'', ''n_arms'', ''spiral_width_phi'',
      ''spiral_sharpness'', ''h_vortex_amp'', ''h_vortex_phi0'', ''h_vortex_r0'',
      ''h_vortex_width_phi'', ''h_vortex_width_r'', ''sig_vortex_amp'', ''sig_vortex_phi0'',
      ''sig_vortex_r0'', ''sig_vortex_width_phi'', ''sig_vortex_width_r'',
      ''vortex_sharpness'', ''use_radial_damping'', ''azimuthal_r_max'', ''azimuthal_r_width'',
      ''enable_warp'', ''warp_amplitude'', ''warp_phase'', ''warp_mode'',
      ''use_inner_edge_shadow'', ''inner_edge_radius'', ''inner_edge_width'',
      ''inner_edge_height'', ''inner_edge_azimuthal'', ''inner_edge_phi'',
      ''inner_edge_phi_width'', ''vertical_steepness'']"

definition phase_configure :: "env \<Rightarrow> params \<Rightarrow> bool \<Rightarrow> step" where
  "phase_configure env ps use_silencer =
     in_phase env ''Configure Model''
       [tracker_call env (OpLog ''Writing input files...''),
        pure (logging INFO ''Writing RADMC-3D input files and grid setup''),
        run_steps (map (require_key ps) dust_setup_keys),
        silenced use_silencer (lib_call env ''setup.problemSetupDust''),
        lib_call env ''open radmc3d.inp'',
        require_key ps ''mc_scat_maxtauabs'',
        pure (emit (FileWrite ''radmc3d.inp''
                (''mc_scat_maxtauabs         = '' @ param_str env ps ''mc_scat_maxtauabs'' @ newline)))]"

definition phase_mctherm :: "env \<Rightarrow> params \<Rightarrow> pyval \<Rightarrow> step" where
  "phase_mctherm env ps threads =
     in_phase env ''MC Thermal''
       [require_key ps ''nphot'',
        run_radmc_command env
          (''radmc3d mctherm setthreads '' @ py_str (str_other env) threads @ '' sloppy'')
          (get ps ''nphot'' PNone)]"

definition phase_sed :: "env \<Rightarrow> params \<Rightarrow> pyval \<Rightarrow> step" where
  "phase_sed env ps threads =
     in_phase env ''SED Calculation''
       [require_key ps ''incl'',
        require_key ps ''nphot_spec'',
        run_radmc_command env
          (''radmc3d sed incl '' @ param_str env ps ''incl'' @ '' setthreads ''
           @ py_str (str_other env) threads @ '' sloppy'')
          (get ps ''nphot_spec'' PNone)]"

definition image_command :: "env \<Rightarrow> params \<Rightarrow> pyval \<Rightarrow> pyval \<Rightarrow> string" where
  "image_command env ps wavelength threads =
     ''radmc3d image '' @ ''npix '' @ param_str env ps ''npix'' @ '' ''
     @ ''incl '' @ param_str env ps ''incl'' @ '' ''
     @ ''sizeau '' @ param_str env ps ''sizeau'' @ '' ''
     @ ''lambda '' @ py_str (str_other env) wavelength @ '' ''
     @ ''phi '' @ param_str env ps ''phi'' @ '' ''
     @ ''setthreads '' @ py_str (str_other env) threads
     @ (if truthy (get ps ''nostar'' PNone) then '' nostar'' else [])"

definition phase_image :: "env \<Rightarrow> params \<Rightarrow> string \<Rightarrow> string \<Rightarrow> string \<Rightarrow> pyval \<Rightarrow> pyval \<Rightarrow> step" where
  "phase_image env ps run_dir name timestamp wavelength threads =
     in_phase env ''Generate Image''
       [tracker_call env
          (OpLog (''Computing image at '' @ py_str (str_other env) wavelength @ '' '' @ micro @ ''m...'')),
        pure (logging INFO
          (''Computing image at wavelength '' @ py_str (str_other env) wavelength @ '' '' @ micro @ ''m'')),
        require_key ps ''npix'',
        require_key ps ''incl'',
        require_key ps ''sizeau'',
        require_key ps ''phi'',
        require_key ps ''nostar'',
        run_radmc_command env (image_command env ps wavelength threads) PNone,
        lib_call env ''image.readImage'',
        require_key ps ''pc'',
        lib_call env (''im.writeFits Img_'' @ name @ ''_'' @ timestamp @ ''.fits''),
        lib_call env (''shutil.move Img_'' @ name @ ''_'' @ timestamp @ ''.fits''),
        lib_call env ''import matplotlib.pyplot'',
        lib_call env ''plt.figure'',
        lib_call env ''fig.add_subplot'',
        lib_call env ''image.plotImage'',
        lib_call env (''fig.savefig Image_'' @ name @ ''_'' @ timestamp @ ''.png''),
        lib_call env ''plt.close'',
        lib_call env (''shutil.move Image_'' @ name @ ''_'' @ timestamp @ ''.png'')]"

definition files_to_save :: "string \<Rightarrow> (string \<times> string) list" where
  "files_to_save timestamp =
     [(''problem_params.inp'', ''problem_params_'' @ timestamp @ ''.inp''),
      (''radmc3d.inp'', ''radmc3d_'' @ timestamp @ ''.inp''),
      (''amr_grid.inp'', ''amr_grid.inp''),
      (''dust_density.binp'', ''dust_density.binp''),
      (''dust_temperature.bdat'', ''dust_temperature.bdat'')]"

definition save_file :: "env \<Rightarrow> string \<times> string \<Rightarrow> step" where
  "save_file env file =
     (case file of (src, dst) \<Rightarrow>
        if path_exists env src then
          run_steps
            [lib_call env (''os.path.getsize '' @ src),
             lib_call env (''shutil.copy '' @ src),
             pure (logging INFO (''Saved: '' @ src @ '' (''
                     @ fmt_fixed env 2 (of_nat (getsize env src) / 1048576) @ '' MB) -> '' @ dst))]
        else skip)"

definition phase_save :: "env \<Rightarrow> string \<Rightarrow> step" where
  "phase_save env timestamp =
     in_phase env ''Save Files''
       [pure (logging INFO ''Reading output files and saving to run directory''),
        lib_call env ''analyze.readSpectrum'',
        lib_call env ''shutil.copy spectrum.out'',
        lib_call env ''analyze.readStars'',
        lib_call env ''analyze.readGrid'',
        run_steps (map (save_file env) (files_to_save timestamp))]"

text \<open>
  The entry in the logbook of runs, inside \<^verbatim>\<open>try: ... except Exception: pass\<close>: whatever
  it raises is dropped.
\<close>

definition try_log_simulation :: "env \<Rightarrow> step" where
  "try_log_simulation env w =
     (case lib_call env ''from export import log_simulation'' w of
        (Some e, w1) \<Rightarrow> (None, w1)
      | (None, w1) \<Rightarrow>
         (case time_time env w1 of (now, w2) \<Rightarrow>
            (None, snd (lib_call env ''log_simulation'' w2))))"

subsection \<open>\<^verbatim>\<open>run_single_simulation\<close>\<close>

datatype artifacts = SpecStarGrid

definition phase_names :: "bool \<Rightarrow> string list" where
  "phase_names make_images =
     [''Setup'', ''Configure Model'', ''MC Thermal'', ''SED Calculation'']
     @ (if make_images then [''Generate Image''] else [])
     @ [''Save Files'']"

definition estimates :: "string \<rightharpoonup> pyval" where
  "estimates = [''MC Thermal'' \<mapsto> PNone, ''SED Calculation'' \<mapsto> PNone, ''Generate Image'' \<mapsto> PNone]"

text \<open>The choice of the tracker and of the silencer by \<^verbatim>\<open>ui_mode\<close>.\<close>

definition select_tracker :: "env \<Rightarrow> string \<Rightarrow> bool \<Rightarrow> world \<Rightarrow> bool \<times> world" where
  "select_tracker env ui_mode make_images w =
     (if ui_mode = ''advanced'' then
        (case adv_init env (phase_names make_images) estimates w of
           (self, w1) \<Rightarrow> (True, w1\<lparr>tracker := AdvancedPhaseTracker self\<rparr>))
      else (False, w\<lparr>tracker := RawTracker\<rparr>))"

text \<open>The statements of the \<^verbatim>\<open>try\<close> block.\<close>

definition try_block ::
  "env \<Rightarrow> params \<Rightarrow> string \<Rightarrow> string \<Rightarrow> string \<Rightarrow> bool \<Rightarrow> pyval \<Rightarrow> pyval \<Rightarrow> bool \<Rightarrow> step list" where
  "try_block env ps run_dir name timestamp make_images wavelength threads use_silencer =
     [phase_setup env use_silencer,
      phase_configure env ps use_silencer,
      phase_mctherm env ps threads,
      phase_sed env ps threads]
     @ (if make_images then [phase_image env ps run_dir name timestamp wavelength threads] else [])
     @ [phase_save env timestamp,
        tracker_call env OpStop,
        try_log_simulation env,
        tracker_call env OpPrintSummary]"

text \<open>The \<^verbatim>\<open>except Exception as e\<close> block: it ends with \<^verbatim>\<open>raise e\<close>.\<close>

definition on_failure :: "env \<Rightarrow> exc \<Rightarrow> world \<Rightarrow> exc \<times> world" where
  "on_failure env e w =
     (case tracker_call env OpStop w of
        (Some e', w1) \<Rightarrow> (e', w1)
      | (None, w1) \<Rightarrow>
          (e, print_error (''Simulation failed: '' @ exc_str env e)
                (logging ERROR (''Simulation failed: '' @ exc_str env e) w1)))"

definition run_single_simulation ::
  "env \<Rightarrow> params \<Rightarrow> string \<Rightarrow> string \<Rightarrow> string \<Rightarrow> bool \<Rightarrow> pyval \<Rightarrow> pyval \<Rightarrow> string
     \<Rightarrow> world \<Rightarrow> (exc + artifacts) \<times> world" where
  "run_single_simulation env ps run_dir name timestamp make_images wavelength threads ui_mode w =
     (case select_tracker env ui_mode make_images w of (use_silencer, w1) \<Rightarrow>
      (case tracker_call env OpStart w1 of
         (Some e, w2) \<Rightarrow> (Inl e, w2)
       | (None, w2) \<Rightarrow>
         (case time_time env w2 of (started, w3) \<Rightarrow>
           (case run_steps (try_block env ps run_dir name timestamp make_images wavelength threads
                              use_silencer) w3 of
              (None, w4) \<Rightarrow> (Inr SpecStarGrid, w4)
            | (Some e, w4) \<Rightarrow> (case on_failure env e w4 of (e', w5) \<Rightarrow> (Inl e', w5))))))"

section \<open>Notions for stating the properties\<close>

text \<open>The lines of a text, and those that are not empty.\<close>

fun split_at :: "char \<Rightarrow> string \<Rightarrow> string list" where
  "split_at sep [] = [[]]"
| "split_at sep (c # cs) =
     (if c = sep then [] # split_at sep cs
      else (case split_at sep cs of [] \<Rightarrow> [[c]] | l # ls \<Rightarrow> (c # l) # ls))"

definition marker_lines :: "string \<Rightarrow> string list" where
  "marker_lines text = filter (\<lambda>l. l \<noteq> []) (split_at (CHR 0x0A) text)"

text \<open>Every opening bracket of a text stands behind a backslash.\<close>

fun escaped_from :: "bool \<Rightarrow> string \<Rightarrow> bool" where
  "escaped_from b [] = True"
| "escaped_from b (c # cs) = ((c \<noteq> CHR ''['' \<or> b) \<and> escaped_from (c = CHR 0x5C) cs)"

definition brackets_escaped :: "string \<Rightarrow> bool" where
  "brackets_escaped s = escaped_from False s"

text \<open>The events that a run has added to the trace, and the method calls among events.\<close>

definition new_events :: "world \<Rightarrow> world \<Rightarrow> event list" where
  "new_events w w' = drop (length (events w)) (events w')"

fun calls_of :: "event list \<Rightarrow> tracker_op list" where
  "calls_of [] = []"
| "calls_of (Call op # es) = op # calls_of es"
| "calls_of (e # es) = calls_of es"

text \<open>The state of the progress display of the tracker of the advanced mode.\<close>

definition progress_of :: "world \<Rightarrow> task option" where
  "progress_of w = (case tracker w of RawTracker \<Rightarrow> None | AdvancedPhaseTracker self \<Rightarrow> Some (phase_task self))"

definition is_raw :: "tracker \<Rightarrow> bool" where
  "is_raw t = (case t of RawTracker \<Rightarrow> True | AdvancedPhaseTracker self \<Rightarrow> False)"

text \<open>The events that write to the terminal through \<^verbatim>\<open>print\<close> or the console of the library.\<close>

definition is_ui :: "event \<Rightarrow> bool" where
  "is_ui e = (case e of Print t \<Rightarrow> True | ConsolePrint t \<Rightarrow> True | ConsoleTable rows \<Rightarrow> True
              | ProgressStart \<Rightarrow> True | ProgressStop \<Rightarrow> True | _ \<Rightarrow> False)"

text \<open>
  The calls that the tracker is to receive for one line of the solver, as the
  specification words them, with the guard of the code on the photon total: a line that is
  not blank is logged, and where it holds a photon count and a total was given, the count
  is the new progress.
\<close>

definition line_calls :: "pyval \<Rightarrow> string \<Rightarrow> tracker_op list" where
  "line_calls total_photons line =
     (if strip line = [] then []
      else OpLog (''[dim]'' @ strip line @ ''[/dim]'')
           # (if truthy total_photons then
                (case photon_search (strip line) of
                   Some digits \<Rightarrow> [OpUpdateProgress (int_of_digits digits)]
                 | None \<Rightarrow> [])
              else []))"

text \<open>
  A world \<open>w'\<close> extends a world \<open>w\<close> by events of the kind \<open>P\<close>: its trace is the trace of
  \<open>w\<close> and then events that satisfy \<open>P\<close>, and its tracker is of the same class. A
  statement adds events of the kind \<open>P\<close> when the world after it extends the world before
  it in this way, whatever the world before it and whether it raises or not.
\<close>

definition extends :: "(event \<Rightarrow> bool) \<Rightarrow> world \<Rightarrow> world \<Rightarrow> bool" where
  "extends P w w' =
     ((\<exists>es. events w' = events w @ es \<and> list_all P es)
      \<and> is_raw (tracker w') = is_raw (tracker w))"

definition adds :: "(event \<Rightarrow> bool) \<Rightarrow> step \<Rightarrow> bool" where
  "adds P s = (\<forall>w. extends P w (snd (s w)))"

text \<open>
  The events that the command runner adds beside the start and the exit of the process:
  records of the log, printed text, the output of the process that passes through, and
  calls of the three tracker methods that the runner uses.
\<close>

definition runner_quiet :: "event \<Rightarrow> bool" where
  "runner_quiet e =
     (case e of
        Logging l m \<Rightarrow> True
      | Print t \<Rightarrow> True
      | ConsolePrint t \<Rightarrow> True
      | ConsoleTable rows \<Rightarrow> True
      | ProgressStart \<Rightarrow> True
      | ProgressStop \<Rightarrow> True
      | Passthrough out \<Rightarrow> True
      | Call op \<Rightarrow> (case op of OpLog m \<Rightarrow> True | OpSetPhaseTotal n \<Rightarrow> True
                     | OpUpdateProgress n \<Rightarrow> True | _ \<Rightarrow> False)
      | _ \<Rightarrow> False)"

text \<open>
  The trace of one solver process: its start, its exit with the status \<open>rc\<close>, and quiet
  events around them; after a status that is not zero, an error record of the log and, in
  the advanced mode (where the output is captured), an error line logged to the tracker.
\<close>

definition process_run :: "string list \<Rightarrow> bool \<Rightarrow> int \<Rightarrow> event list \<Rightarrow> bool" where
  "process_run args captured rc es =
     (\<exists>pre mid post. es = pre @ Spawn args captured # mid @ Exit rc # post
        \<and> list_all runner_quiet pre \<and> list_all runner_quiet mid \<and> list_all runner_quiet post
        \<and> (rc = 0 \<or> (\<exists>m. Logging ERROR m \<in> set post)
                     \<and> (captured = (\<exists>m. Call (OpLog m) \<in> set post))))"

text \<open>
  The exception that the conversion of the photon total raises past the
  \<^verbatim>\<open>except ValueError\<close> of the runner, if any.
\<close>

definition total_outcome :: "env \<Rightarrow> pyval \<Rightarrow> exc option" where
  "total_outcome env total_photons =
     (if truthy total_photons then
        (case and_then (py_float env total_photons) py_int_of_float of
           Inl ValueError \<Rightarrow> None
         | Inl e \<Rightarrow> Some e
         | Inr n \<Rightarrow> None)
      else None)"

text \<open>
  The events of a phase that runs no solver and silences nothing: the quiet events of the
  runner, the calls that start and complete a phase, library calls and writes to a file.
\<close>

definition plain_event :: "event \<Rightarrow> bool" where
  "plain_event e =
     (case e of
        Call (OpStartPhase name) \<Rightarrow> True
      | Call (OpCompletePhase name) \<Rightarrow> True
      | LibCall name \<Rightarrow> True
      | FileWrite path text \<Rightarrow> True
      | _ \<Rightarrow> runner_quiet e)"

text \<open>An event that is no system call on the table of file descriptors.\<close>

definition not_sys :: "event \<Rightarrow> bool" where
  "not_sys e = (case e of Sys op \<Rightarrow> False | _ \<Rightarrow> True)"


text \<open>The events after the first exit of a solver process with a status that is not zero.\<close>

fun after_failure :: "event list \<Rightarrow> event list" where
  "after_failure [] = []"
| "after_failure (Exit rc # es) = (if rc \<noteq> 0 then es else after_failure es)"
| "after_failure (e # es) = after_failure es"

text \<open>
  What the runner adds after the exit of a process that failed: quiet events, among them
  the error record of the log, and as calls of the tracker the one error line in the
  advanced mode, none in the raw mode.
\<close>

definition failure_tail :: "bool \<Rightarrow> string \<Rightarrow> int \<Rightarrow> event list \<Rightarrow> bool" where
  "failure_tail raw cmd rc post =
     (list_all runner_quiet post
      \<and> Logging ERROR (''Command failed with return code '' @ str_int rc @ '': '' @ cmd) \<in> set post
      \<and> calls_of post
          = (if raw then []
             else [OpLog (''[red bold]Process failed with code '' @ str_int rc @ ''[/red bold]'')]))"

text \<open>An event that is neither the stop of the tracker nor the exit of a process that failed.\<close>

definition steady :: "event \<Rightarrow> bool" where
  "steady e = (case e of Call op \<Rightarrow> op \<noteq> OpStop | Exit rc \<Rightarrow> rc = 0 | _ \<Rightarrow> True)"

text \<open>An event that is not the exit of a process that failed.\<close>

definition exit_ok :: "event \<Rightarrow> bool" where
  "exit_ok e = (case e of Exit rc \<Rightarrow> rc = 0 | _ \<Rightarrow> True)"

text \<open>
  A statement fails loudly when, whatever the world before it, it either adds steady
  events only, or adds steady events, then the exit of a process that failed and the
  runner's events after it, and raises the exception of the runner for that command.
\<close>

definition loud_outcome :: "world \<Rightarrow> exc option \<Rightarrow> world \<Rightarrow> bool" where
  "loud_outcome w r w' =
     (is_raw (tracker w') = is_raw (tracker w)
      \<and> ((\<exists>es. events w' = events w @ es \<and> list_all steady es)
         \<or> (\<exists>pre rc cmd post. rc \<noteq> 0
              \<and> r = Some (RuntimeError (''Command failed: '' @ cmd))
              \<and> events w' = events w @ pre @ Exit rc # post
              \<and> list_all steady pre \<and> failure_tail (is_raw (tracker w)) cmd rc post)))"

definition fails_loudly :: "step \<Rightarrow> bool" where
  "fails_loudly s = (\<forall>w. loud_outcome w (fst (s w)) (snd (s w)))"
section \<open>A concrete environment and concrete runs\<close>

text \<open>
  An environment for the examples: the clock counts seconds, \<^verbatim>\<open>shlex.split\<close> is the
  splitting at blanks (which it is on a command line without quotes), \<^verbatim>\<open>radmc3d\<close> is on
  the search path, every solver process writes one photon line, and the thermal Monte
  Carlo run exits with status 1, every other run with status 0.
\<close>

definition env0 :: env where
  "env0 = \<lparr>time_at = (\<lambda>k. 1000 + of_nat k),
           strftime = (\<lambda>k. ''2025-01-01 12:00:00''),
           fmt_fixed = (\<lambda>n r. str_int (trunc r)),
           str_other = (\<lambda>v. ''?''),
           exc_text = (\<lambda>e. ''error''),
           getcwd = ''/work'',
           shlex_split = (\<lambda>s. Inr (filter (\<lambda>a. a \<noteq> []) (split_at CHR '' '' s))),
           which = (\<lambda>exe. exe = ''radmc3d''),
           subprocess = (\<lambda>args. ([''Photon nr: 4821'' @ newline],
                                  if ''mctherm'' \<in> set args then 1 else 0)),
           parse_float = (\<lambda>s. None),
           lib = (\<lambda>name. None),
           path_exists = (\<lambda>path. True),
           getsize = (\<lambda>path. 1048576)\<rparr>"

text \<open>A process with its three standard descriptors on the terminal, before a run.\<close>

definition w_init :: world where
  "w_init = \<lparr>events = [], fds = [Some ''/dev/tty'', Some ''/dev/tty'', Some ''/dev/tty''],
             ticks = 0, tracker = RawTracker\<rparr>"

text \<open>The same process with the tracker of the advanced mode, as the orchestrator makes it.\<close>

definition w_adv :: world where
  "w_adv = snd (select_tracker env0 ''advanced'' False w_init)"

section \<open>Properties of the category\<close>

lemma check_spiral_Inr:
  "check_spiral other ps fs = Inr fs' \<Longrightarrow>
     \<exists>s tok. spiral_active ps = Inr s \<and> (if s then spiral_token other ps = Inr tok else tok = ''spiral'')
        \<and> fs' = fs @ map fst (filter snd [(tok, s)])"
  by (auto simp: check_spiral_def and_then_def split: sum.splits if_splits)

lemma check_vortex_Inr:
  "check_vortex ps fs = Inr fs' \<Longrightarrow>
     \<exists>v. has_vortex ps = Inr v \<and> fs' = fs @ map fst (filter snd [(''vortex'', v)])"
  by (auto simp: check_vortex_def and_then_def split: sum.splits if_splits)

lemma check_fourier_Inr:
  "check_fourier ps fs = Inr fs' \<Longrightarrow>
     \<exists>v. has_fourier ps = Inr v \<and> fs' = fs @ map fst (filter snd [(''fourier'', v)])"
  by (auto simp: check_fourier_def and_then_def split: sum.splits if_splits)

lemma check_flag_eq:
  "check_flag ps key token fs = fs @ map fst (filter snd [(token, truthy (get ps key (PBool False)))])"
  by (simp add: check_flag_def)

lemma category_of_cases:
  "category_of ts = (case ts of [] \<Rightarrow> ''baseline'' | [t] \<Rightarrow> t
      | t # u # r \<Rightarrow> ''combined_'' @ join ''_'' (t # u # r))"
  by (auto simp: category_of_def split: list.splits)

lemma category_of_eq: "category_of (map fst (filter snd table)) = spec_category table"
  by (simp only: category_of_cases spec_category_def)

lemma determine_category_Inr:
  assumes "determine_category other ps = Inr c"
  shows "\<exists>s tok v f. spiral_active ps = Inr s
        \<and> (if s then spiral_token other ps = Inr tok else tok = ''spiral'')
        \<and> has_vortex ps = Inr v \<and> has_fourier ps = Inr f
        \<and> c = spec_category
              [(tok, s), (''vortex'', v), (''fourier'', f),
               (''warp'', truthy (get ps ''enable_warp'' (PBool False))),
               (''inner_edge'', truthy (get ps ''use_inner_edge_shadow'' (PBool False))),
               (''damping'', truthy (get ps ''use_radial_damping'' (PBool False)))]"
proof -
  from assms obtain f1 f2 f3 where
    1: "check_spiral other ps [] = Inr f1" and 2: "check_vortex ps f1 = Inr f2"
    and 3: "check_fourier ps f2 = Inr f3"
    and c: "c = category_of (check_flag ps ''use_radial_damping'' ''damping''
                (check_flag ps ''use_inner_edge_shadow'' ''inner_edge''
                  (check_flag ps ''enable_warp'' ''warp'' f3)))"
    by (auto simp: determine_category_def and_then_def split: sum.splits)
  from check_spiral_Inr [OF 1] obtain s tok where
    s: "spiral_active ps = Inr s" "if s then spiral_token other ps = Inr tok else tok = ''spiral''"
    and f1: "f1 = [] @ map fst (filter snd [(tok, s)])" by blast
  from check_vortex_Inr [OF 2] obtain v where
    v: "has_vortex ps = Inr v" and f2: "f2 = f1 @ map fst (filter snd [(''vortex'', v)])" by blast
  from check_fourier_Inr [OF 3] obtain f where
    f: "has_fourier ps = Inr f" and f3: "f3 = f2 @ map fst (filter snd [(''fourier'', f)])" by blast
  let ?table = "[(tok, s), (''vortex'', v), (''fourier'', f),
               (''warp'', truthy (get ps ''enable_warp'' (PBool False))),
               (''inner_edge'', truthy (get ps ''use_inner_edge_shadow'' (PBool False))),
               (''damping'', truthy (get ps ''use_radial_damping'' (PBool False)))]"
  have "check_flag ps ''use_radial_damping'' ''damping''
                (check_flag ps ''use_inner_edge_shadow'' ''inner_edge''
                  (check_flag ps ''enable_warp'' ''warp'' f3)) = map fst (filter snd ?table)"
    unfolding check_flag_eq f3 f2 f1 by simp
  with c have "c = spec_category ?table" by (simp only: category_of_eq)
  with s v f show ?thesis by blast
qed

lemma spiral_and_warp_only:
  assumes "spiral_active ps = Inr True" "has_vortex ps = Inr False" "has_fourier ps = Inr False"
    "truthy (get ps ''enable_warp'' (PBool False))"
    "\<not> truthy (get ps ''use_inner_edge_shadow'' (PBool False))"
    "\<not> truthy (get ps ''use_radial_damping'' (PBool False))"
    "py_gt0 (get ps ''n_arms'' (PInt 0)) = Inr arms"
  shows "determine_category other ps =
     Inr (if arms then ''combined_spiral_'' @ py_str other (get ps ''n_arms'' (PInt 0)) @ ''arms_warp''
          else ''combined_spiral_warp'')"
  using assms
  by (simp add: determine_category_def check_spiral_def spiral_token_def check_vortex_def
      check_fourier_def check_flag_def category_of_def and_then_def)

text \<open>
  Claim C3, as amended. Whenever \<^verbatim>\<open>determine_category\<close> returns, its result is the
  composition of the active tokens in the fixed order spiral, vortex, fourier, warp,
  inner_edge, damping: \<^verbatim>\<open>baseline\<close> for none, the token itself for one, \<^verbatim>\<open>combined_\<close>
  and the tokens joined by \<^verbatim>\<open>_\<close> for two or more. The token of the spiral is
  \<^verbatim>\<open>spiral_<n_arms>arms\<close> when \<^verbatim>\<open>n_arms > 0\<close> and \<^verbatim>\<open>spiral\<close> otherwise. So spiral and
  warp together, and nothing else, give \<^verbatim>\<open>combined_spiral_warp\<close> when \<^verbatim>\<open>n_arms\<close> is not
  positive, and \<^verbatim>\<open>combined_spiral_<n_arms>arms_warp\<close> when it is.
\<close>

theorem determine_category_composition:
  "(determine_category other ps = Inr c \<longrightarrow>
      (\<exists>s tok v f. spiral_active ps = Inr s
        \<and> (if s then spiral_token other ps = Inr tok else tok = ''spiral'')
        \<and> has_vortex ps = Inr v \<and> has_fourier ps = Inr f
        \<and> c = spec_category
              [(tok, s), (''vortex'', v), (''fourier'', f),
               (''warp'', truthy (get ps ''enable_warp'' (PBool False))),
               (''inner_edge'', truthy (get ps ''use_inner_edge_shadow'' (PBool False))),
               (''damping'', truthy (get ps ''use_radial_damping'' (PBool False)))]))
   \<and> (spiral_active ps = Inr True \<and> has_vortex ps = Inr False \<and> has_fourier ps = Inr False
        \<and> truthy (get ps ''enable_warp'' (PBool False))
        \<and> \<not> truthy (get ps ''use_inner_edge_shadow'' (PBool False))
        \<and> \<not> truthy (get ps ''use_radial_damping'' (PBool False))
        \<and> py_gt0 (get ps ''n_arms'' (PInt 0)) = Inr arms \<longrightarrow>
      determine_category other ps =
        Inr (if arms then ''combined_spiral_'' @ py_str other (get ps ''n_arms'' (PInt 0)) @ ''arms_warp''
             else ''combined_spiral_warp''))"
  using determine_category_Inr [of other ps c] spiral_and_warp_only [of ps arms other]
  by blast

theorem determine_category_composition_witness:
  "determine_category (\<lambda>v. [])
      [''h_spiral_amp'' \<mapsto> PFloat (Fin (1/10)), ''enable_warp'' \<mapsto> PBool True]
     = Inr ''combined_spiral_warp''
   \<and> (\<exists>s tok v f.
        spiral_active [''h_spiral_amp'' \<mapsto> PFloat (Fin (1/10)), ''enable_warp'' \<mapsto> PBool True] = Inr s
      \<and> ''combined_spiral_warp'' = spec_category
              [(tok, s), (''vortex'', v), (''fourier'', f), (''warp'', True),
               (''inner_edge'', False), (''damping'', False)])"
proof -
  let ?ps = "[''h_spiral_amp'' \<mapsto> PFloat (Fin (1/10)), ''enable_warp'' \<mapsto> PBool True]"
  have h: "determine_category (\<lambda>v. []) ?ps = Inr ''combined_spiral_warp''"
    by (simp add: determine_category_def check_spiral_def spiral_active_def spiral_token_def
      check_vortex_def has_vortex_def check_fourier_def has_fourier_def check_flag_def
      category_of_def get_def and_then_def py_or_def any_gt0_in_def any_ne0_in_def
      is_list_or_tuple_def zeros5_def)
  have w: "truthy (get ?ps ''enable_warp'' (PBool False))"
    "\<not> truthy (get ?ps ''use_inner_edge_shadow'' (PBool False))"
    "\<not> truthy (get ?ps ''use_radial_damping'' (PBool False))"
    by (simp_all add: get_def)
  from determine_category_composition [of "\<lambda>v. []" ?ps "''combined_spiral_warp''"] h
  obtain s tok v f where "spiral_active ?ps = Inr s"
    "''combined_spiral_warp'' = spec_category
              [(tok, s), (''vortex'', v), (''fourier'', f),
               (''warp'', truthy (get ?ps ''enable_warp'' (PBool False))),
               (''inner_edge'', truthy (get ?ps ''use_inner_edge_shadow'' (PBool False))),
               (''damping'', truthy (get ?ps ''use_radial_damping'' (PBool False)))]"
    by blast
  with h w show ?thesis by auto
qed

text \<open>
  The claim C3 as it is worded fails where the configuration gives a number of arms, as
  the parameter sets of \<^verbatim>\<open>batch_run.py\<close> do: spiral and warp with \<^verbatim>\<open>n_arms = 2\<close>.
\<close>

theorem spiral_warp_with_arms:
  "determine_category (\<lambda>v. [])
      [''h_spiral_amp'' \<mapsto> PFloat (Fin (1/10)), ''n_arms'' \<mapsto> PInt 2, ''enable_warp'' \<mapsto> PBool True]
     = Inr ''combined_spiral_2arms_warp''"
  by (simp add: determine_category_def check_spiral_def spiral_active_def spiral_token_def
    check_vortex_def has_vortex_def check_fourier_def has_fourier_def check_flag_def
    category_of_def get_def and_then_def py_or_def any_gt0_in_def any_ne0_in_def
    is_list_or_tuple_def zeros5_def str_int_def str_nat.simps digit_char_def)

subsection \<open>When the function returns\<close>

lemma py_gt0_number: "is_number v \<Longrightarrow> \<exists>b. py_gt0 v = Inr b"
  by (cases v) (auto simp: is_number_def)

lemma py_or_Inr: "a = Inr x \<Longrightarrow> b = Inr y \<Longrightarrow> py_or a b = Inr (x \<or> y)"
  by (cases x) (simp_all add: py_or_def)

lemma any_gt0_numbers: "list_all is_number xs \<Longrightarrow> \<exists>b. any_gt0 xs = Inr b"
proof (induction xs)
  case Nil
  show ?case by auto
next
  case (Cons v vs)
  from Cons.prems have n: "is_number v" and ns: "list_all is_number vs" by simp_all
  from py_gt0_number [OF n] obtain x where x: "py_gt0 v = Inr x" by blast
  from Cons.IH [OF ns] obtain y where y: "any_gt0 vs = Inr y" by blast
  show ?case using py_or_Inr [OF x y] by auto
qed

lemma any_gt0_in_seq: "is_number_seq v \<Longrightarrow> \<exists>b. any_gt0_in v = Inr b"
  by (cases v) (simp_all add: is_number_seq_def any_gt0_in_def and_then_def any_gt0_numbers)

lemma any_ne0_in_iterable: "is_iterable v \<Longrightarrow> \<exists>b. any_ne0_in v = Inr b"
  by (cases v) (simp_all add: is_iterable_def any_ne0_in_def and_then_def)

lemma number_not_seq: "is_number v \<Longrightarrow> \<not> is_list_or_tuple v"
  by (cases v) (simp_all add: is_number_def is_list_or_tuple_def)

lemma seq_is_list_or_tuple: "is_number_seq v \<Longrightarrow> is_list_or_tuple v"
  by (cases v) (simp_all add: is_number_seq_def is_list_or_tuple_def)

lemma spiral_active_total:
  assumes "is_number (get ps ''h_spiral_amp'' (PInt 0))" "is_number (get ps ''sig_spiral_amp'' (PInt 0))"
  shows "\<exists>b. spiral_active ps = Inr b"
proof -
  from assms obtain x y where "py_gt0 (get ps ''h_spiral_amp'' (PInt 0)) = Inr x"
    "py_gt0 (get ps ''sig_spiral_amp'' (PInt 0)) = Inr y"
    using py_gt0_number by blast
  then show ?thesis unfolding spiral_active_def by (simp add: py_or_Inr)
qed

lemma spiral_token_total:
  assumes "is_number (get ps ''n_arms'' (PInt 0))"
  shows "\<exists>t. spiral_token other ps = Inr t"
proof -
  from assms obtain x where "py_gt0 (get ps ''n_arms'' (PInt 0)) = Inr x"
    using py_gt0_number by blast
  then show ?thesis by (simp add: spiral_token_def and_then_def)
qed

lemma check_spiral_total:
  assumes "is_number (get ps ''h_spiral_amp'' (PInt 0))" "is_number (get ps ''sig_spiral_amp'' (PInt 0))"
    "is_number (get ps ''n_arms'' (PInt 0))"
  shows "\<exists>fs'. check_spiral other ps fs = Inr fs'"
proof -
  obtain b where b: "spiral_active ps = Inr b" using spiral_active_total assms by blast
  obtain t where t: "spiral_token other ps = Inr t" using spiral_token_total assms by blast
  show ?thesis by (simp add: check_spiral_def and_then_def b t)
qed

lemma has_vortex_total:
  assumes "is_number_seq (get ps ''h_vortex_amp'' (PList [PFloat (Fin 0), PFloat (Fin 0)]))
         \<and> is_number_seq (get ps ''sig_vortex_amp'' (PList [PFloat (Fin 0), PFloat (Fin 0)]))
         \<or> is_number (get ps ''h_vortex_amp'' (PList [PFloat (Fin 0), PFloat (Fin 0)]))
         \<and> is_number (get ps ''sig_vortex_amp'' (PList [PFloat (Fin 0), PFloat (Fin 0)]))"
  shows "\<exists>b. has_vortex ps = Inr b"
  using assms
proof
  assume a: "is_number_seq (get ps ''h_vortex_amp'' (PList [PFloat (Fin 0), PFloat (Fin 0)]))
         \<and> is_number_seq (get ps ''sig_vortex_amp'' (PList [PFloat (Fin 0), PFloat (Fin 0)]))"
  then obtain x y where "any_gt0_in (get ps ''h_vortex_amp'' (PList [PFloat (Fin 0), PFloat (Fin 0)])) = Inr x"
    "any_gt0_in (get ps ''sig_vortex_amp'' (PList [PFloat (Fin 0), PFloat (Fin 0)])) = Inr y"
    using any_gt0_in_seq by blast
  with a show ?thesis by (simp add: has_vortex_def seq_is_list_or_tuple py_or_Inr)
next
  assume a: "is_number (get ps ''h_vortex_amp'' (PList [PFloat (Fin 0), PFloat (Fin 0)]))
         \<and> is_number (get ps ''sig_vortex_amp'' (PList [PFloat (Fin 0), PFloat (Fin 0)]))"
  then obtain x y where "py_gt0 (get ps ''h_vortex_amp'' (PList [PFloat (Fin 0), PFloat (Fin 0)])) = Inr x"
    "py_gt0 (get ps ''sig_vortex_amp'' (PList [PFloat (Fin 0), PFloat (Fin 0)])) = Inr y"
    using py_gt0_number by blast
  with a show ?thesis by (simp add: has_vortex_def number_not_seq py_or_Inr)
qed

lemma has_fourier_total:
  assumes "is_iterable (get ps ''h_fourier_aj'' zeros5)" "is_iterable (get ps ''h_fourier_bj'' zeros5)"
    "is_iterable (get ps ''sig_fourier_aj'' zeros5)" "is_iterable (get ps ''sig_fourier_bj'' zeros5)"
  shows "\<exists>b. has_fourier ps = Inr b"
proof -
  from assms obtain a b c d where "any_ne0_in (get ps ''h_fourier_aj'' zeros5) = Inr a"
    "any_ne0_in (get ps ''h_fourier_bj'' zeros5) = Inr b"
    "any_ne0_in (get ps ''sig_fourier_aj'' zeros5) = Inr c"
    "any_ne0_in (get ps ''sig_fourier_bj'' zeros5) = Inr d"
    using any_ne0_in_iterable by metis
  then show ?thesis by (simp add: has_fourier_def py_or_Inr)
qed

text \<open>
  Claim C4, as amended. \<^verbatim>\<open>determine_category\<close> returns a category, and raises nothing,
  on every parameter mapping of the expected types: numbers for the two spiral amplitudes
  and \<^verbatim>\<open>n_arms\<close>, two sequences of numbers or two numbers for the two vortex amplitudes,
  an iterable for each of the four vectors of Fourier coefficients, and any value for the
  three flags; an absent parameter has its default.
\<close>

theorem determine_category_returns:
  assumes "expected_types ps"
  shows "\<exists>c. determine_category other ps = Inr c"
proof -
  from assms obtain f1 where 1: "check_spiral other ps [] = Inr f1"
    unfolding expected_types_def Let_def using check_spiral_total by blast
  from assms obtain v where v: "has_vortex ps = Inr v"
    unfolding expected_types_def Let_def using has_vortex_total by blast
  from assms obtain f where f: "has_fourier ps = Inr f"
    unfolding expected_types_def Let_def using has_fourier_total by blast
  show ?thesis
    by (simp add: determine_category_def and_then_def 1 check_vortex_def v check_fourier_def f)
qed

theorem determine_category_returns_witness:
  "expected_types [''h_vortex_amp'' \<mapsto> PFloat (Fin 0), ''sig_vortex_amp'' \<mapsto> PFloat (Fin (1/2))]
   \<and> (\<exists>c. determine_category (\<lambda>v. [])
          [''h_vortex_amp'' \<mapsto> PFloat (Fin 0), ''sig_vortex_amp'' \<mapsto> PFloat (Fin (1/2))] = Inr c)"
proof -
  have h: "expected_types [''h_vortex_amp'' \<mapsto> PFloat (Fin 0), ''sig_vortex_amp'' \<mapsto> PFloat (Fin (1/2))]"
    by (simp add: expected_types_def get_def is_number_def is_iterable_def zeros5_def)
  show ?thesis using h determine_category_returns [OF h] by simp
qed

text \<open>
  The claim C4 as it is worded fails: an amplitude of the spiral that is a vector is
  compared with \<^verbatim>\<open>> 0\<close> as it is, which raises a \<^verbatim>\<open>TypeError\<close>.
\<close>

theorem vector_spiral_amp_raises:
  "determine_category (\<lambda>v. [])
     [''h_spiral_amp'' \<mapsto> PList [PFloat (Fin (1/10)), PFloat (Fin (1/5))]] = Inl TypeError"
  by (simp add: determine_category_def check_spiral_def spiral_active_def and_then_def py_or_def get_def)

section \<open>Properties of the two trackers\<close>

lemma events_emit [simp]: "events (emit e w) = events w @ [e]"
  by (simp add: emit_def)

lemma fds_emit [simp]: "fds (emit e w) = fds w"
  by (simp add: emit_def)

lemma tracker_emit [simp]: "tracker (emit e w) = tracker w"
  by (simp add: emit_def)

lemma ticks_emit [simp]: "ticks (emit e w) = ticks w"
  by (simp add: emit_def)

lemma split_at_no_sep: "sep \<notin> set s \<Longrightarrow> split_at sep s = [s]"
  by (induction s) auto

lemma split_at_append_sep:
  "sep \<notin> set s \<Longrightarrow> split_at sep (s @ sep # t) = s # split_at sep t"
  by (induction s) auto

lemma marker_lines_start:
  assumes "CHR 0x0A \<notin> set name"
  shows "marker_lines ((newline @ ''>>> Starting Phase: '' @ name) @ newline) = [''>>> Starting Phase: '' @ name]"
proof -
  have n: "CHR 0x0A \<notin> set (''>>> Starting Phase: '' @ name)" using assms by simp
  have "split_at (CHR 0x0A) ((''>>> Starting Phase: '' @ name) @ CHR 0x0A # []) = [''>>> Starting Phase: '' @ name, []]"
    using split_at_append_sep [OF n, of "[]"] by simp
  then show ?thesis by (simp add: marker_lines_def newline_def)
qed

lemma marker_lines_complete:
  assumes "CHR 0x0A \<notin> set name"
  shows "marker_lines ((''>>> Completed Phase: '' @ name @ newline) @ newline) = [''>>> Completed Phase: '' @ name]"
proof -
  have n: "CHR 0x0A \<notin> set (''>>> Completed Phase: '' @ name)" using assms by simp
  have "split_at (CHR 0x0A) ((''>>> Completed Phase: '' @ name) @ CHR 0x0A # [CHR 0x0A]) = [''>>> Completed Phase: '' @ name, [], []]"
    using split_at_append_sep [OF n, of "[CHR 0x0A]"] by simp
  then show ?thesis by (simp add: marker_lines_def newline_def)
qed

text \<open>
  Claim C7. Six methods of the tracker of the raw mode leave the world as it is, so they
  write nothing. \<^verbatim>\<open>start_phase\<close> and \<^verbatim>\<open>complete_phase\<close> make one call of \<^verbatim>\<open>print\<close> each and
  change nothing else; the text printed holds one line that is not empty, the marker (for a
  name without a line break; the other line is blank). No method raises: a method call on
  the tracker of the raw mode returns without an exception.
\<close>

theorem raw_tracker_methods:
  "raw_start w = w \<and> raw_stop w = w \<and> raw_log msg w = w \<and> raw_set_phase_total n w = w
   \<and> raw_update_progress n w = w \<and> raw_print_summary w = w
   \<and> (\<exists>text. raw_start_phase name w = w\<lparr>events := events w @ [Print text]\<rparr>
         \<and> (CHR 0x0A \<notin> set name \<longrightarrow> marker_lines text = [''>>> Starting Phase: '' @ name]))
   \<and> (\<exists>text. raw_complete_phase name w = w\<lparr>events := events w @ [Print text]\<rparr>
         \<and> (CHR 0x0A \<notin> set name \<longrightarrow> marker_lines text = [''>>> Completed Phase: '' @ name]))
   \<and> (tracker w = RawTracker \<longrightarrow>
         tracker_call env op w = (None, raw_method op (w\<lparr>events := events w @ [Call op]\<rparr>)))"
proof -
  have 1: "raw_start_phase name w = w\<lparr>events := events w @ [Print ((newline @ ''>>> Starting Phase: '' @ name) @ newline)]\<rparr>"
    by (simp add: raw_start_phase_def py_print_def emit_def)
  have 2: "raw_complete_phase name w = w\<lparr>events := events w @ [Print ((''>>> Completed Phase: '' @ name @ newline) @ newline)]\<rparr>"
    by (simp add: raw_complete_phase_def py_print_def emit_def)
  have 3: "tracker w = RawTracker \<longrightarrow>
         tracker_call env op w = (None, raw_method op (w\<lparr>events := events w @ [Call op]\<rparr>))"
    by (simp add: tracker_call_def emit_def)
  from 1 2 3 marker_lines_start marker_lines_complete show ?thesis
    unfolding raw_start_def raw_stop_def raw_log_def raw_set_phase_total_def raw_update_progress_def
      raw_print_summary_def
    by blast
qed

theorem raw_tracker_methods_witness:
  "raw_start_phase ''Setup'' w_init = w_init\<lparr>events := [Print (newline @ ''>>> Starting Phase: Setup'' @ newline)]\<rparr>
   \<and> marker_lines (newline @ ''>>> Starting Phase: Setup'' @ newline) = [''>>> Starting Phase: Setup'']
   \<and> raw_complete_phase ''Setup'' w_init = w_init\<lparr>events := [Print (''>>> Completed Phase: Setup'' @ newline @ newline)]\<rparr>
   \<and> marker_lines (''>>> Completed Phase: Setup'' @ newline @ newline) = [''>>> Completed Phase: Setup'']
   \<and> tracker_call env0 (OpLog ''a line'') w_init = (None, w_init\<lparr>events := [Call (OpLog ''a line'')]\<rparr>)"
proof -
  have t: "tracker w_init = RawTracker" and e: "events w_init = []" by (simp_all add: w_init_def)
  have n: "CHR 0x0A \<notin> set ''Setup''" by simp
  from raw_tracker_methods [of w_init "''a line''" 0 "''Setup''" env0 "OpLog ''a line''"] t n
  have "tracker_call env0 (OpLog ''a line'') w_init = (None, raw_method (OpLog ''a line'') (w_init\<lparr>events := events w_init @ [Call (OpLog ''a line'')]\<rparr>))"
    by blast
  then have c: "tracker_call env0 (OpLog ''a line'') w_init = (None, w_init\<lparr>events := [Call (OpLog ''a line'')]\<rparr>)"
    by (simp add: raw_method_def raw_log_def e)
  have s: "raw_start_phase ''Setup'' w_init = w_init\<lparr>events := [Print (newline @ ''>>> Starting Phase: Setup'' @ newline)]\<rparr>"
    "raw_complete_phase ''Setup'' w_init = w_init\<lparr>events := [Print (''>>> Completed Phase: Setup'' @ newline @ newline)]\<rparr>"
    by (simp_all add: raw_start_phase_def raw_complete_phase_def py_print_def emit_def e)
  have m: "marker_lines (newline @ ''>>> Starting Phase: Setup'' @ newline) = [''>>> Starting Phase: Setup'']"
    "marker_lines (''>>> Completed Phase: Setup'' @ newline @ newline) = [''>>> Completed Phase: Setup'']"
    by (simp_all add: marker_lines_def newline_def)
  from c s m show ?thesis by simp
qed

subsection \<open>The log method of the advanced mode\<close>

lemmas tracker_defs = tracker_call_def adv_method_def raw_method_def adv_log_def adv_start_def adv_stop_def
  adv_set_phase_total_def adv_update_progress_def adv_start_phase_def adv_complete_phase_def
  adv_print_summary_def progress_update_def progress_reset_def add_task_def
  raw_start_def raw_stop_def raw_log_def raw_start_phase_def raw_complete_phase_def
  raw_set_phase_total_def raw_update_progress_def raw_print_summary_def
  emit_def console_print_def py_print_def logging_def time_time_def time_strftime_def

lemma w_adv_eq:
  "w_adv = \<lparr>events = [], fds = [Some ''/dev/tty'', Some ''/dev/tty'', Some ''/dev/tty''], ticks = 1,
     tracker = AdvancedPhaseTracker
       \<lparr>phases = [''Setup'', ''Configure Model'', ''MC Thermal'', ''SED Calculation'', ''Save Files''],
        estimated_times = estimates, current_phase_idx = - 1, start_time = 1000,
        phase_start_time = None, phase_times = Map.empty,
        overall_task = \<lparr>task_description = ''Total'', task_total = Some 5, task_completed = 0, task_visible = True\<rparr>,
        phase_task = \<lparr>task_description = ''Waiting...'', task_total = None, task_completed = 0, task_visible = False\<rparr>\<rparr>\<rparr>"
  by (simp add: w_adv_def select_tracker_def adv_init_def time_time_def w_init_def env0_def
      phase_names_def add_task_def)

lemma escaped_from_escape: "escaped_from b (escape_brackets m)"
  by (induction m arbitrary: b) (simp_all add: escape_brackets_def)

lemma adv_log_world:
  "snd (adv_log message self w) =
     console_print (''  '' @ (if CHR ''['' \<in> set message \<and> CHR '']'' \<notin> set message
                              then escape_brackets message else message)) w"
  by (simp add: adv_log_def)

text \<open>
  Claim C8, as amended. The \<^verbatim>\<open>log\<close> method of the tracker of the advanced mode puts a
  backslash before every opening bracket of a message exactly when the message holds an
  opening bracket and no closing bracket; then every opening bracket of the text that is
  rendered is escaped. A message that holds a closing bracket, or no opening bracket,
  reaches the console as it is, its bracket sequences included.
\<close>

theorem adv_log_escaping:
  "fst (adv_log message self w) = self
   \<and> (CHR ''['' \<in> set message \<and> CHR '']'' \<notin> set message \<longrightarrow>
        snd (adv_log message self w) = console_print (''  '' @ escape_brackets message) w
        \<and> brackets_escaped (escape_brackets message))
   \<and> (CHR ''['' \<notin> set message \<or> CHR '']'' \<in> set message \<longrightarrow>
        snd (adv_log message self w) = console_print (''  '' @ message) w)"
  using escaped_from_escape [of False message]
  by (simp add: adv_log_def brackets_escaped_def)

theorem adv_log_escaping_witness:
  "events (snd (tracker_call env0 (OpLog ''array[3'') w_adv))
     = [Call (OpLog ''array[3''), ConsolePrint (''  array'' @ [CHR 0x5C] @ ''[3'')]
   \<and> brackets_escaped (escape_brackets ''array[3'')
   \<and> events (snd (tracker_call env0 (OpLog ''no brackets'') w_adv))
     = [Call (OpLog ''no brackets''), ConsolePrint ''  no brackets'']"
proof -
  obtain self where t: "tracker w_adv = AdvancedPhaseTracker self"
    by (simp add: w_adv_eq)
  have e: "events w_adv = []"
    by (simp add: w_adv_eq)
  have h1: "CHR ''['' \<in> set ''array[3'' \<and> CHR '']'' \<notin> set ''array[3''" by simp
  have h2: "CHR ''['' \<notin> set ''no brackets'' \<or> CHR '']'' \<in> set ''no brackets''" by simp
  from adv_log_escaping [of "''array[3''" self "emit (Call (OpLog ''array[3'')) w_adv"] h1
  have 1: "snd (adv_log ''array[3'' self (emit (Call (OpLog ''array[3'')) w_adv))
             = console_print (''  '' @ escape_brackets ''array[3'') (emit (Call (OpLog ''array[3'')) w_adv)"
    and 2: "brackets_escaped (escape_brackets ''array[3'')" by blast+
  from adv_log_escaping [of "''no brackets''" self "emit (Call (OpLog ''no brackets'')) w_adv"] h2
  have 3: "snd (adv_log ''no brackets'' self (emit (Call (OpLog ''no brackets'')) w_adv))
             = console_print (''  '' @ ''no brackets'') (emit (Call (OpLog ''no brackets'')) w_adv)"
    by blast
  have a: "events (snd (tracker_call env0 (OpLog ''array[3'') w_adv))
     = [Call (OpLog ''array[3''), ConsolePrint (''  array'' @ [CHR 0x5C] @ ''[3'')]"
    using 1 by (simp add: tracker_call_def adv_method_def adv_log_def t e console_print_def
        escape_brackets_def)
  have b: "events (snd (tracker_call env0 (OpLog ''no brackets'') w_adv))
     = [Call (OpLog ''no brackets''), ConsolePrint ''  no brackets'']"
    using 3 by (simp add: tracker_call_def adv_method_def adv_log_def t e console_print_def)
  from a b 2 show ?thesis by simp
qed

text \<open>
  The claim C8 as it is worded fails on a message with markup in it: it is rendered with
  its brackets as they are. The command runner relies on this, it wraps every line of the
  solver in \<^verbatim>\<open>[dim]...[/dim]\<close>.
\<close>

theorem markup_in_message_not_escaped:
  "events (snd (tracker_call env0 (OpLog ''[red]x[/red]'') w_adv))
     = [Call (OpLog ''[red]x[/red]''), ConsolePrint ''  [red]x[/red]'']"
  by (simp add: w_adv_eq tracker_defs)

subsection \<open>Completing a phase\<close>

lemma adv_complete_phase_sub_progress:
  "task_completed (phase_task (fst (adv_complete_phase env phase_name self w))) = 100
   \<and> task_total (phase_task (fst (adv_complete_phase env phase_name self w))) = task_total (phase_task self)"
  by (simp add: adv_complete_phase_def adv_log_def progress_update_def time_time_def Let_def
      split: option.splits)

lemma adv_complete_phase_overall:
  "task_completed (overall_task (fst (adv_complete_phase env phase_name self w))) = current_phase_idx self + 1"
  by (simp add: adv_complete_phase_def adv_log_def progress_update_def time_time_def Let_def
      split: option.splits)

lemma adv_complete_phase_elapsed:
  "phase_start_time self = Some started \<Longrightarrow> started \<noteq> 0 \<Longrightarrow>
     phase_times (fst (adv_complete_phase env phase_name self w)) phase_name
       = Some (time_at env (ticks w) - started)"
  by (simp add: adv_complete_phase_def adv_log_def progress_update_def time_time_def Let_def)

text \<open>
  Claim C9 holds for the elapsed time and for the overall counter (the three lemmas
  above), and fails for the sub-progress: \<^verbatim>\<open>complete_phase\<close> sets its completed count to
  the constant 100, whatever the total is. With the total of 1000000 photons set, the phase
  ends with 100 of 1000000.
\<close>

theorem complete_phase_leaves_total_unreached:
  "(case run_steps [tracker_call env0 (OpStartPhase ''MC Thermal''),
                    tracker_call env0 (OpSetPhaseTotal 1000000),
                    tracker_call env0 (OpCompletePhase ''MC Thermal'')] w_adv of
      (r, w) \<Rightarrow> r = None
         \<and> map_option task_completed (progress_of w) = Some 100
         \<and> map_option task_total (progress_of w) = Some (Some 1000000))"
  by (simp add: w_adv_eq tracker_defs progress_of_def env0_def estimates_def)

section \<open>Properties of the scoped suppression of output\<close>

lemma fd_target_Nil [simp]: "fd_target [] fd = None"
  by (simp add: fd_target_def)

lemma fd_target_Cons: "fd_target (x # tab) fd = (case fd of 0 \<Rightarrow> x | Suc k \<Rightarrow> fd_target tab k)"
  by (simp add: fd_target_def split: nat.splits)

lemma alloc_fd_free: "alloc_fd t tab = (n, tab') \<Longrightarrow> fd_target tab n = None"
  by (induction t tab arbitrary: n tab' rule: alloc_fd.induct)
     (auto simp: fd_target_Cons split: prod.splits)

lemma alloc_fd_target:
  "alloc_fd t tab = (n, tab') \<Longrightarrow> fd_target tab' fd = (if fd = n then Some t else fd_target tab fd)"
  by (induction t tab arbitrary: n tab' fd rule: alloc_fd.induct)
     (auto simp: fd_target_Cons split: prod.splits nat.splits)

lemma fd_target_set_fd:
  "fd_target (set_fd fd x tab) fd' = (if fd' = fd then x else fd_target tab fd')"
  by (auto simp: fd_target_def set_fd_def nth_append)

lemma os_open_spec:
  assumes "os_open path w = (d, w1)"
  shows "fd_target (fds w) d = None" and "fd_target (fds w1) = (fd_target (fds w))(d \<mapsto> path)"
proof -
  obtain tab where a: "alloc_fd path (fds w) = (d, tab)" and w1: "fds w1 = tab"
    using assms by (auto simp: os_open_def split: prod.splits)
  show "fd_target (fds w) d = None" using alloc_fd_free [OF a] .
  show "fd_target (fds w1) = (fd_target (fds w))(d \<mapsto> path)"
    using alloc_fd_target [OF a] w1 by (auto simp: fun_eq_iff)
qed

lemma os_dup_spec:
  assumes "fd_target (fds w) fd = Some t"
  shows "\<exists>n w1. os_dup fd w = (Inr n, w1) \<and> fd_target (fds w) n = None
            \<and> fd_target (fds w1) = (fd_target (fds w))(n \<mapsto> t)"
proof -
  obtain n tab where a: "alloc_fd t (fds w) = (n, tab)" by (cases "alloc_fd t (fds w)")
  have "os_dup fd w = (Inr n, emit (Sys (FdDup fd n)) (w\<lparr>fds := tab\<rparr>))"
    by (simp add: os_dup_def assms a)
  moreover have "fd_target (fds w) n = None" using alloc_fd_free [OF a] .
  moreover have "fd_target (fds (emit (Sys (FdDup fd n)) (w\<lparr>fds := tab\<rparr>))) = (fd_target (fds w))(n \<mapsto> t)"
    using alloc_fd_target [OF a] by (auto simp: fun_eq_iff)
  ultimately show ?thesis by blast
qed

lemma os_dup2_spec:
  assumes "fd_target (fds w) fd = Some t"
  shows "\<exists>w1. os_dup2 fd fd2 w = (None, w1) \<and> fd_target (fds w1) = (fd_target (fds w))(fd2 \<mapsto> t)"
  by (auto simp: os_dup2_def assms fun_eq_iff fd_target_set_fd)

lemma os_close_spec:
  assumes "fd_target (fds w) fd = Some t"
  shows "\<exists>w1. os_close fd w = (None, w1) \<and> fd_target (fds w1) = (fd_target (fds w))(fd := None)"
  by (auto simp: os_close_def assms fun_eq_iff fd_target_set_fd)

lemma redirected_block:
  fixes w :: world and body :: step
  assumes d: "fd_target (fds w) d = Some null" and o1: "fd_target (fds w) o1 = Some out"
    and o2: "fd_target (fds w) o2 = Some err"
    and ne: "d \<noteq> 1" "d \<noteq> 2" "o1 \<noteq> 1" "o1 \<noteq> 2" "o2 \<noteq> 1" "o2 \<noteq> 2" "o1 \<noteq> o2"
    and body: "\<forall>v. fds (snd (body v)) = fds v"
  shows "\<exists>v w'. try_finally (run_steps [os_dup2 d 1, os_dup2 d 2, body])
                  (run_steps [os_dup2 o1 1, os_dup2 o2 2, os_close o1, os_close o2]) w
               = (fst (body v), w')
           \<and> fd_target (fds v) 1 = Some null \<and> fd_target (fds v) 2 = Some null
           \<and> fd_target (fds w') = (fd_target (fds w))(1 \<mapsto> out, 2 \<mapsto> err, o1 := None, o2 := None)"
proof -
  from os_dup2_spec [OF d, of 1] obtain w4 where
    s4: "os_dup2 d 1 w = (None, w4)" and m4: "fd_target (fds w4) = (fd_target (fds w))(1 \<mapsto> null)"
    by blast
  have "fd_target (fds w4) d = Some null" using d ne by (simp add: m4)
  from os_dup2_spec [OF this, of 2] obtain w5 where
    s5: "os_dup2 d 2 w4 = (None, w5)" and m5: "fd_target (fds w5) = (fd_target (fds w4))(2 \<mapsto> null)"
    by blast
  obtain r w6 where b: "body w5 = (r, w6)" by (cases "body w5")
  with body have m6: "fds w6 = fds w5" by (metis snd_conv)
  have inner: "run_steps [os_dup2 d 1, os_dup2 d 2, body] w = (r, w6)"
    using s4 s5 b by (cases r) simp_all
  have "fd_target (fds w6) o1 = Some out" using o1 ne by (simp add: m6 m5 m4)
  from os_dup2_spec [OF this, of 1] obtain w7 where
    s7: "os_dup2 o1 1 w6 = (None, w7)" and m7: "fd_target (fds w7) = (fd_target (fds w6))(1 \<mapsto> out)"
    by blast
  have "fd_target (fds w7) o2 = Some err" using o2 ne by (simp add: m7 m6 m5 m4)
  from os_dup2_spec [OF this, of 2] obtain w8 where
    s8: "os_dup2 o2 2 w7 = (None, w8)" and m8: "fd_target (fds w8) = (fd_target (fds w7))(2 \<mapsto> err)"
    by blast
  have "fd_target (fds w8) o1 = Some out" using o1 ne by (simp add: m8 m7 m6 m5 m4)
  from os_close_spec [OF this] obtain w9 where
    s9: "os_close o1 w8 = (None, w9)" and m9: "fd_target (fds w9) = (fd_target (fds w8))(o1 := None)"
    by blast
  have "fd_target (fds w9) o2 = Some err" using o2 ne by (simp add: m9 m8 m7 m6 m5 m4)
  from os_close_spec [OF this] obtain w10 where
    s10: "os_close o2 w9 = (None, w10)" and m10: "fd_target (fds w10) = (fd_target (fds w9))(o2 := None)"
    by blast
  have cleanup: "run_steps [os_dup2 o1 1, os_dup2 o2 2, os_close o1, os_close o2] w6 = (None, w10)"
    using s7 s8 s9 s10 by simp
  have res: "try_finally (run_steps [os_dup2 d 1, os_dup2 d 2, body])
                  (run_steps [os_dup2 o1 1, os_dup2 o2 2, os_close o1, os_close o2]) w = (fst (body w5), w10)"
    using inner cleanup b by (simp add: try_finally_def)
  have v: "fd_target (fds w5) 1 = Some null" "fd_target (fds w5) 2 = Some null"
    by (simp_all add: m5 m4)
  have final: "fd_target (fds w10) = (fd_target (fds w))(1 \<mapsto> out, 2 \<mapsto> err, o1 := None, o2 := None)"
    unfolding m10 m9 m8 m7 m6 m5 m4 by (rule ext) simp
  from res v final show ?thesis by blast
qed

text \<open>
  Claim C6. In a process whose descriptors 1 and 2 are open, around a call that leaves the
  table of descriptors as it is: the call runs with both descriptors on the null device;
  what the call raises, the block raises; and after the block every descriptor is open on
  what it was open on before the block, or closed as before, whether the call has raised
  or not.
\<close>

theorem suppress_output_restores:
  assumes out: "fd_target (fds w) 1 = Some out" and err: "fd_target (fds w) 2 = Some err"
    and body: "\<forall>v. fds (snd (body v)) = fds v"
  shows "\<exists>v. fd_target (fds v) 1 = Some ''/dev/null'' \<and> fd_target (fds v) 2 = Some ''/dev/null''
           \<and> fst (suppress_output body w) = fst (body v)
           \<and> (\<forall>fd. fd_target (fds (snd (suppress_output body w))) fd = fd_target (fds w) fd)"
proof -
  let ?m = "fd_target (fds w)"
  obtain d w1 where o: "os_open ''/dev/null'' w = (d, w1)" by (cases "os_open ''/dev/null'' w")
  from os_open_spec [OF o] have d: "?m d = None" and m1: "fd_target (fds w1) = ?m(d \<mapsto> ''/dev/null'')"
    by simp_all
  from d out err have d12: "d \<noteq> 1" "d \<noteq> 2" by auto
  have "fd_target (fds w1) 1 = Some out" using d12 out by (simp add: m1)
  from os_dup_spec [OF this] obtain o1 w2 where
    dup1: "os_dup 1 w1 = (Inr o1, w2)" and o1: "fd_target (fds w1) o1 = None"
    and m2: "fd_target (fds w2) = (fd_target (fds w1))(o1 \<mapsto> out)" by blast
  from o1 out err have o1n: "o1 \<noteq> d" "o1 \<noteq> 1" "o1 \<noteq> 2" "?m o1 = None"
    by (auto simp: m1 split: if_splits)
  have "fd_target (fds w2) 2 = Some err" using o1n d12 err by (simp add: m2 m1)
  from os_dup_spec [OF this] obtain o2 w3 where
    dup2: "os_dup 2 w2 = (Inr o2, w3)" and o2: "fd_target (fds w2) o2 = None"
    and m3: "fd_target (fds w3) = (fd_target (fds w2))(o2 \<mapsto> err)" by blast
  from o2 out err have o2n: "o2 \<noteq> o1" "o2 \<noteq> d" "o2 \<noteq> 1" "o2 \<noteq> 2" "?m o2 = None"
    by (auto simp: m2 m1 split: if_splits)
  have l3: "fd_target (fds w3) d = Some ''/dev/null''" "fd_target (fds w3) o1 = Some out"
    "fd_target (fds w3) o2 = Some err"
    using o1n o2n by (simp_all add: m3 m2 m1)
  from redirected_block [OF l3 d12 o1n(2,3) o2n(3,4) o2n(1) [symmetric] body] obtain v w10 where
    blk: "try_finally (run_steps [os_dup2 d 1, os_dup2 d 2, body])
                  (run_steps [os_dup2 o1 1, os_dup2 o2 2, os_close o1, os_close o2]) w3
               = (fst (body v), w10)"
    and v: "fd_target (fds v) 1 = Some ''/dev/null''" "fd_target (fds v) 2 = Some ''/dev/null''"
    and m10: "fd_target (fds w10) = (fd_target (fds w3))(1 \<mapsto> out, 2 \<mapsto> err, o1 := None, o2 := None)"
    by blast
  have "fd_target (fds w10) d = Some ''/dev/null''"
    using o1n o2n d12 by (simp add: m10 m3 m2 m1)
  from os_close_spec [OF this] obtain w11 where
    s11: "os_close d w10 = (None, w11)" and m11: "fd_target (fds w11) = (fd_target (fds w10))(d := None)"
    by blast
  have res: "suppress_output body w = (fst (body v), w11)"
    using o dup1 dup2 blk s11 by (simp add: suppress_output_def try_finally_def)
  have final: "fd_target (fds w11) fd = ?m fd" for fd
    using d o1n o2n out err by (simp add: m11 m10 m3 m2 m1)
  from v res final show ?thesis by (intro exI [of _ v]) simp
qed

theorem suppress_output_restores_witness:
  "fd_target (fds w_init) 1 = Some ''/dev/tty'' \<and> fd_target (fds w_init) 2 = Some ''/dev/tty''
   \<and> fst (suppress_output (raise_exc (OtherError ''set-up failed'')) w_init)
        = Some (OtherError ''set-up failed'')
   \<and> (\<forall>fd. fd_target (fds (snd (suppress_output (raise_exc (OtherError ''set-up failed'')) w_init))) fd
             = fd_target (fds w_init) fd)"
proof -
  let ?body = "raise_exc (OtherError ''set-up failed'')"
  have 1: "fd_target (fds w_init) 1 = Some ''/dev/tty''" and 2: "fd_target (fds w_init) 2 = Some ''/dev/tty''"
    by (simp_all add: w_init_def fd_target_def)
  have b: "\<forall>v. fds (snd (?body v)) = fds v"
    by (simp add: raise_exc_def)
  have f: "fst (?body v) = Some (OtherError ''set-up failed'')" for v
    by (simp add: raise_exc_def)
  from suppress_output_restores [OF 1 2 b] obtain v where
    "fst (suppress_output ?body w_init) = fst (?body v)"
    "\<forall>fd. fd_target (fds (snd (suppress_output ?body w_init))) fd = fd_target (fds w_init) fd"
    by blast
  with f 1 2 show ?thesis by simp
qed

section \<open>Properties of the command runner\<close>

subsection \<open>What a method call adds to the trace\<close>

lemma calls_of_append: "calls_of (es @ fs) = calls_of es @ calls_of fs"
  by (induction es rule: calls_of.induct) simp_all

lemma calls_of_ui: "list_all is_ui es \<Longrightarrow> calls_of es = []"
  by (induction es rule: calls_of.induct) (simp_all add: is_ui_def)

lemma tracker_call_raw:
  "tracker w = RawTracker \<Longrightarrow>
     \<exists>es. events (snd (tracker_call env op w)) = events w @ Call op # es \<and> list_all is_ui es"
  by (cases op) (simp_all add: tracker_defs is_ui_def)

lemma tracker_call_adv_events:
  "tracker w = AdvancedPhaseTracker self \<Longrightarrow>
     \<exists>es. events (snd (tracker_call env op w)) = events w @ Call op # es \<and> list_all is_ui es"
  by (cases op)
     (auto simp: tracker_defs is_ui_def Let_def split: option.splits prod.splits)

lemma tracker_call_events:
  "\<exists>es. events (snd (tracker_call env op w)) = events w @ Call op # es \<and> list_all is_ui es"
proof (cases "tracker w")
  case RawTracker
  from tracker_call_raw [OF this, of env op] show ?thesis by auto
next
  case (AdvancedPhaseTracker self)
  from tracker_call_adv_events [OF this] show ?thesis .
qed

lemma tracker_call_kind: "is_raw (tracker (snd (tracker_call env op w))) = is_raw (tracker w)"
  by (cases "tracker w"; cases op)
     (auto simp: tracker_defs is_raw_def Let_def split: option.splits prod.splits)

lemma tracker_call_fds: "fds (snd (tracker_call env op w)) = fds w"
  by (cases "tracker w"; cases op)
     (auto simp: tracker_defs Let_def split: option.splits prod.splits)

lemma tracker_call_returns:
  "(\<forall>name. op \<noteq> OpStartPhase name) \<Longrightarrow> fst (tracker_call env op w) = None"
  by (cases "tracker w"; cases op)
     (auto simp: tracker_defs Let_def split: option.splits prod.splits)

lemma tracker_call_log_adv:
  "tracker w = AdvancedPhaseTracker self \<Longrightarrow>
     tracker (snd (tracker_call env (OpLog m) w)) = AdvancedPhaseTracker self"
  by (simp add: tracker_defs)

lemma tracker_call_update_adv:
  "tracker w = AdvancedPhaseTracker self \<Longrightarrow>
     tracker (snd (tracker_call env (OpUpdateProgress n) w))
       = AdvancedPhaseTracker (self\<lparr>phase_task := (phase_task self)\<lparr>task_completed := n\<rparr>\<rparr>)"
  by (simp add: tracker_defs)

subsection \<open>The pattern of the photon count\<close>

lemma digit_char_is_digit: "d < 10 \<Longrightarrow> is_digit (digit_char d)"
proof -
  assume "d < 10"
  then have "d \<in> {0, 1, 2, 3, 4, 5, 6, 7, 8, 9}" by auto
  then show ?thesis by (auto simp: is_digit_def digit_char_def)
qed

lemma digit_value_digit_char: "d < 10 \<Longrightarrow> digit_value (digit_char d) = int d"
proof -
  assume "d < 10"
  then have "d \<in> {0, 1, 2, 3, 4, 5, 6, 7, 8, 9}" by auto
  then show ?thesis by (auto simp: digit_value_def digit_char_def)
qed

lemma str_nat_digits: "list_all is_digit (str_nat n)"
proof (induction n rule: str_nat.induct)
  case (1 n)
  show ?case
  proof (cases "n < 10")
    case True
    then show ?thesis by (subst str_nat.simps) (simp add: digit_char_is_digit)
  next
    case False
    with 1 have "list_all is_digit (str_nat (n div 10))" by simp
    with False show ?thesis by (subst str_nat.simps) (simp add: digit_char_is_digit)
  qed
qed

lemma str_nat_not_empty: "str_nat n \<noteq> []"
  by (subst str_nat.simps) simp

lemma int_of_digits_snoc: "int_of_digits (ds @ [c]) = 10 * int_of_digits ds + digit_value c"
  by (simp add: int_of_digits_def)

lemma int_of_digits_str_nat: "int_of_digits (str_nat n) = int n"
proof (induction n rule: str_nat.induct)
  case (1 n)
  show ?case
  proof (cases "n < 10")
    case True
    then show ?thesis
      by (subst str_nat.simps) (simp add: int_of_digits_def digit_value_digit_char)
  next
    case False
    with 1 have ih: "int_of_digits (str_nat (n div 10)) = int (n div 10)" by simp
    have "int (10 * (n div 10) + n mod 10) = int n" by simp
    then have "10 * int (n div 10) + int (n mod 10) = int n" by (simp only: of_nat_add of_nat_mult of_nat_numeral)
    with False ih show ?thesis
      by (subst str_nat.simps) (simp add: int_of_digits_snoc digit_value_digit_char)
  qed
qed

lemma digit_not_space: "is_digit c \<Longrightarrow> \<not> is_space c"
  by (auto simp: is_digit_def is_space_def)

lemma dropWhile_space_digits: "ds \<noteq> [] \<Longrightarrow> list_all is_digit ds \<Longrightarrow> dropWhile is_space (ds @ r) = ds @ r"
  by (cases ds) (simp_all add: digit_not_space)

lemma takeWhile_digits: "list_all is_digit ds \<Longrightarrow> takeWhile is_digit ds = ds"
  by (induction ds) simp_all

lemma photon_match_canonical:
  assumes "sep = [] \<or> sep = '':'' \<or> sep = ''.''" and "ds \<noteq> []" and "list_all is_digit ds"
  shows "photon_match (''Photon nr'' @ sep @ '' '' @ ds) = Some ds"
proof -
  have sp: "is_space CHR '' ''" "\<not> is_space CHR ''n''" by (simp_all add: is_space_def)
  have d: "dropWhile is_space ds = ds" using dropWhile_space_digits [OF assms(2,3), of "[]"] by simp
  have m: "match_spaces ('' '' @ ds) = Some ds" by (simp add: match_spaces_def sp d)
  have t: "match_digits ds = Some ds" using assms(2,3) by (simp add: match_digits_def takeWhile_digits)
  have s: "match_separator (sep @ '' '' @ ds) = '' '' @ ds"
    using assms(1) by (auto simp: match_separator_def)
  show ?thesis
    using m t s by (simp add: photon_match_def option_bind_def match_spaces_def sp)
qed

lemma photon_search_canonical:
  assumes "sep = [] \<or> sep = '':'' \<or> sep = ''.''" and "ds \<noteq> []" and "list_all is_digit ds"
  shows "photon_search (''Photon nr'' @ sep @ '' '' @ ds) = Some ds"
  using photon_match_canonical [OF assms] by simp

subsection \<open>The loop over the lines of the solver\<close>

lemma process_line_blank: "strip line = [] \<Longrightarrow> process_line env tp line w = (None, w)"
  by (simp add: process_line_def skip_def)

lemma process_line_events:
  "\<exists>es. events (snd (process_line env tp line w)) = events w @ es
        \<and> calls_of es = line_calls tp line \<and> fst (process_line env tp line w) = None"
proof (cases "strip line = []")
  case True
  then show ?thesis by (simp add: process_line_blank line_calls_def)
next
  case False
  let ?log = "OpLog (''[dim]'' @ strip line @ ''[/dim]'')"
  obtain w1 where 1: "tracker_call env ?log w = (None, w1)"
    using tracker_call_returns [of ?log env w] by (cases "tracker_call env ?log w") auto
  from tracker_call_events [of env ?log w] 1 obtain es1 where
    e1: "events w1 = events w @ Call ?log # es1" and u1: "list_all is_ui es1" by auto
  show ?thesis
  proof (cases "truthy tp \<and> photon_search (strip line) \<noteq> None")
    case True
    then obtain ds where ds: "photon_search (strip line) = Some ds" and t: "truthy tp" by auto
    let ?upd = "OpUpdateProgress (int_of_digits ds)"
    obtain w2 where 2: "tracker_call env ?upd w1 = (None, w2)"
      using tracker_call_returns [of ?upd env w1] by (cases "tracker_call env ?upd w1") auto
    from tracker_call_events [of env ?upd w1] 2 obtain es2 where
      e2: "events w2 = events w1 @ Call ?upd # es2" and u2: "list_all is_ui es2" by auto
    have "process_line env tp line w = (None, w2)"
      using False t ds 1 2 by (simp add: process_line_def except_ValueError_def)
    then show ?thesis
      using e1 e2 u1 u2 False t ds
      by (simp add: line_calls_def calls_of_append calls_of_ui)
  next
    case f: False
    then have "process_line env tp line w = (None, w1)"
      using False 1 by (auto simp: process_line_def skip_def Let_def split: option.splits)
    then show ?thesis
      using e1 u1 False f by (auto simp: line_calls_def calls_of_append calls_of_ui)
  qed
qed

lemma process_lines_events:
  "\<exists>es. events (snd (run_steps (map (process_line env tp) lines) w)) = events w @ es
        \<and> calls_of es = concat (map (line_calls tp) lines)
        \<and> fst (run_steps (map (process_line env tp) lines) w) = None"
proof (induction lines arbitrary: w)
  case Nil
  show ?case by simp
next
  case (Cons line lines)
  from process_line_events [of env tp line w] obtain es1 w1 where
    1: "process_line env tp line w = (None, w1)" and e1: "events w1 = events w @ es1"
    and c1: "calls_of es1 = line_calls tp line"
    by (cases "process_line env tp line w") auto
  from Cons.IH [of w1] obtain es2 where
    e2: "events (snd (run_steps (map (process_line env tp) lines) w1)) = events w1 @ es2"
    and c2: "calls_of es2 = concat (map (line_calls tp) lines)"
    and r2: "fst (run_steps (map (process_line env tp) lines) w1) = None" by blast
  show ?case
    using 1 e1 c1 e2 c2 r2 by (simp add: calls_of_append)
qed

lemma process_line_progress:
  assumes "tracker w = AdvancedPhaseTracker self"
  shows "map_option task_completed (progress_of (snd (process_line env tp line w)))
     = (case line_calls tp line of
          [OpLog m, OpUpdateProgress n] \<Rightarrow> Some n
        | _ \<Rightarrow> Some (task_completed (phase_task self)))"
proof (cases "strip line = []")
  case True
  then show ?thesis using assms by (simp add: process_line_blank line_calls_def progress_of_def)
next
  case False
  let ?log = "OpLog (''[dim]'' @ strip line @ ''[/dim]'')"
  obtain w1 where 1: "tracker_call env ?log w = (None, w1)"
    using tracker_call_returns [of ?log env w] by (cases "tracker_call env ?log w") auto
  have t1: "tracker w1 = AdvancedPhaseTracker self"
    using tracker_call_log_adv [OF assms, of env "''[dim]'' @ strip line @ ''[/dim]''"] 1 by simp
  show ?thesis
  proof (cases "truthy tp \<and> photon_search (strip line) \<noteq> None")
    case True
    then obtain ds where ds: "photon_search (strip line) = Some ds" and t: "truthy tp" by auto
    let ?upd = "OpUpdateProgress (int_of_digits ds)"
    obtain w2 where 2: "tracker_call env ?upd w1 = (None, w2)"
      using tracker_call_returns [of ?upd env w1] by (cases "tracker_call env ?upd w1") auto
    have t2: "tracker w2 = AdvancedPhaseTracker (self\<lparr>phase_task := (phase_task self)\<lparr>task_completed := int_of_digits ds\<rparr>\<rparr>)"
      using tracker_call_update_adv [OF t1, of env "int_of_digits ds"] 2 by simp
    have "process_line env tp line w = (None, w2)"
      using False t ds 1 2 by (simp add: process_line_def except_ValueError_def)
    then show ?thesis
      using t2 False t ds by (simp add: line_calls_def progress_of_def)
  next
    case f: False
    then have "process_line env tp line w = (None, w1)"
      using False 1 by (auto simp: process_line_def skip_def Let_def split: option.splits)
    then show ?thesis
      using t1 False f by (auto simp: line_calls_def progress_of_def)
  qed
qed

subsection \<open>Statements that add events of one kind\<close>

lemma extends_refl: "extends P w w"
  by (simp add: extends_def)

lemma extends_trans: "extends P w w1 \<Longrightarrow> extends P w1 w2 \<Longrightarrow> extends P w w2"
  by (auto simp: extends_def)

lemma extends_mono: "extends P w w' \<Longrightarrow> (\<And>e. P e \<Longrightarrow> Q e) \<Longrightarrow> extends Q w w'"
  by (auto simp: extends_def list_all_iff)

lemma extends_emit: "P e \<Longrightarrow> extends P w (emit e w)"
  by (simp add: extends_def)

lemma extends_clock: "extends P w (w\<lparr>ticks := k\<rparr>)"
  by (simp add: extends_def)

lemma extends_logging: "P (Logging l m) \<Longrightarrow> extends P w (logging l m w)"
  by (simp add: logging_def extends_emit)

lemma addsI: "(\<And>w. extends P w (snd (s w))) \<Longrightarrow> adds P s"
  by (simp add: adds_def)

lemma addsD: "adds P s \<Longrightarrow> extends P w (snd (s w))"
  by (simp add: adds_def)

lemma addsD_pair: "adds P s \<Longrightarrow> s w = (r, w') \<Longrightarrow> extends P w w'"
  by (metis addsD snd_conv)

lemma adds_mono: "adds P s \<Longrightarrow> (\<And>e. P e \<Longrightarrow> Q e) \<Longrightarrow> adds Q s"
  unfolding adds_def using extends_mono by blast

lemma adds_skip: "adds P skip"
  by (simp add: adds_def skip_def extends_refl)

lemma adds_raise_exc: "adds P (raise_exc e)"
  by (simp add: adds_def raise_exc_def extends_refl)

lemma adds_pure: "(\<And>w. extends P w (f w)) \<Longrightarrow> adds P (pure f)"
  by (simp add: adds_def pure_def)

lemma adds_emit: "P e \<Longrightarrow> adds P (pure (emit e))"
  by (simp add: adds_pure extends_emit)

lemma adds_logging: "P (Logging l m) \<Longrightarrow> adds P (pure (logging l m))"
  by (simp add: adds_pure extends_logging)

lemma adds_require_key: "adds P (require_key ps k)"
  by (simp add: adds_def require_key_def extends_refl split: option.splits)

lemma adds_lib_call: "P (LibCall name) \<Longrightarrow> adds P (lib_call env name)"
  by (simp add: adds_def lib_call_def extends_emit)

lemma adds_if: "adds P a \<Longrightarrow> adds P b \<Longrightarrow> adds P (if c then a else b)"
  by simp

lemma adds_run_steps: "list_all (adds P) ss \<Longrightarrow> adds P (run_steps ss)"
proof (induction ss)
  case Nil
  show ?case by (simp add: adds_def extends_refl)
next
  case (Cons s ss)
  then have s: "adds P s" and ss: "adds P (run_steps ss)" by simp_all
  show ?case
  proof (rule addsI)
    fix w
    obtain r w1 where 1: "s w = (r, w1)" by (cases "s w")
    from addsD_pair [OF s 1] have e1: "extends P w w1" .
    show "extends P w (snd (run_steps (s # ss) w))"
    proof (cases r)
      case None
      with 1 have "run_steps (s # ss) w = run_steps ss w1" by simp
      with extends_trans [OF e1 addsD [OF ss, of w1]] show ?thesis by simp
    next
      case (Some e)
      with 1 e1 show ?thesis by simp
    qed
  qed
qed

lemma adds_try_finally: "adds P body \<Longrightarrow> adds P cleanup \<Longrightarrow> adds P (try_finally body cleanup)"
proof (rule addsI)
  fix w
  assume b: "adds P body" and c: "adds P cleanup"
  obtain r w1 where 1: "body w = (r, w1)" by (cases "body w")
  obtain r2 w2 where 2: "cleanup w1 = (r2, w2)" by (cases "cleanup w1")
  have "snd (try_finally body cleanup w) = w2"
    using 1 2 by (cases r2) (simp_all add: try_finally_def)
  with extends_trans [OF addsD_pair [OF b 1] addsD_pair [OF c 2]]
  show "extends P w (snd (try_finally body cleanup w))" by simp
qed

lemma adds_except_ValueError: "adds P stmt \<Longrightarrow> adds P handler \<Longrightarrow> adds P (except_ValueError stmt handler)"
proof (rule addsI)
  fix w
  assume b: "adds P stmt" and c: "adds P handler"
  obtain r w1 where 1: "stmt w = (r, w1)" by (cases "stmt w")
  from addsD_pair [OF b 1] have e1: "extends P w w1" .
  show "extends P w (snd (except_ValueError stmt handler w))"
  proof (cases "r = Some ValueError")
    case True
    with 1 have "except_ValueError stmt handler w = handler w1"
      by (simp add: except_ValueError_def)
    with extends_trans [OF e1 addsD [OF c, of w1]] show ?thesis by simp
  next
    case False
    with 1 have "except_ValueError stmt handler w = (r, w1)"
      by (cases r) (auto simp: except_ValueError_def split: exc.splits)
    with e1 show ?thesis by simp
  qed
qed

lemma adds_tracker_call:
  assumes "P (Call op)" and "\<And>e. is_ui e \<Longrightarrow> P e"
  shows "adds P (tracker_call env op)"
proof (rule addsI)
  fix w
  from tracker_call_events [of env op w] obtain es where
    "events (snd (tracker_call env op w)) = events w @ Call op # es" "list_all is_ui es" by blast
  with assms have "\<exists>es. events (snd (tracker_call env op w)) = events w @ es \<and> list_all P es"
    by (auto simp: list_all_iff)
  then show "extends P w (snd (tracker_call env op w))"
    by (simp add: extends_def tracker_call_kind)
qed

subsection \<open>The events of the command runner\<close>

lemma ui_quiet: "is_ui e \<Longrightarrow> runner_quiet e"
  by (cases e) (simp_all add: is_ui_def runner_quiet_def)

lemma extends_log_command: "extends runner_quiet w (log_command env c w)"
  by (simp add: extends_def log_command_def logging_def runner_quiet_def)

lemma extends_log_return: "extends runner_quiet w (log_return env rc t0 w)"
  by (simp add: extends_def log_return_def logging_def time_time_def runner_quiet_def Let_def)

lemma log_return_events:
  "\<exists>a b. events (log_return env rc t0 w) = events w @ [Logging INFO a, Logging INFO b]"
  by (simp add: log_return_def logging_def time_time_def Let_def)

lemma adds_set_total: "adds runner_quiet (set_total env tp)"
proof -
  have 1: "adds runner_quiet (tracker_call env (OpSetPhaseTotal n))" for n
    by (rule adds_tracker_call [OF _ ui_quiet]) (simp add: runner_quiet_def)
  have 2: "adds runner_quiet (tracker_call env (OpLog m))" for m
    by (rule adds_tracker_call [OF _ ui_quiet]) (simp add: runner_quiet_def)
  have 3: "adds runner_quiet (\<lambda>w. case and_then (py_float env tp) py_int_of_float of
                  Inl e \<Rightarrow> (Some e, w)
                | Inr safe_total \<Rightarrow> tracker_call env (OpSetPhaseTotal safe_total) w)"
    using 1 by (cases "and_then (py_float env tp) py_int_of_float") (simp_all add: adds_def extends_refl)
  show ?thesis
    unfolding set_total_def using 2 3 by (simp add: adds_except_ValueError adds_skip)
qed

lemma adds_process_line: "adds runner_quiet (process_line env tp line)"
proof -
  have 1: "adds runner_quiet (tracker_call env (OpUpdateProgress n))" for n
    by (rule adds_tracker_call [OF _ ui_quiet]) (simp add: runner_quiet_def)
  have 2: "adds runner_quiet (tracker_call env (OpLog m))" for m
    by (rule adds_tracker_call [OF _ ui_quiet]) (simp add: runner_quiet_def)
  show ?thesis
    unfolding process_line_def Let_def
    by (auto intro!: adds_run_steps adds_except_ValueError adds_skip 1 2 split: option.splits)
qed

lemma adds_process_lines: "adds runner_quiet (run_steps (map (process_line env tp) lines))"
  by (rule adds_run_steps) (simp add: list_all_iff adds_process_line)

lemma raw_mode_outcome:
  assumes "subprocess env args = (out, rc)"
  shows "fst (raw_mode env cmd args t0 w) = (if rc \<noteq> 0 then Some (RuntimeError (''Command failed: '' @ cmd)) else None)"
    and "\<exists>post. events (snd (raw_mode env cmd args t0 w)) = events w @ Spawn args False # [Passthrough out] @ Exit rc # post
           \<and> list_all runner_quiet post \<and> (rc = 0 \<or> (\<exists>m. Logging ERROR m \<in> set post))
           \<and> (\<forall>m. Call (OpLog m) \<notin> set post)
           \<and> (rc = 0 \<or> failure_tail True cmd rc post)"
    and "tracker (snd (raw_mode env cmd args t0 w)) = tracker w"
  using assms
  by (simp_all add: raw_mode_def log_return_def logging_def time_time_def runner_quiet_def Let_def
      failure_tail_def)

lemma extendsE:
  assumes "extends P w w'"
  obtains es where "events w' = events w @ es" "list_all P es" "is_raw (tracker w') = is_raw (tracker w)"
  using assms by (auto simp: extends_def)

lemma advanced_mode_cases:
  assumes sp: "subprocess env args = (out, rc)"
  obtains (early) e es where
      "fst (set_total env tp w) = Some e"
      "fst (advanced_mode env cmd args tp t0 w) = Some e"
      "events (snd (advanced_mode env cmd args tp t0 w)) = events w @ es"
      "list_all runner_quiet es"
      "is_raw (tracker (snd (advanced_mode env cmd args tp t0 w))) = is_raw (tracker w)"
  | (ran) pre mid post where
      "fst (set_total env tp w) = None"
      "fst (advanced_mode env cmd args tp t0 w)
         = (if rc \<noteq> 0 then Some (RuntimeError (''Command failed: '' @ cmd)) else None)"
      "events (snd (advanced_mode env cmd args tp t0 w))
         = events w @ pre @ Spawn args True # mid @ Exit rc # post"
      "events (snd (set_total env tp w)) = events w @ pre"
      "list_all runner_quiet pre" "list_all runner_quiet mid" "list_all runner_quiet post"
      "calls_of mid = concat (map (line_calls tp) (takeWhile (\<lambda>l. l \<noteq> []) out))"
      "rc = 0 \<or> (\<exists>m. Logging ERROR m \<in> set post) \<and> (\<exists>m. Call (OpLog m) \<in> set post)"
      "is_raw (tracker (snd (advanced_mode env cmd args tp t0 w))) = is_raw (tracker w)"
      "rc = 0 \<or> failure_tail False cmd rc post"
proof -
  let ?lines = "takeWhile (\<lambda>l. l \<noteq> []) out"
  let ?fail = "OpLog (''[red bold]Process failed with code '' @ str_int rc @ ''[/red bold]'')"
  let ?err = "Logging ERROR (''Command failed with return code '' @ str_int rc @ '': '' @ cmd)"
  obtain r0 w0 where s0: "set_total env tp w = (r0, w0)" by (cases "set_total env tp w")
  from addsD_pair [OF adds_set_total s0] obtain pre where
    e0: "events w0 = events w @ pre" and q0: "list_all runner_quiet pre"
    and k0: "is_raw (tracker w0) = is_raw (tracker w)" by (rule extendsE)
  show ?thesis
  proof (cases r0)
    case (Some e)
    then have a: "advanced_mode env cmd args tp t0 w = (Some e, w0)"
      using s0 sp by (simp add: advanced_mode_def)
    show ?thesis
      by (rule early [of e pre]) (simp_all add: s0 Some a e0 q0 k0)
  next
    case None
    let ?w1 = "emit (Spawn args True) w0"
    from process_lines_events [of env tp ?lines ?w1] obtain mid w2 where
      l: "run_steps (map (process_line env tp) ?lines) ?w1 = (None, w2)"
      and e2: "events w2 = events ?w1 @ mid"
      and c2: "calls_of mid = concat (map (line_calls tp) ?lines)"
      by (cases "run_steps (map (process_line env tp) ?lines) ?w1") auto
    from addsD_pair [OF adds_process_lines l] obtain mid' where
      "events w2 = events ?w1 @ mid'" and "list_all runner_quiet mid'"
      and k2: "is_raw (tracker w2) = is_raw (tracker ?w1)" by (rule extendsE)
    with e2 have q2: "list_all runner_quiet mid" by simp
    let ?w3 = "emit (Exit rc) w2"
    let ?w4 = "log_return env rc t0 ?w3"
    from extends_log_return [of ?w3 env rc t0] obtain ret where
      e4: "events ?w4 = events ?w3 @ ret" and q4: "list_all runner_quiet ret"
      and k4: "is_raw (tracker ?w4) = is_raw (tracker ?w3)" by (rule extendsE)
    from log_return_events [of env rc t0 ?w3] e4 have c4: "calls_of ret = []" by auto
    have ev4: "events ?w4 = events w @ pre @ Spawn args True # mid @ Exit rc # ret"
      using e0 e2 e4 by simp
    have kd4: "is_raw (tracker ?w4) = is_raw (tracker w)"
      using k0 k2 k4 by simp
    show ?thesis
    proof (cases "rc = 0")
      case True
      then have a: "advanced_mode env cmd args tp t0 w = (None, ?w4)"
        using s0 sp None l by (simp add: advanced_mode_def pure_def skip_def)
      show ?thesis
      proof (rule ran [of pre mid ret])
        show "fst (set_total env tp w) = None" using s0 None by simp
        show "fst (advanced_mode env cmd args tp t0 w)
               = (if rc \<noteq> 0 then Some (RuntimeError (''Command failed: '' @ cmd)) else None)"
          using a True by simp
        show "events (snd (advanced_mode env cmd args tp t0 w))
               = events w @ pre @ Spawn args True # mid @ Exit rc # ret"
          using a ev4 by simp
        show "events (snd (set_total env tp w)) = events w @ pre" using s0 e0 by simp
        show "list_all runner_quiet pre" "list_all runner_quiet mid" "list_all runner_quiet ret"
          by (fact q0 q2 q4)+
        show "calls_of mid = concat (map (line_calls tp) ?lines)" by (fact c2)
        show "rc = 0 \<or> (\<exists>m. Logging ERROR m \<in> set ret) \<and> (\<exists>m. Call (OpLog m) \<in> set ret)"
          using True by simp
        show "is_raw (tracker (snd (advanced_mode env cmd args tp t0 w))) = is_raw (tracker w)"
          using a kd4 by simp
        show "rc = 0 \<or> failure_tail False cmd rc ret" using True by simp
      qed
    next
      case False
      obtain w5 where 5: "tracker_call env ?fail ?w4 = (None, w5)"
        using tracker_call_returns [of ?fail env ?w4] by (cases "tracker_call env ?fail ?w4") auto
      from tracker_call_events [of env ?fail ?w4] 5 obtain ui where
        e5: "events w5 = events ?w4 @ Call ?fail # ui" and q5: "list_all is_ui ui" by auto
      from q5 have q5': "list_all runner_quiet ui" by (auto simp: list_all_iff ui_quiet)
      have k5: "is_raw (tracker w5) = is_raw (tracker ?w4)"
        using tracker_call_kind [of env ?fail ?w4] 5 by simp
      let ?w6 = "emit ?err w5"
      let ?post = "ret @ Call ?fail # ui @ [?err]"
      have a: "advanced_mode env cmd args tp t0 w = (Some (RuntimeError (''Command failed: '' @ cmd)), ?w6)"
        using s0 sp None l False 5 by (simp add: advanced_mode_def pure_def raise_exc_def logging_def)
      show ?thesis
      proof (rule ran [of pre mid ?post])
        show "fst (set_total env tp w) = None" using s0 None by simp
        show "fst (advanced_mode env cmd args tp t0 w)
               = (if rc \<noteq> 0 then Some (RuntimeError (''Command failed: '' @ cmd)) else None)"
          using a False by simp
        show "events (snd (advanced_mode env cmd args tp t0 w))
               = events w @ pre @ Spawn args True # mid @ Exit rc # ?post"
          using a ev4 e5 by simp
        show "events (snd (set_total env tp w)) = events w @ pre" using s0 e0 by simp
        show "list_all runner_quiet pre" "list_all runner_quiet mid" by (fact q0 q2)+
        show "list_all runner_quiet ?post" using q4 q5' by (simp add: runner_quiet_def)
        show "calls_of mid = concat (map (line_calls tp) ?lines)" by (fact c2)
        show "rc = 0 \<or> (\<exists>m. Logging ERROR m \<in> set ?post) \<and> (\<exists>m. Call (OpLog m) \<in> set ?post)"
          by auto
        show "is_raw (tracker (snd (advanced_mode env cmd args tp t0 w))) = is_raw (tracker w)"
          using a k5 kd4 by simp
        show "rc = 0 \<or> failure_tail False cmd rc ?post"
          using q4 q5' c4 calls_of_ui [OF q5]
          by (simp add: failure_tail_def runner_quiet_def calls_of_append)
      qed
    qed
  qed
qed

lemma set_total_outcome: "fst (set_total env tp w) = total_outcome env tp"
proof (cases "truthy tp")
  case False
  then show ?thesis by (simp add: set_total_def total_outcome_def skip_def)
next
  case True
  show ?thesis
  proof (cases "and_then (py_float env tp) py_int_of_float")
    case (Inr n)
    have "fst (tracker_call env (OpSetPhaseTotal n) w) = None" by (simp add: tracker_call_returns)
    then show ?thesis
      using True Inr
      by (cases "tracker_call env (OpSetPhaseTotal n) w")
         (simp add: set_total_def total_outcome_def except_ValueError_def)
  next
    case (Inl e)
    let ?warn = "OpLog (''[yellow]Warning: Could not parse total_photons '' @ quote
                     @ py_str (str_other env) tp @ quote @ ''.[/yellow]'')"
    have "fst (tracker_call env ?warn w) = None" by (simp add: tracker_call_returns)
    then show ?thesis
      using True Inl
      by (cases e; cases "tracker_call env ?warn w")
         (simp_all add: set_total_def total_outcome_def except_ValueError_def)
  qed
qed

lemma run_radmc_command_cases:
  obtains (before) e es where
      "fst (run_radmc_command env cmd tp w) = Some e"
      "events (snd (run_radmc_command env cmd tp w)) = events w @ es"
      "list_all runner_quiet es"
      "is_raw (tracker (snd (run_radmc_command env cmd tp w))) = is_raw (tracker w)"
      "case shlex_split env cmd of
         Inl e' \<Rightarrow> e = e'
       | Inr [] \<Rightarrow> e = IndexError
       | Inr (exe # rest) \<Rightarrow>
           if which env exe then \<not> is_raw (tracker w) \<and> total_outcome env tp = Some e
           else e = FileNotFoundError (''Command not found: '' @ exe)"
  | (ran) exe rest out rc pre mid post where
      "shlex_split env cmd = Inr (exe # rest)" "which env exe"
      "subprocess env (exe # rest) = (out, rc)"
      "is_raw (tracker w) \<or> total_outcome env tp = None"
      "fst (run_radmc_command env cmd tp w)
         = (if rc \<noteq> 0 then Some (RuntimeError (''Command failed: '' @ cmd)) else None)"
      "events (snd (run_radmc_command env cmd tp w))
         = events w @ pre @ Spawn (exe # rest) (\<not> is_raw (tracker w)) # mid @ Exit rc # post"
      "list_all runner_quiet pre" "list_all runner_quiet mid" "list_all runner_quiet post"
      "is_raw (tracker w) \<or> calls_of mid = concat (map (line_calls tp) (takeWhile (\<lambda>l. l \<noteq> []) out))"
      "rc = 0 \<or> (\<exists>m. Logging ERROR m \<in> set post)
                 \<and> (is_raw (tracker w) = (\<forall>m. Call (OpLog m) \<notin> set post))"
      "is_raw (tracker (snd (run_radmc_command env cmd tp w))) = is_raw (tracker w)"
      "rc = 0 \<or> failure_tail (is_raw (tracker w)) cmd rc post"
proof -
  let ?R = "run_radmc_command env cmd tp w"
  let ?w1 = "log_command env cmd w"
  obtain t0 w2 where tt: "time_time env ?w1 = (t0, w2)" by (cases "time_time env ?w1")
  let ?head = "[Logging INFO (''[CMD] '' @ cmd), Logging INFO (''[CWD] '' @ getcwd env)]"
  have e2: "events w2 = events w @ ?head" and k2: "tracker w2 = tracker w"
    using tt by (auto simp: time_time_def log_command_def logging_def)
  have qh: "list_all runner_quiet ?head" by (simp add: runner_quiet_def)
  show ?thesis
  proof (cases "shlex_split env cmd")
    case (Inl e)
    then have r: "?R = (Some e, w2)" using tt by (simp add: run_radmc_command_def)
    show ?thesis
      by (rule before [of e ?head]) (simp_all add: r e2 k2 Inl runner_quiet_def)
  next
    case (Inr cmd_args)
    show ?thesis
    proof (cases cmd_args)
      case Nil
      then have r: "?R = (Some IndexError, w2)" using tt Inr by (simp add: run_radmc_command_def)
      show ?thesis
        by (rule before [of IndexError ?head]) (simp_all add: r e2 k2 Inr Nil runner_quiet_def)
    next
      case (Cons exe rest)
      show ?thesis
      proof (cases "which env exe")
        case False
        let ?es = "?head @ [Print ((''Error: Command '' @ quote @ exe @ quote @ '' not found!'') @ newline),
                            Logging ERROR (''Command not found: '' @ exe)]"
        have r: "?R = (Some (FileNotFoundError (''Command not found: '' @ exe)),
                       logging ERROR (''Command not found: '' @ exe)
                         (py_print (''Error: Command '' @ quote @ exe @ quote @ '' not found!'') w2))"
          using tt Inr Cons False by (simp add: run_radmc_command_def)
        show ?thesis
          by (rule before [of "FileNotFoundError (''Command not found: '' @ exe)" ?es])
             (simp_all add: r e2 k2 Inr Cons False runner_quiet_def logging_def py_print_def)
      next
        case True
        obtain out rc where sp: "subprocess env (exe # rest) = (out, rc)"
          by (cases "subprocess env (exe # rest)")
        show ?thesis
        proof (cases "tracker w")
          case RawTracker
          then have raw: "is_raw (tracker w)" by (simp add: is_raw_def)
          have r: "?R = raw_mode env cmd (exe # rest) t0 w2"
            using tt Inr Cons True RawTracker k2 by (simp add: run_radmc_command_def)
          from raw_mode_outcome(2) [OF sp, of cmd t0 w2] obtain post where
            ev: "events (snd (raw_mode env cmd (exe # rest) t0 w2))
                   = events w2 @ Spawn (exe # rest) False # [Passthrough out] @ Exit rc # post"
            and qp: "list_all runner_quiet post" and er: "rc = 0 \<or> (\<exists>m. Logging ERROR m \<in> set post)"
            and nl: "\<forall>m. Call (OpLog m) \<notin> set post"
            and ft: "rc = 0 \<or> failure_tail True cmd rc post" by blast
          show ?thesis
          proof (rule ran [of exe rest out rc ?head "[Passthrough out]" post])
            show "shlex_split env cmd = Inr (exe # rest)" using Inr Cons by simp
            show "which env exe" by (fact True)
            show "subprocess env (exe # rest) = (out, rc)" by (fact sp)
            show "is_raw (tracker w) \<or> total_outcome env tp = None" using raw by simp
            show "fst ?R = (if rc \<noteq> 0 then Some (RuntimeError (''Command failed: '' @ cmd)) else None)"
              using r raw_mode_outcome(1) [OF sp, of cmd t0 w2] by simp
            show "events (snd ?R)
                    = events w @ ?head @ Spawn (exe # rest) (\<not> is_raw (tracker w)) # [Passthrough out] @ Exit rc # post"
              using r ev e2 raw by simp
            show "list_all runner_quiet ?head" by (fact qh)
            show "list_all runner_quiet [Passthrough out]" by (simp add: runner_quiet_def)
            show "list_all runner_quiet post" by (fact qp)
            show "is_raw (tracker w) \<or> calls_of [Passthrough out]
                    = concat (map (line_calls tp) (takeWhile (\<lambda>l. l \<noteq> []) out))"
              using raw by simp
            show "rc = 0 \<or> (\<exists>m. Logging ERROR m \<in> set post)
                 \<and> (is_raw (tracker w) = (\<forall>m. Call (OpLog m) \<notin> set post))"
              using er nl raw by simp
            show "is_raw (tracker (snd ?R)) = is_raw (tracker w)"
              using r raw_mode_outcome(3) [OF sp, of cmd t0 w2] k2 by simp
            show "rc = 0 \<or> failure_tail (is_raw (tracker w)) cmd rc post" using ft raw by simp
          qed
        next
          case (AdvancedPhaseTracker self)
          then have nraw: "\<not> is_raw (tracker w)" by (simp add: is_raw_def)
          have r: "?R = advanced_mode env cmd (exe # rest) tp t0 w2"
            using tt Inr Cons True AdvancedPhaseTracker k2 by (simp add: run_radmc_command_def)
          show ?thesis
          proof (rule advanced_mode_cases [OF sp, of tp w2 cmd t0])
            fix e es
            assume a: "fst (set_total env tp w2) = Some e"
              "fst (advanced_mode env cmd (exe # rest) tp t0 w2) = Some e"
              "events (snd (advanced_mode env cmd (exe # rest) tp t0 w2)) = events w2 @ es"
              "list_all runner_quiet es"
              "is_raw (tracker (snd (advanced_mode env cmd (exe # rest) tp t0 w2))) = is_raw (tracker w2)"
            show ?thesis
            proof (rule before [of e "?head @ es"])
              show "fst ?R = Some e" using r a by simp
              show "events (snd ?R) = events w @ ?head @ es" using r a e2 by simp
              show "list_all runner_quiet (?head @ es)" using a qh by simp
              show "is_raw (tracker (snd ?R)) = is_raw (tracker w)" using r a k2 by simp
              show "case shlex_split env cmd of
                       Inl e' \<Rightarrow> e = e'
                     | Inr [] \<Rightarrow> e = IndexError
                     | Inr (exe # rest) \<Rightarrow>
                         if which env exe then \<not> is_raw (tracker w) \<and> total_outcome env tp = Some e
                         else e = FileNotFoundError (''Command not found: '' @ exe)"
                using Inr Cons True nraw a(1) by (simp add: set_total_outcome)
            qed
          next
            fix pre mid post
            assume a: "fst (set_total env tp w2) = None"
              "fst (advanced_mode env cmd (exe # rest) tp t0 w2)
                 = (if rc \<noteq> 0 then Some (RuntimeError (''Command failed: '' @ cmd)) else None)"
              "events (snd (advanced_mode env cmd (exe # rest) tp t0 w2))
                 = events w2 @ pre @ Spawn (exe # rest) True # mid @ Exit rc # post"
              "list_all runner_quiet pre" "list_all runner_quiet mid" "list_all runner_quiet post"
              "calls_of mid = concat (map (line_calls tp) (takeWhile (\<lambda>l. l \<noteq> []) out))"
              "rc = 0 \<or> (\<exists>m. Logging ERROR m \<in> set post) \<and> (\<exists>m. Call (OpLog m) \<in> set post)"
              "is_raw (tracker (snd (advanced_mode env cmd (exe # rest) tp t0 w2))) = is_raw (tracker w2)"
              "rc = 0 \<or> failure_tail False cmd rc post"
            show ?thesis
            proof (rule ran [of exe rest out rc "?head @ pre" mid post])
              show "shlex_split env cmd = Inr (exe # rest)" using Inr Cons by simp
              show "which env exe" by (fact True)
              show "subprocess env (exe # rest) = (out, rc)" by (fact sp)
              show "is_raw (tracker w) \<or> total_outcome env tp = None"
                using a(1) by (simp add: set_total_outcome)
              show "fst ?R = (if rc \<noteq> 0 then Some (RuntimeError (''Command failed: '' @ cmd)) else None)"
                using r a by simp
              show "events (snd ?R)
                      = events w @ (?head @ pre) @ Spawn (exe # rest) (\<not> is_raw (tracker w)) # mid @ Exit rc # post"
                using r a e2 nraw by simp
              show "list_all runner_quiet (?head @ pre)" using a qh by simp
              show "list_all runner_quiet mid" "list_all runner_quiet post" using a by simp_all
              show "is_raw (tracker w) \<or> calls_of mid
                      = concat (map (line_calls tp) (takeWhile (\<lambda>l. l \<noteq> []) out))"
                using a by simp
              show "rc = 0 \<or> (\<exists>m. Logging ERROR m \<in> set post)
                   \<and> (is_raw (tracker w) = (\<forall>m. Call (OpLog m) \<notin> set post))"
                using a(8) nraw by auto
              show "is_raw (tracker (snd ?R)) = is_raw (tracker w)" using r a k2 by simp
              show "rc = 0 \<or> failure_tail (is_raw (tracker w)) cmd rc post" using a(10) nraw by simp
            qed
          qed
        qed
      qed
    qed
  qed
qed

lemma new_events_append: "events w' = events w @ es \<Longrightarrow> new_events w w' = es"
  by (simp add: new_events_def)

lemma quiet_no_process: "list_all runner_quiet es \<Longrightarrow> Spawn args c \<notin> set es \<and> Exit rc \<notin> set es"
  by (auto simp: list_all_iff runner_quiet_def)

text \<open>
  Claim C5. For a command line whose first word is \<open>exe\<close>: when \<open>exe\<close> is not on the search
  path, the runner raises \<^verbatim>\<open>FileNotFoundError\<close> and has started no process. When it is, and
  the process is started (always in the raw mode; in the advanced mode unless the
  conversion of the photon total raises, in which case no process is started either), the
  process is run to its exit, and the runner raises \<^verbatim>\<open>RuntimeError\<close> if and only if the exit
  status is not zero, and returns normally if and only if it is zero.
\<close>

theorem run_radmc_command_failures:
  assumes sh: "shlex_split env command_str = Inr (exe # rest)"
    and sp: "subprocess env (exe # rest) = (out, rc)"
  shows "(\<not> which env exe \<longrightarrow>
            fst (run_radmc_command env command_str tp w)
              = Some (FileNotFoundError (''Command not found: '' @ exe))
            \<and> (\<forall>args c. Spawn args c \<notin> set (new_events w (snd (run_radmc_command env command_str tp w)))))
       \<and> (which env exe \<and> (is_raw (tracker w) \<or> total_outcome env tp = None) \<longrightarrow>
            Spawn (exe # rest) (\<not> is_raw (tracker w))
              \<in> set (new_events w (snd (run_radmc_command env command_str tp w)))
            \<and> Exit rc \<in> set (new_events w (snd (run_radmc_command env command_str tp w)))
            \<and> (fst (run_radmc_command env command_str tp w)
                  = Some (RuntimeError (''Command failed: '' @ command_str)) \<longleftrightarrow> rc \<noteq> 0)
            \<and> (fst (run_radmc_command env command_str tp w) = None \<longleftrightarrow> rc = 0))
       \<and> (which env exe \<and> \<not> is_raw (tracker w) \<and> total_outcome env tp = Some e \<longrightarrow>
            fst (run_radmc_command env command_str tp w) = Some e
            \<and> (\<forall>args c. Spawn args c \<notin> set (new_events w (snd (run_radmc_command env command_str tp w)))))"
proof (rule run_radmc_command_cases [of env command_str tp w])
  fix e' es
  assume a: "fst (run_radmc_command env command_str tp w) = Some e'"
    "events (snd (run_radmc_command env command_str tp w)) = events w @ es"
    "list_all runner_quiet es"
    "case shlex_split env command_str of
         Inl e'' \<Rightarrow> e' = e''
       | Inr [] \<Rightarrow> e' = IndexError
       | Inr (exe # rest) \<Rightarrow>
           if which env exe then \<not> is_raw (tracker w) \<and> total_outcome env tp = Some e'
           else e' = FileNotFoundError (''Command not found: '' @ exe)"
  have n: "new_events w (snd (run_radmc_command env command_str tp w)) = es"
    using a(2) by (rule new_events_append)
  from a(4) sh have c: "if which env exe then \<not> is_raw (tracker w) \<and> total_outcome env tp = Some e'
           else e' = FileNotFoundError (''Command not found: '' @ exe)" by simp
  show ?thesis
    using a(1) c n quiet_no_process [OF a(3)] by (auto split: if_splits)
next
  fix exe' rest' out' rc' pre mid post
  assume a: "shlex_split env command_str = Inr (exe' # rest')" "which env exe'"
    "subprocess env (exe' # rest') = (out', rc')"
    "is_raw (tracker w) \<or> total_outcome env tp = None"
    "fst (run_radmc_command env command_str tp w)
         = (if rc' \<noteq> 0 then Some (RuntimeError (''Command failed: '' @ command_str)) else None)"
    "events (snd (run_radmc_command env command_str tp w))
         = events w @ pre @ Spawn (exe' # rest') (\<not> is_raw (tracker w)) # mid @ Exit rc' # post"
  from a(1) sh have x: "exe' = exe" "rest' = rest" by simp_all
  with a(3) sp have y: "rc' = rc" by simp
  have n: "new_events w (snd (run_radmc_command env command_str tp w))
             = pre @ Spawn (exe # rest) (\<not> is_raw (tracker w)) # mid @ Exit rc # post"
    using a(6) x y by (simp add: new_events_append)
  show ?thesis
    using a(2,4,5) x y n by auto
qed

theorem run_radmc_command_failures_witness:
  "fst (run_radmc_command env0 ''radmc3d mctherm'' PNone w_init)
     = Some (RuntimeError ''Command failed: radmc3d mctherm'')
   \<and> Exit 1 \<in> set (new_events w_init (snd (run_radmc_command env0 ''radmc3d mctherm'' PNone w_init)))
   \<and> fst (run_radmc_command env0 ''radmc3d sed'' PNone w_init) = None
   \<and> Exit 0 \<in> set (new_events w_init (snd (run_radmc_command env0 ''radmc3d sed'' PNone w_init)))
   \<and> fst (run_radmc_command env0 ''radmc4d sed'' PNone w_init)
     = Some (FileNotFoundError ''Command not found: radmc4d'')"
proof -
  have raw: "is_raw (tracker w_init)" by (simp add: w_init_def is_raw_def)
  have s1: "shlex_split env0 ''radmc3d mctherm'' = Inr (''radmc3d'' # [''mctherm''])"
    and s2: "shlex_split env0 ''radmc3d sed'' = Inr (''radmc3d'' # [''sed''])"
    and s3: "shlex_split env0 ''radmc4d sed'' = Inr (''radmc4d'' # [''sed''])"
    by (simp_all add: env0_def)
  have p1: "subprocess env0 (''radmc3d'' # [''mctherm'']) = ([''Photon nr: 4821'' @ newline], 1)"
    and p2: "subprocess env0 (''radmc3d'' # [''sed'']) = ([''Photon nr: 4821'' @ newline], 0)"
    and p3: "subprocess env0 (''radmc4d'' # [''sed'']) = ([''Photon nr: 4821'' @ newline], 0)"
    by (simp_all add: env0_def)
  have w: "which env0 ''radmc3d''" "\<not> which env0 ''radmc4d''" by (simp_all add: env0_def)
  from run_radmc_command_failures [OF s1 p1, of PNone w_init] w raw
  have 1: "fst (run_radmc_command env0 ''radmc3d mctherm'' PNone w_init)
             = Some (RuntimeError ''Command failed: radmc3d mctherm'')"
    "Exit 1 \<in> set (new_events w_init (snd (run_radmc_command env0 ''radmc3d mctherm'' PNone w_init)))"
    by simp_all
  from run_radmc_command_failures [OF s2 p2, of PNone w_init] w raw
  have 2: "fst (run_radmc_command env0 ''radmc3d sed'' PNone w_init) = None"
    "Exit 0 \<in> set (new_events w_init (snd (run_radmc_command env0 ''radmc3d sed'' PNone w_init)))"
    by simp_all
  from run_radmc_command_failures [OF s3 p3, of PNone w_init] w
  have 3: "fst (run_radmc_command env0 ''radmc4d sed'' PNone w_init)
             = Some (FileNotFoundError ''Command not found: radmc4d'')"
    by simp
  from 1 2 3 show ?thesis by simp
qed

subsection \<open>The photon lines\<close>

lemma strip_photon_line:
  assumes "ds \<noteq> []" and "list_all is_digit ds"
  shows "strip (''Photon nr'' @ sep @ '' '' @ ds) = ''Photon nr'' @ sep @ '' '' @ ds"
proof -
  have p: "\<not> is_space CHR ''P''" by (simp add: is_space_def)
  have r: "rev ds \<noteq> []" "list_all is_digit (rev ds)" using assms by simp_all
  have "dropWhile is_space (rev ds @ rev (''Photon nr'' @ sep @ '' ''))
          = rev ds @ rev (''Photon nr'' @ sep @ '' '')"
    by (rule dropWhile_space_digits [OF r])
  then have "dropWhile is_space (rev (''Photon nr'' @ sep @ '' '' @ ds))
          = rev (''Photon nr'' @ sep @ '' '' @ ds)" by simp
  then show ?thesis by (simp add: strip_def p)
qed

lemma line_calls_photon:
  assumes "truthy tp" and "sep = [] \<or> sep = '':'' \<or> sep = ''.''"
  shows "line_calls tp (''Photon nr'' @ sep @ '' '' @ str_nat n)
           = [OpLog (''[dim]'' @ ''Photon nr'' @ sep @ '' '' @ str_nat n @ ''[/dim]''), OpUpdateProgress (int n)]"
proof -
  have s: "strip (''Photon nr'' @ sep @ '' '' @ str_nat n) = ''Photon nr'' @ sep @ '' '' @ str_nat n"
    by (rule strip_photon_line [OF str_nat_not_empty str_nat_digits])
  have m: "photon_search (''Photon nr'' @ sep @ '' '' @ str_nat n) = Some (str_nat n)"
    by (rule photon_search_canonical [OF assms(2) str_nat_not_empty str_nat_digits])
  show ?thesis
    unfolding line_calls_def s m using assms(1) by (simp add: int_of_digits_str_nat)
qed

lemma line_calls_no_total:
  "\<not> truthy tp \<Longrightarrow>
     line_calls tp line = (if strip line = [] then [] else [OpLog (''[dim]'' @ strip line @ ''[/dim]'')])"
  by (simp add: line_calls_def)

text \<open>
  Claim C1, as amended. In the progress-tracked mode, when the solver process is started,
  the calls that the tracker receives between the start and the exit of the process are,
  line by line of the output: for a line that is not blank, \<^verbatim>\<open>log\<close> of the stripped line
  (wrapped in \<^verbatim>\<open>[dim]\<close> markup), followed by \<^verbatim>\<open>update_progress\<close> of the photon count if the
  line matches the pattern and an expected total was supplied (and is not zero or empty). A
  line \<^verbatim>\<open>Photon nr <n>\<close>, \<^verbatim>\<open>Photon nr: <n>\<close> or \<^verbatim>\<open>Photon nr. <n>\<close> then sets the progress to
  \<open>n\<close>; a line that does not match, and every line when no total was supplied, leaves the
  progress value as it is.
\<close>

theorem photon_lines_forwarded:
  "(\<not> is_raw (tracker w) \<and> shlex_split env command_str = Inr (exe # rest) \<and> which env exe
      \<and> subprocess env (exe # rest) = (out, rc) \<and> total_outcome env tp = None \<longrightarrow>
      (\<exists>pre mid post.
         new_events w (snd (run_radmc_command env command_str tp w))
           = pre @ Spawn (exe # rest) True # mid @ Exit rc # post
         \<and> calls_of mid = concat (map (line_calls tp) (takeWhile (\<lambda>l. l \<noteq> []) out))))
   \<and> (tracker w = AdvancedPhaseTracker self \<longrightarrow>
        map_option task_completed (progress_of (snd (process_line env tp line w)))
          = (case line_calls tp line of
               [OpLog m, OpUpdateProgress k] \<Rightarrow> Some k
             | _ \<Rightarrow> Some (task_completed (phase_task self))))
   \<and> (truthy tp \<and> (sep = [] \<or> sep = '':'' \<or> sep = ''.'') \<longrightarrow>
        line_calls tp (''Photon nr'' @ sep @ '' '' @ str_nat n)
          = [OpLog (''[dim]'' @ ''Photon nr'' @ sep @ '' '' @ str_nat n @ ''[/dim]''),
             OpUpdateProgress (int n)])
   \<and> (\<not> truthy tp \<longrightarrow>
        line_calls tp line = (if strip line = [] then [] else [OpLog (''[dim]'' @ strip line @ ''[/dim]'')]))"
proof -
  have 1: "\<exists>pre mid post.
         new_events w (snd (run_radmc_command env command_str tp w))
           = pre @ Spawn (exe # rest) True # mid @ Exit rc # post
         \<and> calls_of mid = concat (map (line_calls tp) (takeWhile (\<lambda>l. l \<noteq> []) out))"
    if h: "\<not> is_raw (tracker w)" "shlex_split env command_str = Inr (exe # rest)" "which env exe"
      "subprocess env (exe # rest) = (out, rc)" "total_outcome env tp = None"
  proof (rule run_radmc_command_cases [of env command_str tp w])
    fix e es
    assume a: "fst (run_radmc_command env command_str tp w) = Some e"
      "case shlex_split env command_str of
         Inl e' \<Rightarrow> e = e'
       | Inr [] \<Rightarrow> e = IndexError
       | Inr (exe # rest) \<Rightarrow>
           if which env exe then \<not> is_raw (tracker w) \<and> total_outcome env tp = Some e
           else e = FileNotFoundError (''Command not found: '' @ exe)"
    from a(2) h show ?thesis by simp
  next
    fix exe' rest' out' rc' pre mid post
    assume a: "shlex_split env command_str = Inr (exe' # rest')"
      "subprocess env (exe' # rest') = (out', rc')"
      "events (snd (run_radmc_command env command_str tp w))
         = events w @ pre @ Spawn (exe' # rest') (\<not> is_raw (tracker w)) # mid @ Exit rc' # post"
      "is_raw (tracker w) \<or> calls_of mid = concat (map (line_calls tp) (takeWhile (\<lambda>l. l \<noteq> []) out'))"
    from a(1) h(2) have x: "exe' = exe" "rest' = rest" by simp_all
    with a(2) h(4) have y: "out' = out" "rc' = rc" by simp_all
    have "new_events w (snd (run_radmc_command env command_str tp w))
            = pre @ Spawn (exe # rest) True # mid @ Exit rc # post"
      using a(3) x y h(1) by (simp add: new_events_append)
    moreover have "calls_of mid = concat (map (line_calls tp) (takeWhile (\<lambda>l. l \<noteq> []) out))"
      using a(4) h(1) y by simp
    ultimately show ?thesis by blast
  qed
  show ?thesis
    using 1 process_line_progress [of w self env tp line] line_calls_photon [of tp sep n]
      line_calls_no_total [of tp line]
    by blast
qed

theorem photon_lines_forwarded_witness:
  "map_option task_completed (progress_of (snd (process_line env0 (PInt 100000) ''Photon nr: 4821'' w_adv)))
     = Some 4821
   \<and> map_option task_completed (progress_of (snd (process_line env0 (PInt 100000) ''Photon nr. 99'' w_adv)))
     = Some 99
   \<and> map_option task_completed (progress_of (snd (process_line env0 (PInt 100000) ''Reading grid'' w_adv)))
     = Some 0"
proof -
  obtain self where t: "tracker w_adv = AdvancedPhaseTracker self" "task_completed (phase_task self) = 0"
    by (simp add: w_adv_eq)
  have tr: "truthy (PInt 100000)" by simp
  have n1: "str_nat 4821 = ''4821''" and n2: "str_nat 99 = ''99''"
    by (simp_all add: str_nat.simps digit_char_def)
  from photon_lines_forwarded [of w_adv env0 "[]" "[]" "[]" "[]" 0 "PInt 100000" self "''Photon nr: 4821''" "'':''" 4821]
    t tr n1
  have 1: "map_option task_completed (progress_of (snd (process_line env0 (PInt 100000) ''Photon nr: 4821'' w_adv)))
     = Some 4821" by simp
  from photon_lines_forwarded [of w_adv env0 "[]" "[]" "[]" "[]" 0 "PInt 100000" self "''Photon nr. 99''" "''.''" 99]
    t tr n2
  have 2: "map_option task_completed (progress_of (snd (process_line env0 (PInt 100000) ''Photon nr. 99'' w_adv)))
     = Some 99" by simp
  have l3: "line_calls (PInt 100000) ''Reading grid'' = [OpLog ''[dim]Reading grid[/dim]'']"
    by (simp add: line_calls_def strip_def is_space_def photon_match_def option_bind_def)
  from photon_lines_forwarded [of w_adv env0 "[]" "[]" "[]" "[]" 0 "PInt 100000" self "''Reading grid''" "[]" 0]
    t l3
  have 3: "map_option task_completed (progress_of (snd (process_line env0 (PInt 100000) ''Reading grid'' w_adv)))
     = Some 0" by simp
  from 1 2 3 show ?thesis by simp
qed

text \<open>
  The claim C1 as it is worded fails where no expected total is supplied, as in the image
  phase of the orchestrator: the photon line is logged and the progress stays where it was.
\<close>

theorem photon_line_without_total:
  "calls_of (events (snd (run_radmc_command env0 ''radmc3d image'' PNone w_adv)))
     = [OpLog ''[dim]Photon nr: 4821[/dim]'']
   \<and> map_option task_completed (progress_of (snd (run_radmc_command env0 ''radmc3d image'' PNone w_adv)))
     = Some 0"
  by (simp add: w_adv_eq run_radmc_command_def advanced_mode_def set_total_def process_line_def
      log_command_def log_return_def skip_def pure_def strip_def is_space_def newline_def
      env0_def tracker_defs progress_of_def Let_def)

subsection \<open>The events of the phases\<close>

lemma quiet_plain: "runner_quiet e \<Longrightarrow> plain_event e"
  by (cases e) (simp_all add: plain_event_def runner_quiet_def split: tracker_op.splits)

lemma ui_plain: "is_ui e \<Longrightarrow> plain_event e"
  by (simp add: quiet_plain ui_quiet)

lemma logging_plain: "plain_event (Logging l m)"
  by (simp add: plain_event_def runner_quiet_def)

lemma extends_log_phase_start:
  assumes "\<And>e. plain_event e \<Longrightarrow> P e"
  shows "extends P w (snd (log_phase_start env name w))"
  using assms [OF logging_plain]
  by (simp add: extends_def log_phase_start_def logging_def time_time_def time_strftime_def)

lemma extends_log_phase_end:
  assumes "\<And>e. plain_event e \<Longrightarrow> P e"
  shows "extends P w (log_phase_end env name t0 w)"
  using assms [OF logging_plain]
  by (simp add: extends_def log_phase_end_def logging_def time_time_def time_strftime_def Let_def)

lemma adds_plain_call:
  assumes "\<And>e. plain_event e \<Longrightarrow> P e" and "plain_event (Call op)"
  shows "adds P (tracker_call env op)"
  by (rule adds_tracker_call) (simp_all add: assms ui_plain)

lemma adds_in_phase:
  assumes P: "\<And>e. plain_event e \<Longrightarrow> P e" and body: "list_all (adds P) body"
  shows "adds P (in_phase env name body)"
proof -
  have 1: "adds P (tracker_call env (OpStartPhase name))"
    by (rule adds_plain_call [OF P]) (simp_all add: plain_event_def)
  have 2: "adds P (tracker_call env (OpCompletePhase name))"
    by (rule adds_plain_call [OF P]) (simp_all add: plain_event_def)
  have 3: "adds P (\<lambda>w. case log_phase_start env name w of
                (phase_start, w1) \<Rightarrow>
                  run_steps (body @ [pure (log_phase_end env name phase_start),
                                     tracker_call env (OpCompletePhase name)]) w1)"
  proof (rule addsI)
    fix w
    obtain t0 w1 where l: "log_phase_start env name w = (t0, w1)" by (cases "log_phase_start env name w")
    have e1: "extends P w w1" using extends_log_phase_start [where P = P and w = w and env = env and name = name, OF P] l by simp
    have "adds P (run_steps (body @ [pure (log_phase_end env name t0), tracker_call env (OpCompletePhase name)]))"
      by (rule adds_run_steps) (simp add: body 2 adds_pure extends_log_phase_end [where P = P, OF P])
    from extends_trans [OF e1 addsD [OF this, of w1]]
    show "extends P w (snd (case log_phase_start env name w of
                (phase_start, w1) \<Rightarrow>
                  run_steps (body @ [pure (log_phase_end env name phase_start),
                                     tracker_call env (OpCompletePhase name)]) w1))"
      using l by simp
  qed
  show ?thesis
    unfolding in_phase_def by (rule adds_run_steps) (simp add: 1 3)
qed

lemma adds_os_dup2: "P (Sys (FdDup2 a b)) \<Longrightarrow> adds P (os_dup2 a b)"
  by (simp add: adds_def os_dup2_def extends_def split: option.splits)

lemma adds_os_close: "P (Sys (FdClose a)) \<Longrightarrow> adds P (os_close a)"
  by (simp add: adds_def os_close_def extends_def split: option.splits)

lemma extends_os_open: "P (Sys (FdOpen p (fst (os_open p w)))) \<Longrightarrow> extends P w (snd (os_open p w))"
  by (simp add: os_open_def extends_def split: prod.splits)

lemma extends_os_dup: "(\<And>n. P (Sys (FdDup a n))) \<Longrightarrow> extends P w (snd (os_dup a w))"
  by (simp add: os_dup_def extends_def split: option.splits prod.splits)

lemma adds_suppress_output:
  assumes sys: "\<And>op. P (Sys op)" and body: "adds P body"
  shows "adds P (suppress_output body)"
proof (rule addsI)
  fix w
  obtain d w1 where o: "os_open ''/dev/null'' w = (d, w1)" by (cases "os_open ''/dev/null'' w")
  have e1: "extends P w w1" using extends_os_open [of P "''/dev/null''" w] o sys by simp
  have inner: "adds P (\<lambda>w1. case os_dup 1 w1 of
                   (Inl e, w2) \<Rightarrow> (Some e, w2)
                 | (Inr old_stdout, w2) \<Rightarrow>
                    (case os_dup 2 w2 of
                       (Inl e, w3) \<Rightarrow> (Some e, w3)
                     | (Inr old_stderr, w3) \<Rightarrow>
                        try_finally
                          (run_steps [os_dup2 d 1, os_dup2 d 2, body])
                          (run_steps [os_dup2 old_stdout 1, os_dup2 old_stderr 2,
                                      os_close old_stdout, os_close old_stderr])
                          w3))"
  proof (rule addsI)
    fix v
    obtain r1 v2 where d1: "os_dup 1 v = (r1, v2)" by (cases "os_dup 1 v")
    have x1: "extends P v v2" using extends_os_dup [of P 1 v] d1 sys by simp
    show "extends P v (snd (case os_dup 1 v of
                   (Inl e, w2) \<Rightarrow> (Some e, w2)
                 | (Inr old_stdout, w2) \<Rightarrow>
                    (case os_dup 2 w2 of
                       (Inl e, w3) \<Rightarrow> (Some e, w3)
                     | (Inr old_stderr, w3) \<Rightarrow>
                        try_finally
                          (run_steps [os_dup2 d 1, os_dup2 d 2, body])
                          (run_steps [os_dup2 old_stdout 1, os_dup2 old_stderr 2,
                                      os_close old_stdout, os_close old_stderr])
                          w3)))"
    proof (cases r1)
      case (Inl e)
      with d1 x1 show ?thesis by simp
    next
      case (Inr o1)
      obtain r2 v3 where d2: "os_dup 2 v2 = (r2, v3)" by (cases "os_dup 2 v2")
      have x2: "extends P v2 v3" using extends_os_dup [of P 2 v2] d2 sys by simp
      show ?thesis
      proof (cases r2)
        case (Inl e)
        with d1 d2 Inr extends_trans [OF x1 x2] show ?thesis by simp
      next
        case o2: (Inr o2)
        have "adds P (try_finally
                          (run_steps [os_dup2 d 1, os_dup2 d 2, body])
                          (run_steps [os_dup2 o1 1, os_dup2 o2 2, os_close o1, os_close o2]))"
          by (intro adds_try_finally adds_run_steps)
             (simp_all add: adds_os_dup2 adds_os_close sys body)
        from extends_trans [OF extends_trans [OF x1 x2] addsD [OF this, of v3]]
        show ?thesis using d1 d2 Inr o2 by simp
      qed
    qed
  qed
  have "adds P (try_finally
          (\<lambda>w1. case os_dup 1 w1 of
                   (Inl e, w2) \<Rightarrow> (Some e, w2)
                 | (Inr old_stdout, w2) \<Rightarrow>
                    (case os_dup 2 w2 of
                       (Inl e, w3) \<Rightarrow> (Some e, w3)
                     | (Inr old_stderr, w3) \<Rightarrow>
                        try_finally
                          (run_steps [os_dup2 d 1, os_dup2 d 2, body])
                          (run_steps [os_dup2 old_stdout 1, os_dup2 old_stderr 2,
                                      os_close old_stdout, os_close old_stderr])
                          w3))
          (os_close d))"
    by (rule adds_try_finally [OF inner]) (simp add: adds_os_close sys)
  from extends_trans [OF e1 addsD [OF this, of w1]]
  show "extends P w (snd (suppress_output body w))"
    using o by (simp add: suppress_output_def)
qed

lemma adds_silenced:
  assumes "\<And>op. use_silencer \<Longrightarrow> P (Sys op)" and "adds P call"
  shows "adds P (silenced use_silencer call)"
  using assms by (cases use_silencer) (simp_all add: silenced_def adds_suppress_output)

lemma adds_plain_lib: "(\<And>e. plain_event e \<Longrightarrow> P e) \<Longrightarrow> adds P (lib_call env name)"
  by (rule adds_lib_call) (simp add: plain_event_def)

lemma adds_plain_logging: "(\<And>e. plain_event e \<Longrightarrow> P e) \<Longrightarrow> adds P (pure (logging l m))"
  by (rule adds_logging) (simp add: logging_plain)

lemma adds_silenced_lib:
  assumes P: "\<And>e. plain_event e \<Longrightarrow> P e" and sys: "\<And>op. use_silencer \<Longrightarrow> P (Sys op)"
  shows "adds P (silenced use_silencer (lib_call env name))"
proof (rule adds_silenced)
  fix op
  assume use_silencer
  then show "P (Sys op)" by (rule sys)
next
  show "adds P (lib_call env name)" by (rule adds_plain_lib [OF P])
qed

lemma adds_phase_setup:
  assumes P: "\<And>e. plain_event e \<Longrightarrow> P e" and sys: "\<And>op. use_silencer \<Longrightarrow> P (Sys op)"
  shows "adds P (phase_setup env use_silencer)"
proof -
  have 1: "adds P (pure (logging INFO ''Starting RADMC-3D simulation''))"
    by (rule adds_plain_logging [OF P])
  have 2: "adds P (silenced use_silencer (lib_call env ''analyze.writeDefaultParfile''))"
    by (rule adds_silenced_lib [where P = P and use_silencer = use_silencer, OF P sys])
  show ?thesis
    unfolding phase_setup_def by (rule adds_in_phase [OF P]) (simp_all add: 1 2)
qed

lemma adds_require_keys: "adds P (run_steps (map (require_key ps) keys))"
  by (rule adds_run_steps) (simp add: list_all_iff adds_require_key)

lemma adds_phase_configure:
  assumes P: "\<And>e. plain_event e \<Longrightarrow> P e" and sys: "\<And>op. use_silencer \<Longrightarrow> P (Sys op)"
  shows "adds P (phase_configure env ps use_silencer)"
proof -
  have 1: "adds P (tracker_call env (OpLog ''Writing input files...''))"
    by (rule adds_plain_call [OF P]) (simp_all add: plain_event_def runner_quiet_def)
  have 2: "adds P (pure (logging INFO ''Writing RADMC-3D input files and grid setup''))"
    by (rule adds_plain_logging [OF P])
  have 3: "adds P (silenced use_silencer (lib_call env ''setup.problemSetupDust''))"
    by (rule adds_silenced_lib [where P = P and use_silencer = use_silencer, OF P sys])
  have 4: "adds P (lib_call env ''open radmc3d.inp'')"
    by (rule adds_plain_lib [OF P])
  have 5: "adds P (pure (emit (FileWrite p c)))" for p c
    by (rule adds_emit, rule P) (simp add: plain_event_def)
  show ?thesis
    unfolding phase_configure_def
    by (rule adds_in_phase [OF P]) (simp_all add: 1 2 3 4 5 adds_require_keys adds_require_key)
qed

lemma adds_save_file:
  assumes P: "\<And>e. plain_event e \<Longrightarrow> P e"
  shows "adds P (save_file env f)"
proof (cases f)
  case (Pair src dst)
  have 1: "adds P (lib_call env n)" for n by (rule adds_plain_lib [OF P])
  have 2: "adds P (pure (logging l m))" for l m by (rule adds_plain_logging [OF P])
  have "adds P (run_steps
            [lib_call env (''os.path.getsize '' @ src),
             lib_call env (''shutil.copy '' @ src),
             pure (logging INFO (''Saved: '' @ src @ '' (''
                     @ fmt_fixed env 2 (of_nat (getsize env src) / 1048576) @ '' MB) -> '' @ dst))])"
    by (rule adds_run_steps) (simp add: 1 2)
  then show ?thesis using Pair by (simp add: save_file_def adds_skip)
qed

lemma adds_phase_save:
  assumes P: "\<And>e. plain_event e \<Longrightarrow> P e"
  shows "adds P (phase_save env timestamp)"
proof -
  have 1: "adds P (lib_call env n)" for n by (rule adds_plain_lib [OF P])
  have 2: "adds P (pure (logging l m))" for l m by (rule adds_plain_logging [OF P])
  have 3: "adds P (save_file env f)" for f by (rule adds_save_file [OF P])
  have 4: "adds P (run_steps (map (save_file env) (files_to_save timestamp)))"
    by (rule adds_run_steps) (simp add: list_all_iff 3)
  show ?thesis
    unfolding phase_save_def
    by (rule adds_in_phase [OF P]) (simp_all add: 1 2 4)
qed

lemma adds_try_log_simulation:
  assumes P: "\<And>e. plain_event e \<Longrightarrow> P e"
  shows "adds P (try_log_simulation env)"
proof -
  have l: "P (LibCall n)" for n by (rule P) (simp add: plain_event_def)
  show ?thesis
    by (rule addsI)
       (simp add: try_log_simulation_def lib_call_def time_time_def extends_def l split: option.splits)
qed

lemma adds_run_radmc_command:
  assumes q: "\<And>e. runner_quiet e \<Longrightarrow> P e"
    and sp: "\<And>args c. P (Spawn args c)" and ex: "\<And>rc. P (Exit rc)"
  shows "adds P (run_radmc_command env cmd tp)"
proof (rule addsI)
  fix w
  show "extends P w (snd (run_radmc_command env cmd tp w))"
  proof (cases rule: run_radmc_command_cases [of env cmd tp w])
    case (before e es)
    then show ?thesis using q by (auto simp: extends_def list_all_iff)
  next
    case (ran exe rest out rc pre mid post)
    then show ?thesis using q sp ex by (auto simp: extends_def list_all_iff)
  qed
qed

lemma adds_plain_runner:
  assumes P: "\<And>e. plain_event e \<Longrightarrow> P e"
    and sp: "\<And>args c. P (Spawn args c)" and ex: "\<And>rc. P (Exit rc)"
  shows "adds P (run_radmc_command env cmd tp)"
  by (rule adds_run_radmc_command) (simp_all add: P quiet_plain sp ex)

lemma adds_phase_mctherm:
  assumes P: "\<And>e. plain_event e \<Longrightarrow> P e"
    and sp: "\<And>args c. P (Spawn args c)" and ex: "\<And>rc. P (Exit rc)"
  shows "adds P (phase_mctherm env ps threads)"
proof -
  have r: "adds P (run_radmc_command env c t)" for c t
    by (rule adds_plain_runner) (simp_all add: P sp ex)
  show ?thesis
    unfolding phase_mctherm_def by (rule adds_in_phase [OF P]) (simp_all add: r adds_require_key)
qed

lemma adds_phase_sed:
  assumes P: "\<And>e. plain_event e \<Longrightarrow> P e"
    and sp: "\<And>args c. P (Spawn args c)" and ex: "\<And>rc. P (Exit rc)"
  shows "adds P (phase_sed env ps threads)"
proof -
  have r: "adds P (run_radmc_command env c t)" for c t
    by (rule adds_plain_runner) (simp_all add: P sp ex)
  show ?thesis
    unfolding phase_sed_def by (rule adds_in_phase [OF P]) (simp_all add: r adds_require_key)
qed

lemma adds_phase_image:
  assumes P: "\<And>e. plain_event e \<Longrightarrow> P e"
    and sp: "\<And>args c. P (Spawn args c)" and ex: "\<And>rc. P (Exit rc)"
  shows "adds P (phase_image env ps run_dir name timestamp wavelength threads)"
proof -
  have r: "adds P (run_radmc_command env c t)" for c t
    by (rule adds_plain_runner) (simp_all add: P sp ex)
  have 1: "adds P (lib_call env n)" for n by (rule adds_plain_lib [OF P])
  have 2: "adds P (pure (logging l m))" for l m by (rule adds_plain_logging [OF P])
  have 3: "adds P (tracker_call env (OpLog m))" for m
    by (rule adds_plain_call [OF P]) (simp_all add: plain_event_def runner_quiet_def)
  show ?thesis
    unfolding phase_image_def
    by (rule adds_in_phase [OF P]) (simp_all add: r 1 2 3 adds_require_key)
qed

lemma adds_try_block:
  assumes P: "\<And>e. plain_event e \<Longrightarrow> P e"
    and sp: "\<And>args c. P (Spawn args c)" and ex: "\<And>rc. P (Exit rc)"
    and call: "\<And>op. P (Call op)"
    and sys: "\<And>op. use_silencer \<Longrightarrow> P (Sys op)"
  shows "adds P (run_steps (try_block env ps run_dir name timestamp make_images wavelength threads
                              use_silencer))"
proof -
  have c: "adds P (tracker_call env op)" for op
    by (rule adds_tracker_call) (simp_all add: call P ui_plain)
  have 1: "adds P (phase_setup env use_silencer)"
    by (rule adds_phase_setup [where P = P and use_silencer = use_silencer]) (simp_all add: P sys)
  have 2: "adds P (phase_configure env ps use_silencer)"
    by (rule adds_phase_configure [where P = P and use_silencer = use_silencer]) (simp_all add: P sys)
  have 3: "adds P (phase_mctherm env ps threads)"
    by (rule adds_phase_mctherm) (simp_all add: P sp ex)
  have 4: "adds P (phase_sed env ps threads)"
    by (rule adds_phase_sed) (simp_all add: P sp ex)
  have 5: "adds P (phase_image env ps run_dir name timestamp wavelength threads)"
    by (rule adds_phase_image) (simp_all add: P sp ex)
  have 6: "adds P (phase_save env timestamp)"
    by (rule adds_phase_save) (simp add: P)
  have 7: "adds P (try_log_simulation env)"
    by (rule adds_try_log_simulation) (simp add: P)
  show ?thesis
    by (rule adds_run_steps) (simp add: try_block_def c 1 2 3 4 5 6 7)
qed

lemma extends_on_failure:
  assumes P: "\<And>e. plain_event e \<Longrightarrow> P e" and call: "\<And>op. P (Call op)"
  shows "extends P w (snd (on_failure env e w))"
proof -
  have c: "adds P (tracker_call env OpStop)"
    by (rule adds_tracker_call) (simp_all add: call P ui_plain)
  obtain r w1 where t: "tracker_call env OpStop w = (r, w1)" by (cases "tracker_call env OpStop w")
  from addsD_pair [OF c t] have e1: "extends P w w1" .
  have l: "P (Logging l m)" for l m by (rule P) (rule logging_plain)
  have p: "P (ConsolePrint m)" for m by (rule P) (simp add: plain_event_def runner_quiet_def)
  have e2: "extends P w1 (print_error m (logging ERROR m' w1))" for m m'
    using l [of ERROR m'] p
    by (simp add: extends_def print_error_def console_print_def logging_def emit_def)
  show ?thesis
    using t e1 extends_trans [OF e1 e2] by (cases r) (simp_all add: on_failure_def)
qed

lemma select_tracker_events: "events (snd (select_tracker env ui_mode make_images w)) = events w"
  by (simp add: select_tracker_def adv_init_def time_time_def split: prod.splits)

lemma run_single_simulation_extends:
  assumes P: "\<And>e. plain_event e \<Longrightarrow> P e"
    and sp: "\<And>args c. P (Spawn args c)" and ex: "\<And>rc. P (Exit rc)"
    and call: "\<And>op. P (Call op)"
    and sys: "\<And>op. fst (select_tracker env ui_mode make_images w) \<Longrightarrow> P (Sys op)"
  shows "extends P (snd (select_tracker env ui_mode make_images w))
           (snd (run_single_simulation env ps run_dir name timestamp make_images wavelength threads
                   ui_mode w))"
proof -
  let ?block = "try_block env ps run_dir name timestamp make_images wavelength threads"
  obtain use_silencer w1 where s: "select_tracker env ui_mode make_images w = (use_silencer, w1)"
    by (cases "select_tracker env ui_mode make_images w")
  obtain r2 w2 where t: "tracker_call env OpStart w1 = (r2, w2)" by (cases "tracker_call env OpStart w1")
  have c: "adds P (tracker_call env OpStart)"
    by (rule adds_tracker_call) (simp_all add: call P ui_plain)
  from addsD_pair [OF c t] have e2: "extends P w1 w2" .
  show ?thesis
  proof (cases r2)
    case (Some e)
    with s t e2 show ?thesis by (simp add: run_single_simulation_def)
  next
    case None
    obtain started w3 where tt: "time_time env w2 = (started, w3)" by (cases "time_time env w2")
    then have e3: "extends P w2 w3" by (auto simp: time_time_def extends_clock)
    obtain r4 w4 where b: "run_steps (?block use_silencer) w3 = (r4, w4)"
      by (cases "run_steps (?block use_silencer) w3")
    have "adds P (run_steps (?block use_silencer))"
      by (rule adds_try_block [where P = P and use_silencer = use_silencer])
         (use s in \<open>simp_all add: P sp ex call sys\<close>)
    from addsD_pair [OF this b] have e4: "extends P w3 w4" .
    note e14 = extends_trans [OF e2 extends_trans [OF e3 e4]]
    show ?thesis
    proof (cases r4)
      case None
      with s t \<open>r2 = None\<close> tt b e14 show ?thesis by (simp add: run_single_simulation_def)
    next
      case (Some e)
      obtain e' w5 where f: "on_failure env e w4 = (e', w5)" by (cases "on_failure env e w4")
      from extends_on_failure [where P = P and w = w4 and env = env and e = e] P call f
      have "extends P w4 w5" by simp
      from extends_trans [OF e14 this] s t \<open>r2 = None\<close> tt b Some f show ?thesis
        by (simp add: run_single_simulation_def)
    qed
  qed
qed

lemma plain_not_sys: "plain_event e \<Longrightarrow> not_sys e"
  by (cases e) (simp_all add: plain_event_def not_sys_def runner_quiet_def)

lemma is_raw_RawTracker: "is_raw t \<Longrightarrow> t = RawTracker"
  by (cases t) (simp_all add: is_raw_def)

subsection \<open>The choice of the mode\<close>

text \<open>
  Claim C10. The silencer is chosen exactly when \<^verbatim>\<open>ui_mode\<close> is the string \<^verbatim>\<open>advanced\<close>. For
  every other value, documented or not, the tracker is the \<^verbatim>\<open>RawTracker\<close> and stays it to the
  end of the run, the run is the run of the mode \<^verbatim>\<open>raw\<close> in its result and in everything it
  does (so the value itself raises nothing), and the run makes no system call on the file
  descriptors: the suppression of output is never entered.
\<close>

theorem ui_mode_selection:
  "(fst (select_tracker env ui_mode make_images w) \<longleftrightarrow> ui_mode = ''advanced'')
   \<and> (ui_mode \<noteq> ''advanced'' \<longrightarrow>
        tracker (snd (select_tracker env ui_mode make_images w)) = RawTracker
        \<and> run_single_simulation env ps run_dir name timestamp make_images wavelength threads ui_mode w
          = run_single_simulation env ps run_dir name timestamp make_images wavelength threads ''raw'' w
        \<and> tracker (snd (run_single_simulation env ps run_dir name timestamp make_images wavelength
                          threads ui_mode w)) = RawTracker
        \<and> (\<forall>op. Sys op \<notin> set (new_events w
               (snd (run_single_simulation env ps run_dir name timestamp make_images wavelength
                       threads ui_mode w)))))"
proof -
  let ?run = "run_single_simulation env ps run_dir name timestamp make_images wavelength threads"
  have a: "fst (select_tracker env ui_mode make_images w) \<longleftrightarrow> ui_mode = ''advanced''"
    by (simp add: select_tracker_def split: prod.splits)
  {
    assume n: "ui_mode \<noteq> ''advanced''"
    then have s: "select_tracker env ui_mode make_images w = (False, w\<lparr>tracker := RawTracker\<rparr>)"
      by (simp add: select_tracker_def)
    have eq: "?run ui_mode w = ?run ''raw'' w"
      using n by (simp add: run_single_simulation_def select_tracker_def)
    have o: "not_sys (Spawn args c)" "not_sys (Exit rc)" "not_sys (Call op')" for args c rc op'
      by (simp_all add: not_sys_def)
    have "extends not_sys (snd (select_tracker env ui_mode make_images w)) (snd (?run ui_mode w))"
      by (rule run_single_simulation_extends)
         (use n in \<open>simp_all add: plain_not_sys o select_tracker_def\<close>)
    then obtain es where es: "events (snd (?run ui_mode w)) = events w @ es" "list_all not_sys es"
      and k: "is_raw (tracker (snd (?run ui_mode w)))"
      using s by (auto simp: extends_def is_raw_def)
    from es(1) have "new_events w (snd (?run ui_mode w)) = es" by (rule new_events_append)
    with es(2) have "\<forall>op. Sys op \<notin> set (new_events w (snd (?run ui_mode w)))"
      by (auto simp: list_all_iff not_sys_def)
    with s eq is_raw_RawTracker [OF k]
    have "tracker (snd (select_tracker env ui_mode make_images w)) = RawTracker
        \<and> ?run ui_mode w = ?run ''raw'' w
        \<and> tracker (snd (?run ui_mode w)) = RawTracker
        \<and> (\<forall>op. Sys op \<notin> set (new_events w (snd (?run ui_mode w))))"
      by simp
  }
  with a show ?thesis by blast
qed


theorem ui_mode_selection_witness:
  "\<not> fst (select_tracker env0 ''fancy'' False w_init)
   \<and> run_single_simulation env0 Map.empty ''runs'' ''demo'' ''t0'' False (PFloat (Fin (11 / 5))) (PInt 4)
        ''fancy'' w_init
     = run_single_simulation env0 Map.empty ''runs'' ''demo'' ''t0'' False (PFloat (Fin (11 / 5))) (PInt 4)
        ''raw'' w_init
   \<and> tracker (snd (run_single_simulation env0 Map.empty ''runs'' ''demo'' ''t0'' False
                     (PFloat (Fin (11 / 5))) (PInt 4) ''fancy'' w_init)) = RawTracker
   \<and> Sys (FdOpen ''/dev/null'' 3)
       \<notin> set (new_events w_init (snd (run_single_simulation env0 Map.empty ''runs'' ''demo'' ''t0'' False
                     (PFloat (Fin (11 / 5))) (PInt 4) ''fancy'' w_init)))
   \<and> Sys (FdOpen ''/dev/null'' 3)
       \<in> set (new_events w_init (snd (run_single_simulation env0 Map.empty ''runs'' ''demo'' ''t0'' False
                     (PFloat (Fin (11 / 5))) (PInt 4) ''advanced'' w_init)))"
proof -
  have n: "''fancy'' \<noteq> ''advanced''" by simp
  have a: "Sys (FdOpen ''/dev/null'' 3)
       \<in> set (new_events w_init (snd (run_single_simulation env0 Map.empty ''runs'' ''demo'' ''t0'' False
                     (PFloat (Fin (11 / 5))) (PInt 4) ''advanced'' w_init)))"
    by (simp add: run_single_simulation_def select_tracker_def adv_init_def phase_names_def
      try_block_def phase_setup_def phase_configure_def in_phase_def log_phase_start_def
      log_phase_end_def silenced_def suppress_output_def os_open_def os_dup_def os_dup2_def
      os_close_def fd_target_def set_fd_def lib_call_def require_key_def dust_setup_keys_def
      pure_def try_finally_def on_failure_def print_error_def exc_str_def new_events_def
      env0_def w_init_def tracker_defs Let_def)
  from ui_mode_selection [where env = env0 and ui_mode = "''fancy''" and make_images = False
      and w = w_init and ps = Map.empty and run_dir = "''runs''" and name = "''demo''"
      and timestamp = "''t0''" and wavelength = "PFloat (Fin (11 / 5))" and threads = "PInt 4"] n a
  show ?thesis by blast
qed

end
